(* ===== verification/Socket_Prelude.thy ===== *)
theory Socket_Prelude imports Main "HOL-Library.Word" "HOL-Library.While_Combinator" begin

text \<open>
  Shared by every theory of the development: the outcome of running a piece of C++
  (a value, undefined behaviour or an uncaught exception, or no return at all), the
  do/while loop over outcomes with its rules, the C integer types, and stores into and
  little-endian views of memory.
\<close>

unbundle bit_operations_syntax

text \<open>Equations that run an operation of the model on its arguments.\<close>

named_theorems run_simps

section \<open>Outcomes\<close>

text \<open>
  What running a C++ fragment can do beyond returning. The faults are the undefined
  behaviours and exceptions that the modelled code can reach:
  \<^item> \<open>PointerOutOfBounds\<close>: an access outside the array a pointer points into;
  \<^item> \<open>NullCopy\<close>: \<open>memcpy\<close> from a null pointer;
  \<^item> \<open>BadArrayLength\<close>: \<open>new uint8[n]\<close> with a negative \<open>n\<close> (an exception);
  \<^item> \<open>FdSetOverrun\<close>: \<open>FD_SET\<close> on a descriptor outside \<open>0 ..< FD_SETSIZE\<close>;
  \<^item> \<open>SignedOverflow\<close>: \<open>int\<close> arithmetic out of range;
  \<^item> \<open>StackOverrun\<close>: a copy larger than the local it fills;
  \<^item> \<open>MismatchedDelete\<close>: \<open>delete\<close> on memory from \<open>new[]\<close>.
\<close>

datatype fault =
    PointerOutOfBounds
  | NullCopy
  | BadArrayLength
  | FdSetOverrun
  | SignedOverflow
  | StackOverrun
  | MismatchedDelete

datatype 'a outcome = Returns 'a | Faults fault | Diverges

fun obind :: "'a outcome \<Rightarrow> ('a \<Rightarrow> 'b outcome) \<Rightarrow> 'b outcome" where
  "obind (Returns x) f = f x"
| "obind (Faults u) f = Faults u"
| "obind Diverges f = Diverges"

lemma obind_Returns_right [simp]: "obind m Returns = m"
  by (cases m) simp_all

lemma obind_assoc: "obind (obind m f) g = obind m (\<lambda>x. obind (f x) g)"
  by (cases m) simp_all

lemma obind_eq_Returns:
  "obind m f = Returns y \<longleftrightarrow> (\<exists>x. m = Returns x \<and> f x = Returns y)"
  by (cases m) simp_all

lemma obind_eq_Diverges:
  "obind m f = Diverges \<longleftrightarrow> m = Diverges \<or> (\<exists>x. m = Returns x \<and> f x = Diverges)"
  by (cases m) simp_all

lemma obind_cong_Returns:
  "m = m' \<Longrightarrow> (\<And>x. m' = Returns x \<Longrightarrow> f x = g x) \<Longrightarrow> obind m f = obind m' g"
  by (cases m') simp_all

lemma map_outcome_eq_Returns: "map_outcome f m = Returns y \<longleftrightarrow> (\<exists>x. m = Returns x \<and> y = f x)"
  by (cases m) auto

lemma obind_map_outcome: "obind (map_outcome f m) g = obind m (\<lambda>x. g (f x))"
  by (cases m) simp_all

lemma map_obind: "map_outcome f (obind m g) = obind m (\<lambda>x. map_outcome f (g x))"
  by (cases m) simp_all

section \<open>The do/while loop\<close>

text \<open>
  \<open>do { body } while (test)\<close>: the body runs, then the test decides whether it runs
  again. A fault of the body ends the loop. A loop that never stops is \<open>Diverges\<close>.
\<close>

definition loop_test :: "('s \<Rightarrow> bool) \<Rightarrow> 's outcome \<Rightarrow> bool" where
  "loop_test test m = (case m of Returns s \<Rightarrow> test s | Faults u \<Rightarrow> False | Diverges \<Rightarrow> False)"

definition do_while :: "('s \<Rightarrow> 's outcome) \<Rightarrow> ('s \<Rightarrow> bool) \<Rightarrow> 's \<Rightarrow> 's outcome" where
  "do_while body test s =
     (case while_option (loop_test test) (\<lambda>m. obind m body) (body s) of
        None \<Rightarrow> Diverges
      | Some m \<Rightarrow> m)"

lemma loop_test_simps [simp]:
  "loop_test test (Returns s) = test s"
  "loop_test test (Faults u) = False"
  "loop_test test Diverges = False"
  by (simp_all add: loop_test_def)

text \<open>One pass through the body, then the test.\<close>

lemma do_while_unfold:
  "do_while body test s =
     obind (body s) (\<lambda>s'. if test s' then do_while body test s' else Returns s')"
proof (cases "body s")
  case (Returns s')
  then show ?thesis
    by (simp add: do_while_def while_option_unfold [of _ _ "Returns s'"])
next
  case (Faults u)
  then show ?thesis by (simp add: do_while_def while_option_unfold)
next
  case Diverges
  then show ?thesis by (simp add: do_while_def while_option_unfold)
qed

lemma do_while_once:
  "body s = Returns s' \<Longrightarrow> \<not> test s' \<Longrightarrow> do_while body test s = Returns s'"
  by (subst do_while_unfold) simp

lemma do_while_again:
  "body s = Returns s' \<Longrightarrow> test s' \<Longrightarrow> do_while body test s = do_while body test s'"
  by (subst do_while_unfold) simp

lemma do_while_fault:
  "body s = Faults u \<Longrightarrow> do_while body test s = Faults u"
  by (subst do_while_unfold) simp

text \<open>Several passes through the body in a row.\<close>

lemma do_while_passes:
  assumes "\<And>i. i < k \<Longrightarrow> body (\<sigma> i) = Returns (\<sigma> (Suc i)) \<and> test (\<sigma> (Suc i))"
  shows "do_while body test (\<sigma> 0) = do_while body test (\<sigma> k)"
  using assms
proof (induction k)
  case 0
  then show ?case by simp
next
  case (Suc k)
  then have "do_while body test (\<sigma> 0) = do_while body test (\<sigma> k)" by simp
  also have "\<dots> = do_while body test (\<sigma> (Suc k))"
    using Suc.prems [of k] by (intro do_while_again) auto
  finally show ?case .
qed

text \<open>
  Partial correctness: \<open>P\<close> holds before every pass, \<open>Q\<close> after every pass.
\<close>

lemma do_while_rule:
  assumes ret: "do_while body test s = Returns t"
    and init: "P s"
    and pass: "\<And>x y. P x \<Longrightarrow> body x = Returns y \<Longrightarrow> Q y"
    and again: "\<And>y. Q y \<Longrightarrow> test y \<Longrightarrow> P y"
  shows "Q t \<and> \<not> test t"
proof -
  let ?I = "\<lambda>m. \<forall>y. m = Returns y \<longrightarrow> Q y"
  from ret obtain m where m: "while_option (loop_test test) (\<lambda>m. obind m body) (body s) = Some m"
    and mt: "m = Returns t"
    by (auto simp: do_while_def split: option.splits)
  have "?I m"
  proof (rule while_option_rule [where P = ?I, OF _ m])
    show "?I (body s)" using init pass by blast
    show "?I (obind x body)" if "?I x" "loop_test test x" for x
      using that again pass by (cases x) auto
  qed
  moreover have "\<not> loop_test test m" by (rule while_option_stop [OF m])
  ultimately show ?thesis using mt by simp
qed

text \<open>Total correctness: a variant decreases on every pass that is repeated.\<close>

lemma do_while_total:
  fixes v :: "'s \<Rightarrow> nat"
  assumes init: "P s"
    and pass: "\<And>x. P x \<Longrightarrow> \<exists>y. body x = Returns y \<and> (test y \<longrightarrow> P y \<and> v y < v x)"
  shows "\<exists>t. do_while body test s = Returns t"
  using init
proof (induction "v s" arbitrary: s rule: less_induct)
  case less
  from pass [OF less.prems] obtain y where y: "body s = Returns y"
    and next_pass: "test y \<Longrightarrow> P y \<and> v y < v s" by blast
  show ?case
  proof (cases "test y")
    case True
    with next_pass have "\<exists>t. do_while body test y = Returns t" by (intro less.hyps) auto
    with y True show ?thesis by (simp add: do_while_again)
  next
    case False
    with y show ?thesis by (auto simp: do_while_once)
  qed
qed

text \<open>Safety: passes that keep \<open>P\<close> and do not fault make a loop that does not fault.\<close>

lemma do_while_safe:
  assumes init: "P s"
    and pass: "\<And>x. P x \<Longrightarrow> body x \<noteq> Faults u \<and> (\<forall>y. body x = Returns y \<longrightarrow> P y)"
  shows "do_while body test s \<noteq> Faults u"
proof -
  let ?I = "\<lambda>m. m \<noteq> Faults u \<and> (\<forall>y. m = Returns y \<longrightarrow> P y)"
  have "m \<noteq> Faults u" if m: "while_option (loop_test test) (\<lambda>m. obind m body) (body s) = Some m" for m
  proof -
    have "?I m"
    proof (rule while_option_rule [where P = ?I, OF _ m])
      show "?I (body s)" using init pass by blast
      show "?I (obind x body)" if "?I x" "loop_test test x" for x
        using that pass by (cases x) auto
    qed
    then show ?thesis ..
  qed
  then show ?thesis by (auto simp: do_while_def split: option.splits)
qed

text \<open>Divergence: from every state of \<open>P\<close> a pass leads back into \<open>P\<close> with the test true.\<close>

lemma do_while_diverges:
  assumes init: "P s"
    and pass: "\<And>x. P x \<Longrightarrow> \<exists>y. body x = Returns y \<and> test y \<and> P y"
  shows "do_while body test s = Diverges"
proof -
  let ?I = "\<lambda>m. \<exists>y. m = Returns y \<and> test y \<and> P y"
  have False if m: "while_option (loop_test test) (\<lambda>m. obind m body) (body s) = Some m" for m
  proof -
    have "?I m"
    proof (rule while_option_rule [where P = ?I, OF _ m])
      show "?I (body s)" using init pass by blast
      show "?I (obind x body)" if "?I x" "loop_test test x" for x
        using that pass by auto
    qed
    moreover have "\<not> loop_test test m" by (rule while_option_stop [OF m])
    ultimately show False by auto
  qed
  then have "while_option (loop_test test) (\<lambda>m. obind m body) (body s) = None"
    by (cases "while_option (loop_test test) (\<lambda>m. obind m body) (body s)") auto
  then show ?thesis by (simp add: do_while_def)
qed

text \<open>Partial correctness of sequences and loops.\<close>

lemma pred_obind:
  "pred_outcome Q m \<Longrightarrow> (\<And>x. Q x \<Longrightarrow> pred_outcome P (f x)) \<Longrightarrow> pred_outcome P (obind m f)"
  by (cases m) auto

lemma pred_do_while:
  assumes "P s" and "\<And>x. P x \<Longrightarrow> pred_outcome P (body x)"
  shows "pred_outcome P (do_while body test s)"
proof (cases "do_while body test s")
  case (Returns t)
  have "P y" if "P x" "body x = Returns y" for x y using assms(2) [OF that(1)] that(2) by simp
  from do_while_rule [OF Returns, of P P] this assms(1) have "P t" by blast
  with Returns show ?thesis by simp
qed simp_all

text \<open>Two sequences, the states of one mapped to those of the other.\<close>

lemma map_obind_pred:
  assumes "l' = map_outcome g l" and "pred_outcome P l" and "\<And>z. P z \<Longrightarrow> f' (g z) = map_outcome h (f z)"
  shows "obind l' f' = map_outcome h (obind l f)"
  using assms by (cases l) auto

text \<open>A loop seen through a map between two kinds of state.\<close>

lemma do_while_map:
  assumes step: "\<And>x. P x \<Longrightarrow> body' (f x) = map_outcome f (body x) \<and> (\<forall>y. body x = Returns y \<longrightarrow> P y \<and> test' (f y) = test y)"
    and "P x"
  shows "do_while body' test' (f x) = map_outcome f (do_while body test x)"
proof -
  let ?Q = "\<lambda>m. \<forall>y. m = Returns y \<longrightarrow> P y \<and> test' (f y) = test y"
  have "map_option (map_outcome f) (while_option (loop_test test) (\<lambda>m. obind m body) (body x))
      = while_option (loop_test test') (\<lambda>m. obind m body') (map_outcome f (body x))"
  proof (rule while_option_commute_invariant [where P = ?Q])
    fix m assume "?Q m"
    then show "loop_test test m = loop_test test' (map_outcome f m)" by (cases m) simp_all
  next
    fix m assume m: "?Q m" "loop_test test m"
    then obtain y where y: "m = Returns y" "P y" by (cases m) auto
    show "map_outcome f (obind m body) = obind (map_outcome f m) body'" "?Q (obind m body)"
      using step [OF y(2)] by (simp_all add: y(1))
  qed (use step [OF assms(2)] in simp)
  then show ?thesis
    using step [OF assms(2)]
    by (auto simp: do_while_def split: option.splits)
qed

end
