(* ===== verification/Host.thy ===== *)
theory Host imports Socket_Prelude begin

text \<open>
  The base types and macros of \<open>src/src/Host.h\<close>: the fixed-width integer names, the byte
  order conversions (the standard \<open>htons\<close>, \<open>htonl\<close> on a little-endian host and the
  library's own \<open>htonll\<close>, \<open>ntohll\<close>), and how C integers lie in memory.
  The conversions are instances of one locale, \<open>byte_order\<close>.
\<close>

unbundle bit_operations_syntax

section \<open>Integer types\<close>

type_synonym uint8 = "8 word"
type_synonym uint16 = "16 word"
type_synonym uint32 = "32 word"
type_synonym int32 = "32 word" \<comment> \<open>read with \<^const>\<open>sint\<close>\<close>
type_synonym uint64 = "64 word"
type_synonym int64 = "64 word"
type_synonym SOCKET = int32
type_synonym byte = uint8

text \<open>
  Narrowing to \<open>int32\<close>, as in \<open>int32 n = send(...)\<close> where the call returns a wider
  \<open>ssize_t\<close>, and the test of the sign of an \<open>int32\<close>.
\<close>

abbreviation (input) i32 :: "int \<Rightarrow> int32" where
  "i32 k \<equiv> word_of_int k"

lemma sint_i32: "- (2 ^ 31) \<le> k \<Longrightarrow> k < 2 ^ 31 \<Longrightarrow> sint (i32 k) = k"
  by (simp add: sint_sbintrunc' signed_take_bit_int_eq_self)

lemma sint_count: "k \<le> n \<Longrightarrow> n < 2 ^ 31 \<Longrightarrow> sint (i32 (int k)) = int k"
  by (rule sint_i32) simp_all

lemma sint_inject: "sint a = sint b \<longleftrightarrow> a = b"
  for a b :: "'a::len word"
  by (metis uint_sint word_uint_eq_iff)

lemma count_not_minus_1: "k < 2 ^ 31 \<Longrightarrow> i32 (int k) \<noteq> -1"
  using sint_count [of k k] by (metis of_nat_less_0_iff sint_n1 zero_less_one neg_less_0_iff_less order_refl)

lemma i32_eq_minus_1_iff:
  assumes "- (2 ^ 31) \<le> k" "k < 2 ^ 31"
  shows "i32 k = -1 \<longleftrightarrow> k = -1"
proof
  assume "i32 k = -1"
  then have "sint (i32 k) = sint (-1 :: int32)" by simp
  with assms show "k = -1" by (simp only: sint_i32) simp
qed simp

section \<open>Byte order\<close>

text \<open>\<open>byte_at k x\<close> is byte \<open>k\<close> of \<open>x\<close>, byte 0 the least significant.\<close>

definition byte_at :: "nat \<Rightarrow> 'a::len word \<Rightarrow> byte" where
  "byte_at k x = ucast (drop_bit (8 * k) x)"

definition htons :: "uint16 \<Rightarrow> uint16" where
  "htons x = push_bit 8 (ucast (byte_at 0 x)) OR ucast (byte_at 1 x)"

definition ntohs :: "uint16 \<Rightarrow> uint16" where
  "ntohs x = htons x"

definition htonl :: "uint32 \<Rightarrow> uint32" where
  "htonl x = push_bit 24 (ucast (byte_at 0 x)) OR push_bit 16 (ucast (byte_at 1 x))
     OR push_bit 8 (ucast (byte_at 2 x)) OR ucast (byte_at 3 x)"

definition ntohl :: "uint32 \<Rightarrow> uint32" where
  "ntohl x = htonl x"

text \<open>
  The macros \<open>htonll\<close> and \<open>ntohll\<close> for a little-endian host. The argument of
  \<open>htonl\<close> is a \<open>uint32_t\<close>, so \<open>htonl(x)\<close> takes the low half of \<open>x\<close>.
\<close>

definition htonll :: "uint64 \<Rightarrow> uint64" where
  "htonll x = push_bit 32 (ucast (htonl (ucast x))) + ucast (htonl (ucast (drop_bit 32 x)))"

definition ntohll :: "uint64 \<Rightarrow> uint64" where
  "ntohll x = push_bit 32 (ucast (ntohl (ucast x))) + ucast (ntohl (ucast (drop_bit 32 x)))"

lemma bit_byte_at: "bit (byte_at k x) i \<longleftrightarrow> i < 8 \<and> bit x (8 * k + i)"
  by (auto simp: byte_at_def bit_simps)

lemma bytes_eqI:
  fixes x y :: "'a::len word"
  assumes "LENGTH('a) = 8 * m" and "\<And>k. k < m \<Longrightarrow> byte_at k x = byte_at k y"
  shows "x = y"
proof (rule bit_word_eqI)
  fix n assume n: "n < LENGTH('a)"
  then have "byte_at (n div 8) x = byte_at (n div 8) y" using assms by simp
  then have "bit (byte_at (n div 8) x) (n mod 8) = bit (byte_at (n div 8) y) (n mod 8)" by simp
  then show "bit x n = bit y n" by (simp add: bit_byte_at)
qed

text \<open>
  What the host/network conversions share: they reverse the bytes of a word of \<open>m\<close>
  bytes. Everything the library needs of them follows from that.
\<close>

locale byte_order =
  fixes hton ntoh :: "'a::len word \<Rightarrow> 'a word" and m :: nat
  assumes width: "LENGTH('a) = 8 * m"
    and hton_byte: "k < m \<Longrightarrow> byte_at k (hton x) = byte_at (m - 1 - k) x"
    and ntoh_is_hton: "ntoh x = hton x"
begin

lemma hton_hton: "hton (hton x) = x"
  by (rule bytes_eqI [OF width]) (simp add: hton_byte)

lemma ntoh_hton [simp]: "ntoh (hton x) = x"
  by (simp add: ntoh_is_hton hton_hton)

lemma hton_ntoh [simp]: "hton (ntoh x) = x"
  by (simp add: ntoh_is_hton hton_hton)

lemma hton_eq_iff: "hton x = y \<longleftrightarrow> x = ntoh y"
  by auto

lemma hton_inject: "hton x = hton y \<longleftrightarrow> x = y"
  by (metis ntoh_hton)

lemma ntoh_byte: "k < m \<Longrightarrow> byte_at k (ntoh x) = byte_at (m - 1 - k) x"
  by (simp add: ntoh_is_hton hton_byte)

end

lemma htons_byte: "k < 2 \<Longrightarrow> byte_at k (htons x) = byte_at (1 - k) x"
  by (rule bit_word_eqI) (auto simp: bit_byte_at htons_def bit_simps less_2_cases_iff)

lemma htonl_byte: "k < 4 \<Longrightarrow> byte_at k (htonl x) = byte_at (3 - k) x"
proof (rule bit_word_eqI)
  fix n assume "k < 4" and "n < LENGTH(8)"
  then have "k = 0 \<or> k = 1 \<or> k = 2 \<or> k = 3" and "n < 8" by auto
  then show "bit (byte_at k (htonl x)) n = bit (byte_at (3 - k) x) n"
    by (elim disjE) (simp_all add: bit_byte_at htonl_def bit_simps)
qed

lemma bit32_beyond: "32 \<le> n \<Longrightarrow> \<not> bit (x :: uint32) n"
  using bit_imp_le_length [of x n] by auto

lemma htonll_or:
  "htonll x = push_bit 32 (ucast (htonl (ucast x))) OR ucast (htonl (ucast (drop_bit 32 x)))"
  unfolding htonll_def
  by (rule disjunctive_add_eq_or) (auto simp: bit_eq_iff bit_simps bit32_beyond)

lemma htonll_byte: "k < 8 \<Longrightarrow> byte_at k (htonll x) = byte_at (7 - k) x"
proof (cases "k < 4")
  case True
  have "byte_at k (htonll x) = byte_at k (htonl (ucast (drop_bit 32 x)))"
    using True by (intro bit_word_eqI) (auto simp: bit_byte_at htonll_or bit_simps)
  also have "\<dots> = byte_at (3 - k) (ucast (drop_bit 32 x) :: uint32)"
    using True by (rule htonl_byte)
  also have "\<dots> = byte_at (7 - k) x"
    using True by (intro bit_word_eqI) (auto simp: bit_byte_at bit_simps algebra_simps)
  finally show ?thesis .
next
  case False
  assume "k < 8"
  with False obtain j where k: "k = 4 + j" "j < 4" by (metis le_Suc_ex less_diff_conv2
      linorder_not_less nat_add_left_cancel_less numeral_Bit0)
  have "byte_at k (htonll x) = byte_at j (htonl (ucast x))"
    using k by (intro bit_word_eqI) (simp add: bit_byte_at htonll_or bit_simps bit32_beyond)
  also have "\<dots> = byte_at (3 - j) (ucast x :: uint32)"
    using k(2) by (rule htonl_byte)
  also have "\<dots> = byte_at (7 - k) x"
    using k by (intro bit_word_eqI) (auto simp: bit_byte_at bit_simps)
  finally show ?thesis .
qed

interpretation net16: byte_order htons ntohs 2
  by unfold_locales (simp_all add: htons_byte ntohs_def)

interpretation net32: byte_order htonl ntohl 4
  by unfold_locales (simp_all add: htonl_byte ntohl_def)

interpretation net64: byte_order htonll ntohll 8
proof
  show "LENGTH(64) = 8 * 8" by simp
  show "byte_at k (htonll x) = byte_at (8 - 1 - k) x" if "k < 8" for k x
    using htonll_byte [OF that] by simp
  show "ntohll x = htonll x" for x by (simp add: ntohll_def htonll_def ntohl_def)
qed

section \<open>Integers in memory\<close>

text \<open>
  The four bytes of a 32-bit integer in memory, lowest address first, on a little-endian
  host, and what a call that stores \<open>bs\<close> at the address of a 32-bit variable leaves in it.
\<close>

definition to_bytes32 :: "uint32 \<Rightarrow> byte list" where
  "to_bytes32 w = [byte_at 0 w, byte_at 1 w, byte_at 2 w, byte_at 3 w]"

definition of_bytes32 :: "byte list \<Rightarrow> uint32" where
  "of_bytes32 bs = foldr (\<lambda>b w. push_bit 8 w OR ucast b) bs 0"

definition store32 :: "byte list \<Rightarrow> uint32 \<Rightarrow> uint32" where
  "store32 bs w = of_bytes32 (bs @ drop (length bs) (to_bytes32 w))"

lemma of_bytes32_to_bytes32 [simp]: "of_bytes32 (to_bytes32 w) = w"
proof (rule bit_word_eqI)
  fix n assume "n < LENGTH(32)"
  then have "n < 8 \<or> (8 \<le> n \<and> n < 16) \<or> (16 \<le> n \<and> n < 24) \<or> (24 \<le> n \<and> n < 32)" by auto
  then show "bit (of_bytes32 (to_bytes32 w)) n = bit w n"
    by (elim disjE) (auto simp: of_bytes32_def to_bytes32_def bit_simps bit_byte_at)
qed

lemma store32_Nil [simp]: "store32 [] w = w"
  by (simp add: store32_def)

lemma store32_full [simp]: "store32 (to_bytes32 v) w = v"
proof -
  have "drop (length (to_bytes32 v)) (to_bytes32 w) = []" by (simp add: to_bytes32_def)
  then show ?thesis by (simp add: store32_def)
qed

lemma length_to_bytes32 [simp]: "length (to_bytes32 w) = 4"
  by (simp add: to_bytes32_def)

text \<open>A store of \<open>bs\<close> at offset \<open>off\<close> of an array: every byte must lie inside it.\<close>

definition store_at :: "byte list \<Rightarrow> int \<Rightarrow> byte list \<Rightarrow> byte list outcome" where
  "store_at buf off bs =
     (if off < 0 \<or> int (length buf) < off + int (length bs) then Faults PointerOutOfBounds
      else Returns (take (nat off) buf @ bs @ drop (nat off + length bs) buf))"

lemma store_at_length: "store_at buf off bs = Returns buf' \<Longrightarrow> length buf' = length buf"
  by (auto simp: store_at_def split: if_splits)

lemma store_at_0:
  "length bs \<le> length buf \<Longrightarrow> store_at buf 0 bs = Returns (bs @ drop (length bs) buf)"
  by (simp add: store_at_def)

lemma store_at_negative: "off < 0 \<Longrightarrow> store_at buf off bs = Faults PointerOutOfBounds"
  by (simp add: store_at_def)

lemma store_at_not_Diverges [simp]: "store_at buf off bs \<noteq> Diverges"
  by (simp add: store_at_def)

section \<open>Properties\<close>

text \<open>
  C39. The 64-bit conversion macros reverse the eight bytes of their argument, and each
  undoes the other.
\<close>

theorem htonll_reverses_bytes:
  "map (\<lambda>k. byte_at k (htonll x)) [0..<8] = rev (map (\<lambda>k. byte_at k x) [0..<8])
   \<and> ntohll (htonll x) = x \<and> htonll (ntohll x) = x"
proof (intro conjI)
  have "map (\<lambda>k. byte_at k (htonll x)) [0..<8] = map (\<lambda>k. byte_at (7 - k) x) [0..<8]"
    using net64.hton_byte by auto
  also have "\<dots> = rev (map (\<lambda>k. byte_at k x) [0..<8])"
    by (simp add: upt_rec eval_nat_numeral)
  finally show "map (\<lambda>k. byte_at k (htonll x)) [0..<8] = rev (map (\<lambda>k. byte_at k x) [0..<8])" .
qed simp_all

end
