(* ===== verification/Posix_Api.thy ===== *)
theory Posix_Api imports Host begin

text \<open>
  The operating system the library runs on. It is not part of the repository, so it is a
  parameter, \<open>'w os\<close>: a kernel that answers system calls over an opaque state
  \<open>'w\<close>, the clock, and the C library's address functions. What a process can see
  beside the answers is \<open>errno\<close> and \<open>h_errno\<close>; the calls made so far are
  recorded in \<open>trace\<close>, so that their order and their arguments can be stated.
  The numeric constants are those of Linux on x86.
\<close>

section \<open>Constants of the socket interface\<close>

abbreviation (input) AF_INET :: int32 where "AF_INET \<equiv> 2"
abbreviation (input) AF_INET6 :: int32 where "AF_INET6 \<equiv> 10"
abbreviation (input) AF_PACKET :: int32 where "AF_PACKET \<equiv> 17"

abbreviation (input) SOCK_STREAM :: int32 where "SOCK_STREAM \<equiv> 1"
abbreviation (input) SOCK_DGRAM :: int32 where "SOCK_DGRAM \<equiv> 2"
abbreviation (input) SOCK_RAW :: int32 where "SOCK_RAW \<equiv> 3"
abbreviation (input) SOCK_RDM :: int32 where "SOCK_RDM \<equiv> 4"
abbreviation (input) SOCK_SEQPACKET :: int32 where "SOCK_SEQPACKET \<equiv> 5"

abbreviation (input) IPPROTO_IP :: int32 where "IPPROTO_IP \<equiv> 0"
abbreviation (input) IPPROTO_TCP :: int32 where "IPPROTO_TCP \<equiv> 6"
abbreviation (input) SOL_SOCKET :: int32 where "SOL_SOCKET \<equiv> 1"

abbreviation (input) IP_TOS :: int32 where "IP_TOS \<equiv> 1"
abbreviation (input) IP_MULTICAST_IF :: int32 where "IP_MULTICAST_IF \<equiv> 32"
abbreviation (input) IP_MULTICAST_TTL :: int32 where "IP_MULTICAST_TTL \<equiv> 33"
abbreviation (input) IP_ADD_MEMBERSHIP :: int32 where "IP_ADD_MEMBERSHIP \<equiv> 35"
abbreviation (input) TCP_NODELAY :: int32 where "TCP_NODELAY \<equiv> 1"
abbreviation (input) SO_REUSEADDR :: int32 where "SO_REUSEADDR \<equiv> 2"
abbreviation (input) SO_ERROR :: int32 where "SO_ERROR \<equiv> 4"
abbreviation (input) SO_SNDBUF :: int32 where "SO_SNDBUF \<equiv> 7"
abbreviation (input) SO_RCVBUF :: int32 where "SO_RCVBUF \<equiv> 8"
abbreviation (input) SO_LINGER :: int32 where "SO_LINGER \<equiv> 13"
abbreviation (input) SO_RCVTIMEO :: int32 where "SO_RCVTIMEO \<equiv> 20"
abbreviation (input) SO_SNDTIMEO :: int32 where "SO_SNDTIMEO \<equiv> 21"
abbreviation (input) IPTOS_LOWDELAY :: int32 where "IPTOS_LOWDELAY \<equiv> 16"

abbreviation (input) F_GETFL :: int32 where "F_GETFL \<equiv> 3"
abbreviation (input) F_SETFL :: int32 where "F_SETFL \<equiv> 4"
abbreviation (input) O_NONBLOCK :: int32 where "O_NONBLOCK \<equiv> 2048"
abbreviation (input) SEEK_SET :: int32 where "SEEK_SET \<equiv> 0"

abbreviation (input) INADDR_ANY :: uint32 where "INADDR_ANY \<equiv> 0"
abbreviation (input) INADDR_NONE :: uint32 where "INADDR_NONE \<equiv> 0xFFFFFFFF"
abbreviation (input) HOST_NOT_FOUND :: int where "HOST_NOT_FOUND \<equiv> 1"
abbreviation (input) FD_SETSIZE :: int where "FD_SETSIZE \<equiv> 1024"

section \<open>Structures\<close>

record timeval =
  tv_sec :: int64
  tv_usec :: int64

record sockaddr_in =
  sin_family :: uint16
  sin_port :: uint16 \<comment> \<open>network byte order\<close>
  sin_addr :: uint32 \<comment> \<open>\<open>sin_addr.s_addr\<close>, network byte order\<close>

record linger =
  l_onoff :: int32
  l_linger :: int32

record ip_mreq =
  imr_multiaddr :: uint32
  imr_interface :: uint32

record hostent =
  h_addr_list :: "byte list list"
  h_length :: nat

definition timeval_zero :: timeval where
  "timeval_zero = \<lparr>tv_sec = 0, tv_usec = 0\<rparr>"

definition sockaddr_zero :: sockaddr_in where
  "sockaddr_zero = \<lparr>sin_family = 0, sin_port = 0, sin_addr = 0\<rparr>"

type_synonym fd_set = "int set"

text \<open>
  A socket option's value with its length, as the pair of arguments of
  \<open>setsockopt\<close>; and the last argument of \<open>getsockopt\<close>, which is a pointer to a
  length variable, or an integer cast to a pointer.
\<close>

datatype optval =
    Opt_int int32
  | Opt_byte uint8
  | Opt_timeval timeval
  | Opt_linger linger
  | Opt_in_addr uint32
  | Opt_ip_mreq ip_mreq

datatype optlen = LenVar nat | WildPointer nat

section \<open>System calls\<close>

datatype syscall =
    Sys_socket int32 int32 int32
  | Sys_close SOCKET
  | Sys_shutdown SOCKET int32
  | Sys_setsockopt SOCKET int32 int32 optval
  | Sys_getsockopt SOCKET int32 int32 optlen
  | Sys_fcntl SOCKET int32 int32
  | Sys_send SOCKET "byte list" int32
  | Sys_sendto SOCKET "byte list" int32 sockaddr_in
  | Sys_writev SOCKET "byte list list" int32
  | Sys_recv SOCKET int32 uint32
  | Sys_recvfrom SOCKET int32 uint32
  | Sys_select int32 fd_set fd_set fd_set "timeval option"
  | Sys_bind SOCKET sockaddr_in
  | Sys_listen SOCKET int32
  | Sys_accept SOCKET
  | Sys_connect SOCKET sockaddr_in
  | Sys_getpeername SOCKET
  | Sys_getsockname SOCKET
  | Sys_lseek int32 int64 int32
  | Sys_read int32 int32
  | Sys_gethostbyname string
  | Sys_ioctlsocket SOCKET int32 uint32 \<comment> \<open>Windows only\<close>
  | Sys_WSAStartup uint16 \<comment> \<open>Windows only\<close>

text \<open>
  The answer to a call: the returned integer; the value it stored in \<open>errno\<close>, if it
  stored one; the bytes it stored through the caller's buffer pointer; the socket address
  it stored; the descriptor sets \<open>select\<close> stored (none when it left them alone); and
  for \<open>gethostbyname\<close> the entry (none for a null pointer) and the value stored in
  \<open>h_errno\<close>.
\<close>

record reply =
  ret :: int
  err :: "int option"
  data :: "byte list"
  addr :: "sockaddr_in option"
  fdsets :: "(fd_set \<times> fd_set \<times> fd_set) option"
  host :: "hostent option"
  herr :: "int option"

definition ok :: "int \<Rightarrow> reply" where
  "ok n = \<lparr>ret = n, err = None, data = [], addr = None, fdsets = None, host = None, herr = None\<rparr>"

definition fail :: "int \<Rightarrow> reply" where
  "fail en = (ok (-1))\<lparr>err := Some en\<rparr>"

text \<open>
  \<open>uninit i\<close> is the indeterminate content of byte \<open>i\<close> of memory that is
  allocated and not initialised.
\<close>

record 'w os =
  kernel :: "syscall \<Rightarrow> 'w \<Rightarrow> reply \<times> 'w"
  clock :: "'w \<Rightarrow> timeval \<times> 'w"
  inet_addr :: "string \<Rightarrow> uint32"
  inet_ntoa :: "uint32 \<Rightarrow> string"
  uninit :: "nat \<Rightarrow> byte"

record 'w env =
  errno :: int
  h_errno :: int
  world :: 'w
  trace :: "syscall list"

definition set_errno :: "reply \<Rightarrow> int \<Rightarrow> int" where
  "set_errno r n = (case err r of None \<Rightarrow> n | Some m \<Rightarrow> m)"

definition invoke :: "'w os \<Rightarrow> syscall \<Rightarrow> 'w env \<Rightarrow> reply \<times> 'w env" where
  "invoke os c e =
     (let (r, w) = kernel os c (world e)
      in (r, e\<lparr>errno := set_errno r (errno e),
              h_errno := (case herr r of None \<Rightarrow> h_errno e | Some m \<Rightarrow> m),
              world := w,
              trace := trace e @ [c]\<rparr>))"

definition gettimeofday :: "'w os \<Rightarrow> 'w env \<Rightarrow> timeval \<times> 'w env" where
  "gettimeofday os e = (let (t, w) = clock os (world e) in (t, e\<lparr>world := w\<rparr>))"

lemma set_errno_None: "err r = None \<Longrightarrow> set_errno r n = n"
  by (simp add: set_errno_def)

lemma set_errno_ok [simp]: "set_errno (ok n) m = m"
  by (simp add: set_errno_def ok_def)

lemma set_errno_fail [simp]: "set_errno (fail en) m = en"
  by (simp add: set_errno_def fail_def)

lemma ok_fail_sel [simp]:
  "ret (ok n) = n" "err (ok n) = None" "data (ok n) = []" "addr (ok n) = None"
  "fdsets (ok n) = None" "host (ok n) = None" "herr (ok n) = None"
  "ret (fail en) = -1" "err (fail en) = Some en" "data (fail en) = []" "addr (fail en) = None"
  "fdsets (fail en) = None" "host (fail en) = None" "herr (fail en) = None"
  by (simp_all add: ok_def fail_def)

lemma fst_invoke: "fst (invoke os c e) = fst (kernel os c (world e))"
  by (simp add: invoke_def split_beta Let_def)

lemma snd_invoke:
  "snd (invoke os c e) =
     e\<lparr>errno := set_errno (fst (kernel os c (world e))) (errno e),
       h_errno := (case herr (fst (kernel os c (world e))) of None \<Rightarrow> h_errno e | Some m \<Rightarrow> m),
       world := snd (kernel os c (world e)),
       trace := trace e @ [c]\<rparr>"
  by (simp add: invoke_def split_beta Let_def)

lemma trace_invoke [simp]: "trace (snd (invoke os c e)) = trace e @ [c]"
  by (simp add: snd_invoke)

text \<open>A call whose answer is known.\<close>

lemma invoke_step:
  assumes "kernel os c (world e) = (r, w)"
  obtains e1 where "invoke os c e = (r, e1)" "world e1 = w" "errno e1 = set_errno r (errno e)"
    "trace e1 = trace e @ [c]"
  using assms by (simp add: invoke_def)

lemma trace_gettimeofday [simp]: "trace (snd (gettimeofday os e)) = trace e"
  by (simp add: gettimeofday_def split_beta Let_def)

lemma errno_gettimeofday [simp]: "errno (snd (gettimeofday os e)) = errno e"
  by (simp add: gettimeofday_def split_beta Let_def)

text \<open>
  Documented behaviour of the kernel that some properties assume.
  \<open>errno_only_on_failure\<close>: a call that succeeds leaves \<open>errno\<close> as it was (this is
  how Linux behaves; POSIX lets a successful call change it).
  \<open>failure_sets_errno\<close>: a call that returns -1 stores a nonzero \<open>errno\<close>.
  \<open>int_results\<close>: results fit an \<open>int\<close> (a transfer moves at most \<open>0x7ffff000\<close> bytes), but for the
  position that \<open>lseek\<close> returns, an \<open>off_t\<close>.
  \<open>accept_reports\<close>: \<open>accept\<close>, whose result is an \<open>int\<close>, stores a nonzero \<open>errno\<close> when it fails, and
  leaves it alone when it succeeds (again as Linux does, where POSIX lets it change).
\<close>

definition errno_only_on_failure :: "'w os \<Rightarrow> bool" where
  "errno_only_on_failure os \<longleftrightarrow>
     (\<forall>c w. ret (fst (kernel os c w)) \<noteq> -1 \<longrightarrow> err (fst (kernel os c w)) = None)"

fun wide_result :: "syscall \<Rightarrow> bool" where
  "wide_result (Sys_lseek fd n k) = True"
| "wide_result c = False"

definition int_results :: "'w os \<Rightarrow> bool" where
  "int_results os \<longleftrightarrow>
     (\<forall>c w. \<not> wide_result c \<longrightarrow> - (2 ^ 31) \<le> ret (fst (kernel os c w)) \<and> ret (fst (kernel os c w)) < 2 ^ 31)"

definition failure_sets_errno :: "'w os \<Rightarrow> bool" where
  "failure_sets_errno os \<longleftrightarrow>
     (\<forall>c w. ret (fst (kernel os c w)) = -1 \<longrightarrow>
        (\<exists>n. err (fst (kernel os c w)) = Some n \<and> n \<noteq> 0))"

text \<open>An answer whose \<open>errno\<close> agrees with its result.\<close>

definition reports_errors :: "reply \<Rightarrow> bool" where
  "reports_errors r \<longleftrightarrow> - (2 ^ 31) \<le> ret r \<and> ret r < 2 ^ 31
     \<and> (case err r of None \<Rightarrow> ret r \<noteq> -1 | Some n \<Rightarrow> ret r = -1 \<and> n \<noteq> 0)"

definition accept_reports :: "'w os \<Rightarrow> bool" where
  "accept_reports os \<longleftrightarrow> (\<forall>fd w. reports_errors (fst (kernel os (Sys_accept fd) w)))"

lemma reports_errors_minus_1: "reports_errors r \<Longrightarrow> (i32 (ret r) = -1) = (ret r = -1)"
  by (rule i32_eq_minus_1_iff) (simp_all add: reports_errors_def)

lemma reports_errors_errno: "reports_errors r \<Longrightarrow> (set_errno r 0 = 0) = (ret r \<noteq> -1)"
  by (auto simp: reports_errors_def set_errno_def split: option.splits)

lemma accept_reportsD: "accept_reports os \<Longrightarrow> reports_errors (fst (kernel os (Sys_accept fd) w))"
  by (simp add: accept_reports_def)

lemma accept_reportsI:
  "errno_only_on_failure os \<Longrightarrow> failure_sets_errno os \<Longrightarrow> int_results os \<Longrightarrow> accept_reports os"
proof (unfold accept_reports_def, intro allI)
  fix fd w
  assume "errno_only_on_failure os" "failure_sets_errno os" "int_results os"
  then have "ret (fst (kernel os (Sys_accept fd) w)) \<noteq> -1 \<Longrightarrow> err (fst (kernel os (Sys_accept fd) w)) = None"
    "ret (fst (kernel os (Sys_accept fd) w)) = -1 \<Longrightarrow> \<exists>n. err (fst (kernel os (Sys_accept fd) w)) = Some n \<and> n \<noteq> 0"
    "- (2 ^ 31) \<le> ret (fst (kernel os (Sys_accept fd) w)) \<and> ret (fst (kernel os (Sys_accept fd) w)) < 2 ^ 31"
    unfolding errno_only_on_failure_def failure_sets_errno_def int_results_def by (blast, blast, simp)
  then show "reports_errors (fst (kernel os (Sys_accept fd) w))"
    by (cases "ret (fst (kernel os (Sys_accept fd) w)) = -1") (auto simp: reports_errors_def)
qed

lemma int_results_minus_1:
  "int_results os \<Longrightarrow> \<not> wide_result c \<Longrightarrow> (i32 (ret (fst (kernel os c w))) = -1) = (ret (fst (kernel os c w)) = -1)"
  by (rule i32_eq_minus_1_iff) (simp_all add: int_results_def)

lemma errno_kept:
  "errno_only_on_failure os \<Longrightarrow> ret (fst (kernel os c w)) \<noteq> -1 \<Longrightarrow>
     set_errno (fst (kernel os c w)) n = n"
  by (simp add: errno_only_on_failure_def set_errno_def)

lemma errno_stored:
  "failure_sets_errno os \<Longrightarrow> ret (fst (kernel os c w)) = -1 \<Longrightarrow>
     set_errno (fst (kernel os c w)) n \<noteq> 0"
  by (force simp: failure_sets_errno_def set_errno_def)

section \<open>Calls that open and close descriptors\<close>

text \<open>
  The calls that open and close descriptors, and environments between which a program
  made none.
\<close>

fun life_call :: "syscall \<Rightarrow> bool" where
  "life_call (Sys_socket d t p) = True"
| "life_call (Sys_close fd) = True"
| "life_call _ = False"

definition calm :: "'w env \<Rightarrow> 'w env \<Rightarrow> bool" where
  "calm e e' \<longleftrightarrow> (\<exists>cs. trace e' = trace e @ cs \<and> \<not> list_ex life_call cs)"

lemma calm_refl [simp]: "calm e e"
  by (simp add: calm_def)

lemma calm_trans: "calm e e1 \<Longrightarrow> calm e1 e2 \<Longrightarrow> calm e e2"
  by (force simp: calm_def)

lemma calm_call: "calm e e1 \<Longrightarrow> \<not> life_call c \<Longrightarrow> calm e (snd (invoke os c e1))"
  by (force simp: calm_def)

lemma calm_update [simp]:
  "calm e (e1\<lparr>errno := n\<rparr>) = calm e e1" "calm e (e1\<lparr>world := w\<rparr>) = calm e e1"
  "calm (e1\<lparr>world := w\<rparr>) e = calm e1 e"
  by (simp_all add: calm_def)

end
