(* ===== verification/Socket_Errors.thy ===== *)
theory Socket_Errors imports Posix_Api begin

text \<open>
  The error codes of the library: the enumeration \<open>CSocketError\<close>, the translation
  of the operating system's error numbers into it (\<open>TranslateSocketError\<close> of
  \<open>SimpleSocket.cpp\<close>, in its Linux and its Windows variant) and the texts of
  \<open>DescribeError\<close>. A locale, \<open>error_table\<close>, states what the callers rely on.
\<close>

section \<open>The enumeration\<close>

datatype CSocketError =
    SocketError
  | SocketSuccess
  | SocketInvalidSocket
  | SocketInvalidAddress
  | SocketInvalidPort
  | SocketConnectionRefused
  | SocketTimedout
  | SocketEwouldblock
  | SocketNotconnected
  | SocketEinprogress
  | SocketInterrupted
  | SocketConnectionAborted
  | SocketProtocolError
  | SocketFirewallError
  | SocketInvalidSocketBuffer
  | SocketConnectionReset
  | SocketAddressInUse
  | SocketInvalidPointer
  | SocketEunknown

text \<open>The values of the C++ enumerators.\<close>

fun error_code :: "CSocketError \<Rightarrow> int32" where
  "error_code SocketError = -1"
| "error_code SocketSuccess = 0"
| "error_code SocketInvalidSocket = 1"
| "error_code SocketInvalidAddress = 2"
| "error_code SocketInvalidPort = 3"
| "error_code SocketConnectionRefused = 4"
| "error_code SocketTimedout = 5"
| "error_code SocketEwouldblock = 6"
| "error_code SocketNotconnected = 7"
| "error_code SocketEinprogress = 8"
| "error_code SocketInterrupted = 9"
| "error_code SocketConnectionAborted = 10"
| "error_code SocketProtocolError = 11"
| "error_code SocketFirewallError = 12"
| "error_code SocketInvalidSocketBuffer = 13"
| "error_code SocketConnectionReset = 14"
| "error_code SocketAddressInUse = 15"
| "error_code SocketInvalidPointer = 16"
| "error_code SocketEunknown = 17"

instantiation CSocketError :: enum
begin

definition enum_CSocketError :: "CSocketError list" where
  "enum_CSocketError = [SocketError, SocketSuccess, SocketInvalidSocket, SocketInvalidAddress, SocketInvalidPort, SocketConnectionRefused, SocketTimedout, SocketEwouldblock, SocketNotconnected, SocketEinprogress, SocketInterrupted, SocketConnectionAborted, SocketProtocolError, SocketFirewallError, SocketInvalidSocketBuffer, SocketConnectionReset, SocketAddressInUse, SocketInvalidPointer, SocketEunknown]"

definition enum_all_CSocketError :: "(CSocketError \<Rightarrow> bool) \<Rightarrow> bool" where
  "enum_all_CSocketError P \<longleftrightarrow> list_all P (enum_class.enum :: CSocketError list)"

definition enum_ex_CSocketError :: "(CSocketError \<Rightarrow> bool) \<Rightarrow> bool" where
  "enum_ex_CSocketError P \<longleftrightarrow> list_ex P (enum_class.enum :: CSocketError list)"

instance
proof
  show U: "(UNIV :: CSocketError set) = set enum_class.enum"
    unfolding enum_CSocketError_def by (auto intro: CSocketError.exhaust)
  show "distinct (enum_class.enum :: CSocketError list)"
    by (simp add: enum_CSocketError_def)
  show "enum_class.enum_all P \<longleftrightarrow> Ball UNIV P" for P :: "CSocketError \<Rightarrow> bool"
    by (simp only: enum_all_CSocketError_def U list_all_iff)
  show "enum_class.enum_ex P \<longleftrightarrow> Bex UNIV P" for P :: "CSocketError \<Rightarrow> bool"
    by (simp only: enum_ex_CSocketError_def U list_ex_iff)
qed

end

text \<open>The enumerators are ordered by their values.\<close>

lemma error_code_inject [simp]: "error_code a = error_code b \<longleftrightarrow> a = b"
  by (cases a; cases b) simp_all

lemma sint_error_code_inject: "sint (error_code a) = sint (error_code b) \<Longrightarrow> a = b"
  using signed_word_eqI [of "error_code a" "error_code b"] by simp

instantiation CSocketError :: linorder
begin

definition less_eq_CSocketError :: "CSocketError \<Rightarrow> CSocketError \<Rightarrow> bool" where
  "less_eq_CSocketError a b \<longleftrightarrow> sint (error_code a) \<le> sint (error_code b)"

definition less_CSocketError :: "CSocketError \<Rightarrow> CSocketError \<Rightarrow> bool" where
  "less_CSocketError a b \<longleftrightarrow> sint (error_code a) < sint (error_code b)"

instance
  by standard (auto simp: less_eq_CSocketError_def less_CSocketError_def
      dest: sint_error_code_inject)

end

section \<open>Error numbers of the operating systems\<close>

text \<open>Linux.\<close>

abbreviation (input) EXIT_SUCCESS :: int where "EXIT_SUCCESS \<equiv> 0"
abbreviation (input) EPERM :: int where "EPERM \<equiv> 1"
abbreviation (input) EINTR :: int where "EINTR \<equiv> 4"
abbreviation (input) EBADF :: int where "EBADF \<equiv> 9"
abbreviation (input) EWOULDBLOCK :: int where "EWOULDBLOCK \<equiv> 11"
abbreviation (input) ENOMEM :: int where "ENOMEM \<equiv> 12"
abbreviation (input) EACCES :: int where "EACCES \<equiv> 13"
abbreviation (input) EFAULT :: int where "EFAULT \<equiv> 14"
abbreviation (input) EINVAL :: int where "EINVAL \<equiv> 22"
abbreviation (input) ENFILE :: int where "ENFILE \<equiv> 23"
abbreviation (input) EMFILE :: int where "EMFILE \<equiv> 24"
abbreviation (input) EPIPE :: int where "EPIPE \<equiv> 32"
abbreviation (input) EPROTO :: int where "EPROTO \<equiv> 71"
abbreviation (input) ENOTSOCK :: int where "ENOTSOCK \<equiv> 88"
abbreviation (input) ENOPROTOOPT :: int where "ENOPROTOOPT \<equiv> 92"
abbreviation (input) EPROTONOSUPPORT :: int where "EPROTONOSUPPORT \<equiv> 93"
abbreviation (input) EOPNOTSUPP :: int where "EOPNOTSUPP \<equiv> 95"
abbreviation (input) EAFNOSUPPORT :: int where "EAFNOSUPPORT \<equiv> 97"
abbreviation (input) EADDRINUSE :: int where "EADDRINUSE \<equiv> 98"
abbreviation (input) ECONNABORTED :: int where "ECONNABORTED \<equiv> 103"
abbreviation (input) ECONNRESET :: int where "ECONNRESET \<equiv> 104"
abbreviation (input) ENOBUFS :: int where "ENOBUFS \<equiv> 105"
abbreviation (input) ENOTCONN :: int where "ENOTCONN \<equiv> 107"
abbreviation (input) ETIMEDOUT :: int where "ETIMEDOUT \<equiv> 110"
abbreviation (input) ECONNREFUSED :: int where "ECONNREFUSED \<equiv> 111"
abbreviation (input) EINPROGRESS :: int where "EINPROGRESS \<equiv> 115"

text \<open>Windows Sockets.\<close>

abbreviation (input) WSAEINTR :: int where "WSAEINTR \<equiv> 10004"
abbreviation (input) WSAEBADF :: int where "WSAEBADF \<equiv> 10009"
abbreviation (input) WSAEACCES :: int where "WSAEACCES \<equiv> 10013"
abbreviation (input) WSAEFAULT :: int where "WSAEFAULT \<equiv> 10014"
abbreviation (input) WSAEINVAL :: int where "WSAEINVAL \<equiv> 10022"
abbreviation (input) WSAEMFILE :: int where "WSAEMFILE \<equiv> 10024"
abbreviation (input) WSAEWOULDBLOCK :: int where "WSAEWOULDBLOCK \<equiv> 10035"
abbreviation (input) WSAEINPROGRESS :: int where "WSAEINPROGRESS \<equiv> 10036"
abbreviation (input) WSAENOTSOCK :: int where "WSAENOTSOCK \<equiv> 10038"
abbreviation (input) WSAEPROTONOSUPPORT :: int where "WSAEPROTONOSUPPORT \<equiv> 10043"
abbreviation (input) WSAEAFNOSUPPORT :: int where "WSAEAFNOSUPPORT \<equiv> 10047"
abbreviation (input) WSAEADDRINUSE :: int where "WSAEADDRINUSE \<equiv> 10048"
abbreviation (input) WSAECONNABORTED :: int where "WSAECONNABORTED \<equiv> 10053"
abbreviation (input) WSAECONNRESET :: int where "WSAECONNRESET \<equiv> 10054"
abbreviation (input) WSAENOBUFS :: int where "WSAENOBUFS \<equiv> 10055"
abbreviation (input) WSAENOTCONN :: int where "WSAENOTCONN \<equiv> 10057"
abbreviation (input) WSAETIMEDOUT :: int where "WSAETIMEDOUT \<equiv> 10060"
abbreviation (input) WSAECONNREFUSED :: int where "WSAECONNREFUSED \<equiv> 10061"
abbreviation (input) WSANO_DATA :: int where "WSANO_DATA \<equiv> 11004"

section \<open>Translation\<close>

text \<open>The \<open>switch (errno)\<close> of the Linux build, then the \<open>switch (nError)\<close> of the Windows build.\<close>

definition translate_errno :: "int \<Rightarrow> CSocketError" where
  "translate_errno n =
     (if n = EXIT_SUCCESS then SocketSuccess
      else if n = ENOTCONN then SocketNotconnected
      else if n \<in> {ENOTSOCK, EBADF, EACCES, EAFNOSUPPORT, EMFILE, ENFILE, ENOBUFS, ENOMEM, EPROTONOSUPPORT, EPIPE, EOPNOTSUPP}
        then SocketInvalidSocket
      else if n = ECONNREFUSED then SocketConnectionRefused
      else if n = ETIMEDOUT then SocketTimedout
      else if n = EINPROGRESS then SocketEinprogress
      else if n = EWOULDBLOCK then SocketEwouldblock
      else if n = EINTR then SocketInterrupted
      else if n = ECONNABORTED then SocketConnectionAborted
      else if n \<in> {EINVAL, EPROTO}
        then SocketProtocolError
      else if n = EPERM then SocketFirewallError
      else if n = EFAULT then SocketInvalidSocketBuffer
      else if n \<in> {ECONNRESET, ENOPROTOOPT}
        then SocketConnectionReset
      else if n = EADDRINUSE then SocketAddressInUse
      else SocketEunknown)"

definition translate_wsa :: "int \<Rightarrow> CSocketError" where
  "translate_wsa n =
     (if n = EXIT_SUCCESS then SocketSuccess
      else if n \<in> {WSAEBADF, WSAENOTCONN}
        then SocketNotconnected
      else if n = WSAEINTR then SocketInterrupted
      else if n \<in> {WSAEACCES, WSAEAFNOSUPPORT, WSAEINVAL, WSAEMFILE, WSAENOBUFS, WSAEPROTONOSUPPORT}
        then SocketInvalidSocket
      else if n = WSAECONNREFUSED then SocketConnectionRefused
      else if n = WSAETIMEDOUT then SocketTimedout
      else if n = WSAEINPROGRESS then SocketEinprogress
      else if n = WSAECONNABORTED then SocketConnectionAborted
      else if n = WSAEWOULDBLOCK then SocketEwouldblock
      else if n = WSAENOTSOCK then SocketInvalidSocket
      else if n = WSAECONNRESET then SocketConnectionReset
      else if n = WSANO_DATA then SocketInvalidAddress
      else if n = WSAEADDRINUSE then SocketAddressInUse
      else if n = WSAEFAULT then SocketInvalidPointer
      else SocketEunknown)"

section \<open>Descriptions\<close>

text \<open>The argument is the value of the enumeration, which a caller can cast from any integer.\<close>

definition DescribeError :: "int32 \<Rightarrow> string" where
  "DescribeError e =
     (if e = error_code SocketError
        then ''Generic socket error translates to error below.''
      else if e = error_code SocketSuccess
        then ''No socket error.''
      else if e = error_code SocketInvalidSocket
        then ''Invalid socket handle.''
      else if e = error_code SocketInvalidAddress
        then ''Invalid destination address specified.''
      else if e = error_code SocketInvalidPort
        then ''Invalid destination port specified.''
      else if e = error_code SocketConnectionRefused
        then ''No server is listening at remote address.''
      else if e = error_code SocketTimedout
        then ''Timed out while attempting operation.''
      else if e = error_code SocketEwouldblock
        then ''Operation would block if socket were blocking.''
      else if e = error_code SocketNotconnected
        then ''Currently not connected.''
      else if e = error_code SocketEinprogress
        then ''Socket is non-blocking and the connection cannot be completed immediately''
      else if e = error_code SocketInterrupted
        then ''Call was interrupted by a signal that was caught before a valid connection arrived.''
      else if e = error_code SocketConnectionAborted
        then ''The connection has been aborted.''
      else if e = error_code SocketProtocolError
        then ''Invalid protocol for operation.''
      else if e = error_code SocketFirewallError
        then ''Firewall rules forbid connection.''
      else if e = error_code SocketInvalidSocketBuffer
        then ''The receive buffer point outside the process's address space.''
      else if e = error_code SocketConnectionReset
        then ''Connection was forcibly closed by the remote host.''
      else if e = error_code SocketAddressInUse
        then ''Address already in use.''
      else if e = error_code SocketInvalidPointer
        then ''Pointer type supplied as argument is invalid.''
      else if e = error_code SocketEunknown
        then ''Unknown error''
      else ''No such CSimpleSocket error'')"

section \<open>What the callers rely on\<close>

text \<open>
  A table from error numbers to \<open>CSocketError\<close>: 0 and only 0 is success, one number
  means that a signal interrupted the call, and no number gives the generic
  \<open>SocketError\<close>, which is the -1 that calls return, or the codes that only the library
  itself sets for bad arguments.
\<close>

locale error_table =
  fixes table :: "int \<Rightarrow> CSocketError" and intr :: int
  assumes success_iff: "table n = SocketSuccess \<longleftrightarrow> n = 0"
    and interrupted_iff: "table n = SocketInterrupted \<longleftrightarrow> n = intr"
    and no_argument_error: "table n \<noteq> SocketError \<and> table n \<noteq> SocketInvalidPort"
begin

lemma intr_nonzero: "intr \<noteq> 0"
  using success_iff [of intr] interrupted_iff [of intr] by auto

lemma failure_code: "n \<noteq> 0 \<Longrightarrow> error_code (table n) \<noteq> 0"
  using success_iff [of n] no_argument_error [of n] by (cases "table n") auto

lemma failure_positive: "n \<noteq> 0 \<Longrightarrow> 0 < sint (error_code (table n))"
  using success_iff [of n] no_argument_error [of n] by (cases "table n") auto

end

interpretation linux: error_table translate_errno EINTR
  by unfold_locales (auto simp: translate_errno_def)

interpretation windows: error_table translate_wsa WSAEINTR
  by unfold_locales (auto simp: translate_wsa_def)

text \<open>The error numbers that both tables name, by their common suffix.\<close>

definition errno_pairs :: "(int \<times> int) list" where
  "errno_pairs =
     [(EINTR, WSAEINTR), (EBADF, WSAEBADF), (EACCES, WSAEACCES), (EFAULT, WSAEFAULT),
      (EINVAL, WSAEINVAL), (EMFILE, WSAEMFILE), (EWOULDBLOCK, WSAEWOULDBLOCK),
      (EINPROGRESS, WSAEINPROGRESS), (ENOTSOCK, WSAENOTSOCK),
      (EPROTONOSUPPORT, WSAEPROTONOSUPPORT), (EAFNOSUPPORT, WSAEAFNOSUPPORT),
      (EADDRINUSE, WSAEADDRINUSE), (ECONNABORTED, WSAECONNABORTED),
      (ECONNRESET, WSAECONNRESET), (ENOBUFS, WSAENOBUFS), (ENOTCONN, WSAENOTCONN),
      (ETIMEDOUT, WSAETIMEDOUT), (ECONNREFUSED, WSAECONNREFUSED)]"

lemma DescribeError_distinct: "distinct (map (\<lambda>e. DescribeError (error_code e)) enum_class.enum)"
  by (simp add: enum_CSocketError_def DescribeError_def)

lemma not_an_error_code_iff:
  "(\<nexists>e. k = error_code e) \<longleftrightarrow> k \<notin> error_code ` set enum_class.enum"
  by (auto simp: enum_UNIV)

section \<open>Properties\<close>

text \<open>
  On both systems a translated error is success exactly when there was no error, and
  says that a signal interrupted the call exactly for the system's own interrupt number;
  the translation never yields the generic code -1.
\<close>

theorem translation_contract:
  "(translate_errno n = SocketSuccess) = (n = 0)
   \<and> (translate_errno n = SocketInterrupted) = (n = EINTR)
   \<and> (translate_wsa n = SocketSuccess) = (n = 0)
   \<and> (translate_wsa n = SocketInterrupted) = (n = WSAEINTR)
   \<and> SocketError \<notin> {translate_errno n, translate_wsa n}"
  using linux.success_iff linux.interrupted_iff linux.no_argument_error
    windows.success_iff windows.interrupted_iff windows.no_argument_error
  by (auto dest: sym)

text \<open>
  Of the error numbers that the two tables have in common, three get different codes
  on Linux and on Windows: a bad descriptor, an invalid argument and a bad address.
\<close>

theorem platform_tables_differ:
  "filter (\<lambda>(l, w). translate_errno l \<noteq> translate_wsa w) errno_pairs
   = [(EBADF, WSAEBADF), (EFAULT, WSAEFAULT), (EINVAL, WSAEINVAL)]"
  by (simp add: errno_pairs_def translate_errno_def translate_wsa_def)

text \<open>
  Every enumerator has a description of its own, and the text for unknown codes is
  given for exactly the integers that are no enumerator.
\<close>

theorem descriptions_faithful:
  "(DescribeError (error_code a) = DescribeError (error_code b)) = (a = b)
   \<and> (DescribeError k = ''No such CSimpleSocket error'') = (k \<notin> range error_code)"
proof
  show "(DescribeError (error_code a) = DescribeError (error_code b)) = (a = b)"
    using DescribeError_distinct by (auto simp: distinct_map enum_UNIV inj_on_def)
  have "range error_code = error_code ` set enum_class.enum" by (simp add: enum_UNIV)
  then show "(DescribeError k = ''No such CSimpleSocket error'') = (k \<notin> range error_code)"
    by (simp add: DescribeError_def enum_CSocketError_def)
qed

end
