(* ===== verification/Stat_Timer.thy ===== *)
theory Stat_Timer imports Posix_Api begin

text \<open>
  The class \<open>CStatTimer\<close> of \<open>src/src/StatTimer.h\<close>: two clock readings and the
  time between them, in 32-bit unsigned arithmetic. The abstract value of a reading is a
  number of microseconds; the operations are shown to compute with it modulo \<open>2 ^ 32\<close>.
\<close>

section \<open>State and operations\<close>

record CStatTimer =
  m_startTime :: timeval
  m_endTime :: timeval

abbreviation (input) MILLISECONDS_CONVERSION :: uint32 where "MILLISECONDS_CONVERSION \<equiv> 1000"
abbreviation (input) MICROSECONDS_CONVERSION :: int64 where "MICROSECONDS_CONVERSION \<equiv> 1000000"

definition Timer_Initialize :: "CStatTimer \<Rightarrow> CStatTimer" where
  "Timer_Initialize t = t\<lparr>m_startTime := timeval_zero, m_endTime := timeval_zero\<rparr>"

definition SetStartTime :: "'w os \<Rightarrow> CStatTimer \<Rightarrow> 'w env \<Rightarrow> CStatTimer \<times> 'w env" where
  "SetStartTime os t e = (let (now, e1) = gettimeofday os e in (t\<lparr>m_startTime := now\<rparr>, e1))"

definition SetEndTime :: "'w os \<Rightarrow> CStatTimer \<Rightarrow> 'w env \<Rightarrow> CStatTimer \<times> 'w env" where
  "SetEndTime os t e = (let (now, e1) = gettimeofday os e in (t\<lparr>m_endTime := now\<rparr>, e1))"

definition GetStartTime :: "CStatTimer \<Rightarrow> timeval" where
  "GetStartTime t = m_startTime t"

definition GetEndTime :: "CStatTimer \<Rightarrow> timeval" where
  "GetEndTime t = m_endTime t"

definition CalcTotalUSec :: "CStatTimer \<Rightarrow> uint32" where
  "CalcTotalUSec t =
     ucast ((tv_sec (m_endTime t) - tv_sec (m_startTime t)) * MICROSECONDS_CONVERSION
            + (tv_usec (m_endTime t) - tv_usec (m_startTime t)))"

definition GetMilliSeconds :: "CStatTimer \<Rightarrow> uint32" where
  "GetMilliSeconds t = CalcTotalUSec t div MILLISECONDS_CONVERSION"

definition GetMicroSeconds :: "CStatTimer \<Rightarrow> uint32" where
  "GetMicroSeconds t = CalcTotalUSec t"

definition GetSeconds :: "CStatTimer \<Rightarrow> uint32" where
  "GetSeconds t = CalcTotalUSec t div 1000000"

definition GetCurrentTime :: "'w os \<Rightarrow> 'w env \<Rightarrow> uint32 \<times> 'w env" where
  "GetCurrentTime os e =
     (let (tmpTime, e1) = gettimeofday os e
      in (ucast (tv_sec tmpTime * MICROSECONDS_CONVERSION + tv_usec tmpTime), e1))"

section \<open>The elapsed time\<close>

text \<open>The abstract value of a reading: microseconds since the epoch.\<close>

definition usecs :: "timeval \<Rightarrow> int" where
  "usecs tv = sint (tv_sec tv) * 1000000 + sint (tv_usec tv)"

lemma ucast_64_32: "(ucast (x :: int64) :: uint32) = word_of_int (sint x)"
  by (rule bit_word_eqI) (simp add: bit_simps bit_sint_iff)

lemma word_of_int_mod_64: "(word_of_int (sint (word_of_int k :: int64)) :: uint32) = word_of_int k"
proof (rule bit_word_eqI)
  fix n assume "n < LENGTH(32)"
  then show "bit (word_of_int (sint (word_of_int k :: int64)) :: uint32) n = bit (word_of_int k :: uint32) n"
    by (simp add: bit_simps sint_sbintrunc' min_def)
qed

text \<open>
  The subtractions, the product and the sum wrap at 64 bits and the result is narrowed to
  32 bits; together that is the exact difference modulo \<open>2 ^ 32\<close>.
\<close>

lemma CalcTotalUSec_exact:
  "CalcTotalUSec t = word_of_int (usecs (m_endTime t) - usecs (m_startTime t))"
proof -
  let ?s = "m_startTime t" and ?e = "m_endTime t"
  have "(tv_sec ?e - tv_sec ?s) * MICROSECONDS_CONVERSION + (tv_usec ?e - tv_usec ?s)
        = word_of_int (usecs ?e - usecs ?s)"
    by (simp add: usecs_def algebra_simps)
  then have "CalcTotalUSec t = ucast (word_of_int (usecs ?e - usecs ?s) :: int64)"
    by (simp only: CalcTotalUSec_def)
  also have "\<dots> = word_of_int (usecs ?e - usecs ?s)"
    by (simp only: ucast_64_32 word_of_int_mod_64)
  finally show ?thesis .
qed

lemma uint_CalcTotalUSec:
  "uint (CalcTotalUSec t) = (usecs (m_endTime t) - usecs (m_startTime t)) mod 2 ^ 32"
  unfolding CalcTotalUSec_exact uint_word_of_int by simp

text \<open>Starting and stopping a timer around something that reads the clock at both ends.\<close>

lemma timer_measures:
  assumes "SetStartTime os (Timer_Initialize t) e = (t1, e1)"
    and "SetEndTime os t1 e2 = (t2, e3)"
  shows "m_startTime t2 = fst (clock os (world e)) \<and> m_endTime t2 = fst (clock os (world e2))"
  using assms
  by (auto simp: SetStartTime_def SetEndTime_def Timer_Initialize_def gettimeofday_def
      Let_def split_beta)

section \<open>Properties\<close>

text \<open>
  A timer started at one clock reading and stopped at another reports the
  microseconds between them modulo \<open>2 ^ 32\<close>, and the milliseconds and the seconds as
  that number divided by 1000 and by 1000000.
\<close>

theorem elapsed_time:
  "let (t1, e1) = SetStartTime os (Timer_Initialize t) e;
       (t2, e3) = SetEndTime os t1 e2;
       d = (usecs (fst (clock os (world e2))) - usecs (fst (clock os (world e)))) mod 2 ^ 32
   in uint (GetMicroSeconds t2) = d
      \<and> uint (GetMilliSeconds t2) = d div 1000 \<and> uint (GetSeconds t2) = d div 1000000"
proof -
  obtain t1 e1 where a: "SetStartTime os (Timer_Initialize t) e = (t1, e1)" by fastforce
  obtain t2 e3 where b: "SetEndTime os t1 e2 = (t2, e3)" by fastforce
  show ?thesis
    using timer_measures [OF a b]
    by (simp add: a b GetMicroSeconds_def GetMilliSeconds_def GetSeconds_def
        uint_CalcTotalUSec uint_div_distrib)
qed

text \<open>
  C40. A duration below \<open>2 ^ 32\<close> microseconds (about 71 minutes) is reported exactly;
  one that is a multiple of \<open>2 ^ 32\<close> microseconds is reported as zero.
\<close>

theorem elapsed_bounds:
  assumes "SetStartTime os (Timer_Initialize t) e = (t1, e1)"
    and "SetEndTime os t1 e2 = (t2, e3)"
    and "usecs (fst (clock os (world e2))) = usecs (fst (clock os (world e))) + d"
    and "0 \<le> d"
  shows "(uint (GetMicroSeconds t2) = d) = (d < 2 ^ 32)
         \<and> (2 ^ 32 dvd d) = (GetMicroSeconds t2 = 0)"
proof -
  have u: "uint (GetMicroSeconds t2) = d mod 2 ^ 32"
    using timer_measures [OF assms(1,2)] assms(3)
    by (simp add: GetMicroSeconds_def uint_CalcTotalUSec)
  have "(uint (GetMicroSeconds t2) = d) = (d < 2 ^ 32)"
  proof
    assume "uint (GetMicroSeconds t2) = d"
    then show "d < 2 ^ 32" using uint_lt2p [of "GetMicroSeconds t2"] by simp
  next
    assume "d < 2 ^ 32"
    then show "uint (GetMicroSeconds t2) = d" using \<open>0 \<le> d\<close> u by simp
  qed
  moreover have "(2 ^ 32 dvd d) = (GetMicroSeconds t2 = 0)"
    using u by (metis dvd_eq_mod_eq_0 uint_0_iff)
  ultimately show ?thesis by blast
qed

text \<open>A clock that advances by 250 microseconds with every reading.\<close>

definition ticking :: "int os" where
  "ticking = \<lparr>kernel = (\<lambda>c w. (ok 0, w)),
     clock = (\<lambda>w. (\<lparr>tv_sec = 0, tv_usec = word_of_int w\<rparr>, w + 250)),
     inet_addr = (\<lambda>p. 0), inet_ntoa = (\<lambda>a. []), uninit = (\<lambda>i. 0)\<rparr>"

theorem elapsed_bounds_witness:
  "let e = \<lparr>errno = 0, h_errno = 0, world = 1000, trace = []\<rparr>;
       t = \<lparr>m_startTime = timeval_zero, m_endTime = timeval_zero\<rparr>;
       (t1, e1) = SetStartTime ticking (Timer_Initialize t) e;
       (t2, e3) = SetEndTime ticking t1 e1
   in uint (GetMicroSeconds t2) = 250"
proof -
  define e :: "int env" where "e = \<lparr>errno = 0, h_errno = 0, world = 1000, trace = []\<rparr>"
  define t where "t = \<lparr>m_startTime = timeval_zero, m_endTime = timeval_zero\<rparr>"
  obtain t1 e1 where a: "SetStartTime ticking (Timer_Initialize t) e = (t1, e1)" by fastforce
  obtain t2 e3 where b: "SetEndTime ticking t1 e1 = (t2, e3)" by fastforce
  have w: "world e1 = 1250"
    using a by (auto simp: SetStartTime_def gettimeofday_def ticking_def e_def)
  have "usecs (fst (clock ticking (world e1))) = usecs (fst (clock ticking (world e))) + 250"
    by (simp add: w) (simp add: ticking_def usecs_def e_def)
  from elapsed_bounds [OF a b this] have "uint (GetMicroSeconds t2) = 250" by simp
  then show ?thesis by (simp add: Let_def a b flip: e_def t_def)
qed

end
