(* ===== verification/Simple_Socket.thy ===== *)
theory Simple_Socket imports Socket_Errors Stat_Timer begin

text \<open>
  The class \<open>CSimpleSocket\<close>: its members as a record (which the derived classes
  extend, as they do in C++), its constructors, the inline accessors of
  \<open>SimpleSocket.h\<close>, and the operations that open and close the descriptor
  (\<open>Initialize\<close>, \<open>Close\<close>, \<open>Shutdown\<close>). An operation takes the object and the
  environment and returns its result with both updated.
\<close>

section \<open>The object\<close>

datatype CShutdownMode = Receives | Sends | Both

fun shutdown_code :: "CShutdownMode \<Rightarrow> int32" where
  "shutdown_code Receives = 0"
| "shutdown_code Sends = 1"
| "shutdown_code Both = 2"

datatype CSocketType =
    SocketTypeInvalid
  | SocketTypeTcp
  | SocketTypeUdp
  | SocketTypeTcp6
  | SocketTypeUdp6
  | SocketTypeRaw

fun socket_type_code :: "CSocketType \<Rightarrow> int32" where
  "socket_type_code SocketTypeInvalid = 0"
| "socket_type_code SocketTypeTcp = 1"
| "socket_type_code SocketTypeUdp = 2"
| "socket_type_code SocketTypeTcp6 = 3"
| "socket_type_code SocketTypeUdp6 = 4"
| "socket_type_code SocketTypeRaw = 5"

abbreviation (input) INVALID_SOCKET :: SOCKET where "INVALID_SOCKET \<equiv> -1"

text \<open>
  \<open>m_pBuffer\<close> is a pointer that the object owns: a null pointer, or the array it points
  to. The members keep the order and the names of the class.
\<close>

record csocket =
  m_socket :: SOCKET
  m_socketErrno :: CSocketError
  m_pBuffer :: "byte list option"
  m_nBufferSize :: int32
  m_nSocketDomain :: int32
  m_nSocketType :: CSocketType
  m_nBytesReceived :: int32
  m_nBytesSent :: int32
  m_nFlags :: uint32
  m_bIsBlocking :: bool
  m_bIsMulticast :: bool
  m_stConnectTimeout :: timeval
  m_stRecvTimeout :: timeval
  m_stSendTimeout :: timeval
  m_stServerSockaddr :: sockaddr_in
  m_stClientSockaddr :: sockaddr_in
  m_stMulticastGroup :: sockaddr_in
  m_stLinger :: linger
  m_timer :: CStatTimer
  m_writeFds :: fd_set
  m_readFds :: fd_set
  m_errorFds :: fd_set

section \<open>Accessors\<close>

definition IsSocketValid :: "'a csocket_scheme \<Rightarrow> bool" where
  "IsSocketValid s \<longleftrightarrow> m_socket s \<noteq> error_code SocketError"

definition IsNonblocking :: "'a csocket_scheme \<Rightarrow> bool" where
  "IsNonblocking s \<longleftrightarrow> m_bIsBlocking s = False"

definition GetData :: "'a csocket_scheme \<Rightarrow> byte list option" where
  "GetData s = m_pBuffer s"

definition GetBytesReceived :: "'a csocket_scheme \<Rightarrow> int32" where
  "GetBytesReceived s = m_nBytesReceived s"

definition GetBytesSent :: "'a csocket_scheme \<Rightarrow> int32" where
  "GetBytesSent s = m_nBytesSent s"

definition GetMulticast :: "'a csocket_scheme \<Rightarrow> bool" where
  "GetMulticast s = m_bIsMulticast s"

definition GetSocketError :: "'a csocket_scheme \<Rightarrow> CSocketError" where
  "GetSocketError s = m_socketErrno s"

definition GetSocketDescriptor :: "'a csocket_scheme \<Rightarrow> SOCKET" where
  "GetSocketDescriptor s = m_socket s"

definition GetSocketType :: "'a csocket_scheme \<Rightarrow> CSocketType" where
  "GetSocketType s = m_nSocketType s"

definition GetTotalTimeMs :: "'a csocket_scheme \<Rightarrow> uint32" where
  "GetTotalTimeMs s = GetMilliSeconds (m_timer s)"

definition GetTotalTimeUsec :: "'a csocket_scheme \<Rightarrow> uint32" where
  "GetTotalTimeUsec s = GetMicroSeconds (m_timer s)"

definition GetClientAddr :: "'w os \<Rightarrow> 'a csocket_scheme \<Rightarrow> string" where
  "GetClientAddr os s = inet_ntoa os (sin_addr (m_stClientSockaddr s))"

definition GetClientPort :: "'a csocket_scheme \<Rightarrow> uint16" where
  "GetClientPort s = sin_port (m_stClientSockaddr s)"

definition GetServerAddr :: "'w os \<Rightarrow> 'a csocket_scheme \<Rightarrow> string" where
  "GetServerAddr os s = inet_ntoa os (sin_addr (m_stServerSockaddr s))"

definition GetServerPort :: "'a csocket_scheme \<Rightarrow> uint16" where
  "GetServerPort s = ntohs (sin_port (m_stServerSockaddr s))"

definition DescribeLastError :: "'a csocket_scheme \<Rightarrow> string" where
  "DescribeLastError s = DescribeError (error_code (m_socketErrno s))"

text \<open>The protected setters.\<close>

definition SetSocketError :: "CSocketError \<Rightarrow> 'a csocket_scheme \<Rightarrow> 'a csocket_scheme" where
  "SetSocketError error s = s\<lparr>m_socketErrno := error\<rparr>"

definition SetSocketHandle :: "SOCKET \<Rightarrow> 'a csocket_scheme \<Rightarrow> 'a csocket_scheme" where
  "SetSocketHandle socket s = s\<lparr>m_socket := socket\<rparr>"

definition TranslateSocketError :: "'a csocket_scheme \<Rightarrow> 'w env \<Rightarrow> 'a csocket_scheme" where
  "TranslateSocketError s e = SetSocketError (translate_errno (errno e)) s"

text \<open>The timeouts: \<open>int32\<close> values stored in the \<open>long\<close> members of a \<open>timeval\<close>.\<close>

definition make_timeval :: "int32 \<Rightarrow> int32 \<Rightarrow> timeval" where
  "make_timeval nSec nUsec = \<lparr>tv_sec = scast nSec, tv_usec = scast nUsec\<rparr>"

definition SetConnectTimeout :: "int32 \<Rightarrow> int32 \<Rightarrow> 'a csocket_scheme \<Rightarrow> 'a csocket_scheme" where
  "SetConnectTimeout nConnectTimeoutSec nConnectTimeoutUsec s =
     s\<lparr>m_stConnectTimeout := make_timeval nConnectTimeoutSec nConnectTimeoutUsec\<rparr>"

definition GetConnectTimeoutSec :: "'a csocket_scheme \<Rightarrow> int32" where
  "GetConnectTimeoutSec s = ucast (tv_sec (m_stConnectTimeout s))"

definition GetConnectTimeoutUSec :: "'a csocket_scheme \<Rightarrow> int32" where
  "GetConnectTimeoutUSec s = ucast (tv_usec (m_stConnectTimeout s))"

definition GetReceiveTimeoutSec :: "'a csocket_scheme \<Rightarrow> int32" where
  "GetReceiveTimeoutSec s = ucast (tv_sec (m_stRecvTimeout s))"

definition GetReceiveTimeoutUSec :: "'a csocket_scheme \<Rightarrow> int32" where
  "GetReceiveTimeoutUSec s = ucast (tv_usec (m_stRecvTimeout s))"

definition GetSendTimeoutSec :: "'a csocket_scheme \<Rightarrow> int32" where
  "GetSendTimeoutSec s = ucast (tv_sec (m_stSendTimeout s))"

definition GetSendTimeoutUSec :: "'a csocket_scheme \<Rightarrow> int32" where
  "GetSendTimeoutUSec s = ucast (tv_usec (m_stSendTimeout s))"

section \<open>Constructors\<close>

text \<open>
  \<open>raw\<close> is the object's memory before the constructor runs: members that the
  constructor does not initialise keep its indeterminate contents.
\<close>

definition CSimpleSocket :: "CSocketType \<Rightarrow> 'a csocket_scheme \<Rightarrow> 'a csocket_scheme" where
  "CSimpleSocket nType raw =
     (let s0 = raw\<lparr>m_socket := INVALID_SOCKET, m_socketErrno := SocketInvalidSocket,
                  m_pBuffer := None, m_nBufferSize := 0, m_nSocketDomain := AF_INET,
                  m_nSocketType := SocketTypeInvalid, m_nBytesReceived := -1,
                  m_nBytesSent := -1, m_nFlags := 0,
                  m_bIsBlocking := True, m_bIsMulticast := False\<rparr>;
          s1 = (SetConnectTimeout 1 0 s0)
                 \<lparr>m_stRecvTimeout := timeval_zero, m_stSendTimeout := timeval_zero,
                  m_stLinger := \<lparr>l_onoff = 0, l_linger = 0\<rparr>\<rparr>
      in (case nType of
            SocketTypeTcp \<Rightarrow> s1\<lparr>m_nSocketDomain := AF_INET, m_nSocketType := SocketTypeTcp\<rparr>
          | SocketTypeTcp6 \<Rightarrow> s1\<lparr>m_nSocketDomain := AF_INET6, m_nSocketType := SocketTypeTcp6\<rparr>
          | SocketTypeUdp \<Rightarrow> s1\<lparr>m_nSocketDomain := AF_INET, m_nSocketType := SocketTypeUdp\<rparr>
          | SocketTypeUdp6 \<Rightarrow> s1\<lparr>m_nSocketDomain := AF_INET6, m_nSocketType := SocketTypeUdp6\<rparr>
          | SocketTypeRaw \<Rightarrow> s1\<lparr>m_nSocketDomain := AF_PACKET, m_nSocketType := SocketTypeRaw\<rparr>
          | _ \<Rightarrow> s1\<lparr>m_nSocketType := SocketTypeInvalid\<rparr>))"

text \<open>
  \<open>memcpy\<close> of \<open>n\<close> bytes from a buffer pointer into a new array; the size is an
  \<open>int32\<close>, and \<open>new\<close> throws when it is negative.
\<close>

definition clone_buffer :: "byte list option \<Rightarrow> int32 \<Rightarrow> byte list outcome" where
  "clone_buffer p n =
     (if sint n < 0 then Faults BadArrayLength
      else (case p of
              None \<Rightarrow> if n = 0 then Returns [] else Faults NullCopy
            | Some b \<Rightarrow> if nat (sint n) \<le> length b then Returns (take (nat (sint n)) b)
                        else Faults PointerOutOfBounds))"

text \<open>The copy constructor and the copy assignment.\<close>

definition CSimpleSocket_copy ::
  "'b csocket_scheme \<Rightarrow> 'a csocket_scheme \<Rightarrow> 'a csocket_scheme outcome" where
  "CSimpleSocket_copy socket raw =
     obind (clone_buffer (m_pBuffer socket) (m_nBufferSize socket))
       (\<lambda>b. Returns (raw\<lparr>m_pBuffer := Some b, m_nBufferSize := m_nBufferSize socket\<rparr>))"

text \<open>
  Assignment frees the old array with \<open>delete\<close> although it came from \<open>new[]\<close>:
  undefined unless the pointer is null.
\<close>

definition CSimpleSocket_assign ::
  "'b csocket_scheme \<Rightarrow> 'a csocket_scheme \<Rightarrow> 'a csocket_scheme outcome" where
  "CSimpleSocket_assign socket s =
     (if m_nBufferSize s \<noteq> m_nBufferSize socket then
        (if m_pBuffer s \<noteq> None then Faults MismatchedDelete
         else obind (clone_buffer (m_pBuffer socket) (m_nBufferSize socket))
                (\<lambda>b. Returns (s\<lparr>m_pBuffer := Some b, m_nBufferSize := m_nBufferSize socket\<rparr>)))
      else Returns s)"

text \<open>The destructor frees the internal buffer.\<close>

definition CSimpleSocket_destroy :: "'a csocket_scheme \<Rightarrow> 'a csocket_scheme" where
  "CSimpleSocket_destroy s = (if m_pBuffer s \<noteq> None then s\<lparr>m_pBuffer := None\<rparr> else s)"

section \<open>Opening and closing the descriptor\<close>

text \<open>\<open>m_timer.Initialize(); m_timer.SetStartTime();\<close> and \<open>m_timer.SetEndTime();\<close>\<close>

definition timer_start :: "'w os \<Rightarrow> 'a csocket_scheme \<Rightarrow> 'w env \<Rightarrow> 'a csocket_scheme \<times> 'w env" where
  "timer_start os s e =
     (let (t, e1) = SetStartTime os (Timer_Initialize (m_timer s)) e in (s\<lparr>m_timer := t\<rparr>, e1))"

definition timer_end :: "'w os \<Rightarrow> 'a csocket_scheme \<Rightarrow> 'w env \<Rightarrow> 'a csocket_scheme \<times> 'w env" where
  "timer_end os s e = (let (t, e1) = SetEndTime os (m_timer s) e in (s\<lparr>m_timer := t\<rparr>, e1))"

definition Initialize ::
  "'w os \<Rightarrow> 'a csocket_scheme \<Rightarrow> 'w env \<Rightarrow> bool \<times> 'a csocket_scheme \<times> 'w env" where
  "Initialize os s e =
     (let e0 = e\<lparr>errno := sint (error_code SocketSuccess)\<rparr>;
          (s1, e1) = timer_start os s e0;
          (r, e2) = invoke os (Sys_socket (m_nSocketDomain s1) (socket_type_code (m_nSocketType s1)) 0) e1;
          s2 = s1\<lparr>m_socket := i32 (ret r)\<rparr>;
          (s3, e3) = timer_end os s2 e2;
          s4 = TranslateSocketError s3 e3
      in (IsSocketValid s4, s4, e3))"

definition Close ::
  "'w os \<Rightarrow> 'a csocket_scheme \<Rightarrow> 'w env \<Rightarrow> bool \<times> 'a csocket_scheme \<times> 'w env" where
  "Close os s e =
     (let s1 = (if m_pBuffer s \<noteq> None then s\<lparr>m_pBuffer := None\<rparr> else s);
          (bRetVal, s2, e2) =
            (if IsSocketValid s1 then
               (let (r, e1) = invoke os (Sys_close (m_socket s1)) e
                in if i32 (ret r) \<noteq> error_code SocketError
                   then (True, s1\<lparr>m_socket := INVALID_SOCKET\<rparr>, e1)
                   else (False, s1, e1))
             else (False, s1, e))
      in (bRetVal, TranslateSocketError s2 e2, e2))"

definition Shutdown ::
  "'w os \<Rightarrow> CShutdownMode \<Rightarrow> 'a csocket_scheme \<Rightarrow> 'w env \<Rightarrow> bool \<times> 'a csocket_scheme \<times> 'w env" where
  "Shutdown os nShutdown s e =
     (let (r, e1) = invoke os (Sys_shutdown (m_socket s) (shutdown_code nShutdown)) e;
          nRetVal = i32 (ret r);
          s1 = TranslateSocketError s e1
      in (nRetVal = error_code SocketSuccess, s1, e1))"

section \<open>Running the small operations\<close>

text \<open>What starting and stopping the timer does to the object and the environment.\<close>

lemma timer_start_eq [run_simps]:
  "timer_start os s e =
     (s\<lparr>m_timer := (m_timer s)\<lparr>m_startTime := fst (clock os (world e)), m_endTime := timeval_zero\<rparr>\<rparr>,
      e\<lparr>world := snd (clock os (world e))\<rparr>)"
  by (simp add: timer_start_def SetStartTime_def Timer_Initialize_def gettimeofday_def
      Let_def split_beta)

lemma timer_end_eq [run_simps]:
  "timer_end os s e =
     (s\<lparr>m_timer := (m_timer s)\<lparr>m_endTime := fst (clock os (world e))\<rparr>\<rparr>,
      e\<lparr>world := snd (clock os (world e))\<rparr>)"
  by (simp add: timer_end_def SetEndTime_def gettimeofday_def Let_def split_beta)

lemmas error_simps [run_simps] =
  SetSocketError_def GetSocketError_def TranslateSocketError_def SetSocketHandle_def

declare fst_invoke [run_simps] snd_invoke [run_simps] split_beta [run_simps] Let_def [run_simps]

lemma IsSocketValid_iff [run_simps]: "IsSocketValid s \<longleftrightarrow> m_socket s \<noteq> -1"
  by (simp add: IsSocketValid_def)

lemma translate_not_SocketError [simp]: "translate_errno n \<noteq> SocketError"
  using linux.no_argument_error by blast

section \<open>What most operations leave alone\<close>

text \<open>
  The handle, the buffer, the type and the blocking mode stay; the error stays or becomes one
  that is not the value reserved for results.
\<close>

definition same_object :: "'a csocket_scheme \<Rightarrow> 'a csocket_scheme \<Rightarrow> bool" where
  "same_object s t \<longleftrightarrow>
     m_socket t = m_socket s \<and> m_pBuffer t = m_pBuffer s \<and> m_nBufferSize t = m_nBufferSize s
     \<and> m_nSocketType t = m_nSocketType s \<and> m_bIsBlocking t = m_bIsBlocking s
     \<and> (m_socketErrno t = m_socketErrno s \<or> m_socketErrno t \<noteq> SocketError)"

lemma same_object_refl [simp]: "same_object s s"
  by (simp add: same_object_def)

lemma same_object_trans: "same_object s t \<Longrightarrow> same_object t u \<Longrightarrow> same_object s u"
  by (auto simp: same_object_def)

lemma same_object_step [simp]:
  "same_object s (fst (timer_start os t e)) = same_object s t"
  "same_object s (fst (timer_end os t e)) = same_object s t"
  by (simp_all add: same_object_def timer_start_eq timer_end_eq)

lemma same_object_translate: "same_object s t \<Longrightarrow> same_object s (TranslateSocketError t e)"
  by (simp add: same_object_def TranslateSocketError_def SetSocketError_def)

text \<open>The same with the environment: no descriptor is opened or closed in between.\<close>

definition undisturbed ::
  "'a csocket_scheme \<times> 'w env \<Rightarrow> 'a csocket_scheme \<times> 'w env \<Rightarrow> bool" where
  "undisturbed x y \<longleftrightarrow> same_object (fst x) (fst y) \<and> calm (snd x) (snd y)"

lemma undisturbed_refl [simp]: "undisturbed x x"
  by (simp add: undisturbed_def)

lemma undisturbed_trans: "undisturbed x y \<Longrightarrow> undisturbed y z \<Longrightarrow> undisturbed x z"
  unfolding undisturbed_def using same_object_trans calm_trans by metis

lemma undisturbed_timer [simp]:
  "undisturbed x (timer_start os s e) = undisturbed x (s, e)"
  "undisturbed x (timer_end os s e) = undisturbed x (s, e)"
  by (simp_all add: undisturbed_def timer_start_eq timer_end_eq same_object_def)

lemma undisturbed_call:
  "undisturbed x (s, e) \<Longrightarrow> \<not> life_call c \<Longrightarrow> undisturbed x (s, snd (invoke os c e))"
  by (simp add: undisturbed_def calm_call)

lemma undisturbed_translate:
  "undisturbed x (s, e) \<Longrightarrow> undisturbed x (TranslateSocketError s e1, e)"
  by (simp add: undisturbed_def same_object_translate)

section \<open>The buffer invariant\<close>

text \<open>
  When there is an internal buffer, its length is the recorded size. The pointer arithmetic
  of \<open>Receive\<close> and the copy constructor rely on it.
\<close>

definition buffer_ok :: "'a csocket_scheme \<Rightarrow> bool" where
  "buffer_ok s \<longleftrightarrow>
     (case m_pBuffer s of
        None \<Rightarrow> True
      | Some b \<Rightarrow> 0 \<le> sint (m_nBufferSize s) \<and> length b = nat (sint (m_nBufferSize s)))"

lemma buffer_ok_None [simp]: "m_pBuffer s = None \<Longrightarrow> buffer_ok s"
  by (simp add: buffer_ok_def)

lemma buffer_ok_cong:
  "m_pBuffer t = m_pBuffer s \<Longrightarrow> m_nBufferSize t = m_nBufferSize s \<Longrightarrow> buffer_ok t = buffer_ok s"
  by (cases "m_pBuffer s") (simp_all add: buffer_ok_def)

text \<open>On a lawful kernel, an error translated after \<open>errno\<close> was cleared is exact.\<close>

lemma error_agrees:
  assumes "errno_only_on_failure os" and "failure_sets_errno os"
  shows "translate_errno (set_errno (fst (kernel os c w)) 0) = SocketSuccess \<longleftrightarrow>
           ret (fst (kernel os c w)) \<noteq> -1"
  using errno_kept [OF assms(1), of c w 0] errno_stored [OF assms(2), of c w 0]
  by (cases "ret (fst (kernel os c w)) = -1") (simp_all add: linux.success_iff)

end
