(* ===== verification/Scripted_Kernel.thy ===== *)
theory Scripted_Kernel imports Simple_Socket begin

text \<open>
  A concrete operating system to run the model on: the kernel's state is the list of the
  answers it is going to give, and it keeps to the documented use of \<open>errno\<close>. The
  properties of the other theories are applied to it in their witnesses.
\<close>

definition in_int :: "reply \<Rightarrow> reply" where
  "in_int r = r\<lparr>ret := (if - (2 ^ 31) \<le> ret r \<and> ret r < 2 ^ 31 then ret r else -1)\<rparr>"

definition lawful :: "reply \<Rightarrow> reply" where
  "lawful q =
     (let r = in_int q in if ret r = -1 then r\<lparr>err := (case err r of None \<Rightarrow> Some EFAULT
                                   | Some n \<Rightarrow> if n = 0 then Some EFAULT else Some n)\<rparr>
      else r\<lparr>err := None\<rparr>)"

fun script_kernel :: "syscall \<Rightarrow> reply list \<Rightarrow> reply \<times> reply list" where
  "script_kernel c [] = (ok 0, [])"
| "script_kernel c (r # rs) = (lawful r, rs)"

definition dotted_quads :: "string \<Rightarrow> uint32" where
  "dotted_quads p = (if p = ''127.0.0.1'' then 0x0100007F else INADDR_NONE)"

definition scripted :: "reply list os" where
  "scripted =
     \<lparr>kernel = script_kernel, clock = (\<lambda>w. (timeval_zero, w)), inet_addr = dotted_quads,
      inet_ntoa = (\<lambda>a. ''127.0.0.1''), uninit = (\<lambda>i. 0)\<rparr>"

definition start_env :: "reply list \<Rightarrow> reply list env" where
  "start_env script = \<lparr>errno = 0, h_errno = 0, world = script, trace = []\<rparr>"

lemma lawful_ok [simp]: "0 \<le> n \<Longrightarrow> n < 2 ^ 31 \<Longrightarrow> lawful (ok n) = ok n"
  by (simp add: lawful_def in_int_def ok_def fail_def)

lemma lawful_fail [simp]: "n \<noteq> 0 \<Longrightarrow> lawful (fail n) = fail n"
  by (simp add: lawful_def in_int_def ok_def fail_def)

lemma scripted_simps [simp]:
  "kernel scripted = script_kernel" "clock scripted = (\<lambda>w. (timeval_zero, w))"
  "inet_addr scripted = dotted_quads" "uninit scripted = (\<lambda>i. 0)"
  by (simp_all add: scripted_def)

lemma start_env_simps [simp]:
  "errno (start_env rs) = 0" "h_errno (start_env rs) = 0" "world (start_env rs) = rs"
  "trace (start_env rs) = []"
  by (simp_all add: start_env_def)

lemma scripted_errno_only_on_failure: "errno_only_on_failure scripted"
  unfolding errno_only_on_failure_def
proof (intro allI impI)
  fix c w assume "ret (fst (kernel scripted c w)) \<noteq> -1"
  then show "err (fst (kernel scripted c w)) = None"
    by (cases w) (auto simp: lawful_def Let_def split: if_splits)
qed

lemma scripted_failure_sets_errno: "failure_sets_errno scripted"
  unfolding failure_sets_errno_def
proof (intro allI impI)
  fix c w assume "ret (fst (kernel scripted c w)) = -1"
  then show "\<exists>n. err (fst (kernel scripted c w)) = Some n \<and> n \<noteq> 0"
    by (cases w) (auto simp: lawful_def Let_def split: if_splits option.splits)
qed

lemma scripted_int_results: "int_results scripted"
  unfolding int_results_def
proof (intro allI impI)
  fix c w assume "\<not> wide_result c"
  show "- (2 ^ 31) \<le> ret (fst (kernel scripted c w)) \<and> ret (fst (kernel scripted c w)) < 2 ^ 31"
    by (cases w) (auto simp: lawful_def in_int_def Let_def)
qed

text \<open>An object's memory before construction, and a constructed socket with a descriptor.\<close>

definition raw_timer :: CStatTimer where
  "raw_timer = \<lparr>m_startTime = timeval_zero, m_endTime = timeval_zero\<rparr>"

definition raw_socket :: csocket where
  "raw_socket =
     \<lparr>m_socket = 0, m_socketErrno = SocketSuccess, m_pBuffer = None, m_nBufferSize = 0,
      m_nSocketDomain = 0, m_nSocketType = SocketTypeInvalid, m_nBytesReceived = 0,
      m_nBytesSent = 0, m_nFlags = 0, m_bIsBlocking = False, m_bIsMulticast = False,
      m_stConnectTimeout = timeval_zero, m_stRecvTimeout = timeval_zero,
      m_stSendTimeout = timeval_zero, m_stServerSockaddr = sockaddr_zero,
      m_stClientSockaddr = sockaddr_zero, m_stMulticastGroup = sockaddr_zero,
      m_stLinger = \<lparr>l_onoff = 0, l_linger = 0\<rparr>, m_timer = raw_timer,
      m_writeFds = {}, m_readFds = {}, m_errorFds = {}\<rparr>"

definition demo_socket :: "CSocketType \<Rightarrow> SOCKET \<Rightarrow> csocket" where
  "demo_socket t fd = SetSocketHandle fd (CSimpleSocket t raw_socket)"

lemma demo_socket_sel [simp]:
  "m_socket (demo_socket t fd) = fd" "m_pBuffer (demo_socket t fd) = None"
  "m_nSocketType (demo_socket t fd) = t" "m_bIsBlocking (demo_socket t fd) = True"
  "m_bIsMulticast (demo_socket t fd) = False" "m_nBufferSize (demo_socket t fd) = 0"
  by (cases t; simp add: demo_socket_def SetSocketHandle_def CSimpleSocket_def
      SetConnectTimeout_def Let_def)+

end
