(* ===== verification/Object_Life.thy ===== *)
theory Object_Life imports Scripted_Kernel begin

text \<open>
  Properties of a socket object's life: construction, copying, \<open>Initialize\<close>,
  \<open>Close\<close> and \<open>Shutdown\<close>.
\<close>

section \<open>Closing and copying\<close>

lemma buffer_None_id: "m_pBuffer s = None \<Longrightarrow> s\<lparr>m_pBuffer := None\<rparr> = s"
  by (cases s) simp

lemma Close_eq:
  "Close os s e =
     (let s1 = s\<lparr>m_pBuffer := None\<rparr>
      in if m_socket s = -1 then (False, TranslateSocketError s1 e, e)
         else
           (let (r, e1) = invoke os (Sys_close (m_socket s)) e
            in if i32 (ret r) = -1 then (False, TranslateSocketError s1 e1, e1)
               else (True, TranslateSocketError (s1\<lparr>m_socket := -1\<rparr>) e1, e1)))"
  by (cases "m_pBuffer s = None") (auto simp: Close_def run_simps buffer_None_id)

lemma Close_invalid [run_simps]:
  "m_socket s = -1 \<Longrightarrow> Close os s e = (False, TranslateSocketError (s\<lparr>m_pBuffer := None\<rparr>) e, e)"
  by (simp add: Close_eq)

text \<open>Closing a valid handle, by the answer of the kernel.\<close>

lemma Close_valid:
  assumes "m_socket s \<noteq> -1"
  shows "Close os s e =
    (let (r, e1) = invoke os (Sys_close (m_socket s)) e; b = (i32 (ret r) \<noteq> -1)
     in (b, TranslateSocketError (s\<lparr>m_pBuffer := None, m_socket := (if b then -1 else m_socket s)\<rparr>) e1, e1))"
  using assms by (auto simp: Close_eq run_simps)

lemma clone_buffer_ok:
  "buffer_ok s \<Longrightarrow> m_pBuffer s = Some b \<Longrightarrow>
     clone_buffer (m_pBuffer s) (m_nBufferSize s) = Returns b"
  by (auto simp: clone_buffer_def buffer_ok_def)

section \<open>Properties of the object's life\<close>

text \<open>
  A constructed socket has no descriptor and no buffer, reports an invalid socket,
  is blocking and unicast, waits one second to connect, and has the domain and the type
  that belong to the type asked for; a type the class does not know gives an invalid one.
\<close>

theorem constructed_socket:
  "let s = CSimpleSocket t raw
   in \<not> IsSocketValid s \<and> GetSocketError s = SocketInvalidSocket \<and> GetData s = None \<and> buffer_ok s
      \<and> \<not> IsNonblocking s \<and> \<not> GetMulticast s
      \<and> (GetConnectTimeoutSec s, GetConnectTimeoutUSec s) = (1, 0)
      \<and> (GetReceiveTimeoutSec s, GetSendTimeoutSec s) = (0, 0)
      \<and> GetSocketType s = t
      \<and> m_nSocketDomain s =
          (if t \<in> {SocketTypeTcp6, SocketTypeUdp6} then AF_INET6
           else if t = SocketTypeRaw then AF_PACKET else AF_INET)"
  by (cases t)
     (simp_all add: CSimpleSocket_def SetConnectTimeout_def make_timeval_def timeval_zero_def
       IsSocketValid_def GetSocketError_def GetData_def buffer_ok_def IsNonblocking_def
       GetMulticast_def GetConnectTimeoutSec_def GetConnectTimeoutUSec_def
       GetReceiveTimeoutSec_def GetSendTimeoutSec_def GetSocketType_def Let_def)

text \<open>
  The type number that \<open>Initialize\<close> passes to \<open>socket\<close> is the library's own
  enumerator. It is the system's number for a stream and for a datagram socket over IPv4;
  for the IPv6 types and the raw type it asks for another kind of socket.
\<close>

theorem Initialize_socket_call:
  "trace (snd (snd (Initialize os (CSimpleSocket t raw) e))) =
     trace e @ [case t of
        SocketTypeTcp \<Rightarrow> Sys_socket AF_INET SOCK_STREAM 0
      | SocketTypeUdp \<Rightarrow> Sys_socket AF_INET SOCK_DGRAM 0
      | SocketTypeTcp6 \<Rightarrow> Sys_socket AF_INET6 SOCK_RAW 0
      | SocketTypeUdp6 \<Rightarrow> Sys_socket AF_INET6 SOCK_RDM 0
      | SocketTypeRaw \<Rightarrow> Sys_socket AF_PACKET SOCK_SEQPACKET 0
      | SocketTypeInvalid \<Rightarrow> Sys_socket AF_INET 0 0]"
  by (cases t)
     (simp_all add: Initialize_def run_simps CSimpleSocket_def SetConnectTimeout_def)

text \<open>
  \<open>Initialize\<close> clears \<open>errno\<close> before it asks for a descriptor, so its result,
  the handle and the error code agree, whatever failed before: it returns true exactly when
  the handle is the descriptor obtained and the error is success.
\<close>

theorem Initialize_agrees:
  assumes "errno_only_on_failure os" and "failure_sets_errno os" and "int_results os"
    and "Initialize os s e = (b, s', e')"
  shows "b = IsSocketValid s' \<and> b = (GetSocketError s' = SocketSuccess)
         \<and> m_nSocketType s' = m_nSocketType s \<and> buffer_ok s' = buffer_ok s"
proof -
  define w where "w = snd (clock os (world e))"
  define c where "c = Sys_socket (m_nSocketDomain s) (socket_type_code (m_nSocketType s)) 0"
  define r where "r = fst (kernel os c w)"
  have s': "m_socket s' = i32 (ret r)" "m_socketErrno s' = translate_errno (set_errno r 0)"
    "m_nSocketType s' = m_nSocketType s" "m_pBuffer s' = m_pBuffer s"
    "m_nBufferSize s' = m_nBufferSize s" and b: "b = (m_socket s' \<noteq> -1)"
    using assms(4) by (auto simp: Initialize_def run_simps r_def c_def w_def)
  have m1: "(m_socket s' = -1) = (ret r = -1)"
    unfolding s' r_def using assms(3) by (intro int_results_minus_1) (simp_all add: c_def)
  have "(translate_errno (set_errno r 0) = SocketSuccess) = (ret r \<noteq> -1)"
    unfolding r_def by (rule error_agrees [OF assms(1,2)])
  then show ?thesis
    using b m1 s'(2,3) buffer_ok_cong [OF s'(4,5)]
    by (simp add: IsSocketValid_iff GetSocketError_def)
qed

theorem Initialize_agrees_witness:
  "let (b, s', e') = Initialize scripted (CSimpleSocket SocketTypeTcp raw_socket)
                       ((start_env [ok 7])\<lparr>errno := EINTR\<rparr>)
   in m_socket s' = 7 \<and> b \<and> GetSocketError s' = SocketSuccess"
proof -
  obtain b s' e' where eq: "Initialize scripted (CSimpleSocket SocketTypeTcp raw_socket)
      ((start_env [ok 7])\<lparr>errno := EINTR\<rparr>) = (b, s', e')" by (metis prod_cases3)
  have "m_socket s' = 7"
    using eq by (auto simp: Initialize_def run_simps)
  with Initialize_agrees [OF scripted_errno_only_on_failure scripted_failure_sets_errno
      scripted_int_results eq] show ?thesis by (auto simp: eq run_simps)
qed

text \<open>
  \<open>Close\<close> frees the buffer and closes the descriptor exactly when there is one. When
  the system closes it, the handle becomes invalid, so a second \<open>Close\<close> makes no call
  and returns false; when the system refuses, the handle is kept and closing it is tried
  again.
\<close>

theorem Close_closes_once:
  "let (b, s1, e1) = Close os s e; (b2, s2, e2) = Close os s1 e1
   in GetData s1 = None
      \<and> trace e1 = trace e @ (if IsSocketValid s then [Sys_close (m_socket s)] else [])
      \<and> b = (IsSocketValid s \<and> i32 (ret (fst (invoke os (Sys_close (m_socket s)) e))) \<noteq> -1)
      \<and> m_socket s1 = (if b then INVALID_SOCKET else m_socket s)
      \<and> trace e2 = trace e1 @ (if IsSocketValid s \<and> \<not> b then [Sys_close (m_socket s)] else [])
      \<and> b2 \<le> (IsSocketValid s \<and> \<not> b)"
proof (cases "m_socket s = -1")
  case True
  then show ?thesis by (simp add: run_simps GetData_def)
next
  case False
  then show ?thesis
    by (cases "i32 (ret (fst (invoke os (Sys_close (m_socket s)) e))) = -1")
       (simp_all add: Close_eq run_simps GetData_def)
qed

text \<open>
  Copying a socket that holds a buffer gives the copy a buffer of its own with the same
  bytes and leaves every other member of the copy, its handle and its error among them, as
  the raw memory was.
\<close>

theorem copy_only_copies_buffer:
  assumes "buffer_ok socket" and "GetData socket = Some b"
  shows "CSimpleSocket_copy socket raw =
           Returns (raw\<lparr>m_pBuffer := Some b, m_nBufferSize := m_nBufferSize socket\<rparr>)"
  using clone_buffer_ok [OF assms(1)] assms(2)
  by (simp add: CSimpleSocket_copy_def GetData_def)

theorem copy_only_copies_buffer_witness:
  "CSimpleSocket_copy ((demo_socket SocketTypeTcp 7)\<lparr>m_pBuffer := Some [1, 2], m_nBufferSize := 2\<rparr>)
     (raw_socket\<lparr>m_socket := 99\<rparr>) =
   Returns (raw_socket\<lparr>m_socket := 99, m_pBuffer := Some [1, 2], m_nBufferSize := 2\<rparr>)"
  using copy_only_copies_buffer
    [of "(demo_socket SocketTypeTcp 7)\<lparr>m_pBuffer := Some [1, 2], m_nBufferSize := 2\<rparr>" "[1, 2]"
        "raw_socket\<lparr>m_socket := 99\<rparr>"]
  by (simp add: buffer_ok_def GetData_def)

text \<open>
  \<open>Close\<close> and a failed \<open>Receive\<close> free the buffer but keep its recorded size, so
  copying the closed socket copies from a null pointer unless that size was zero.
\<close>

theorem copy_after_Close_faults:
  assumes "0 < sint (m_nBufferSize s)"
  shows "CSimpleSocket_copy (fst (snd (Close os s e))) raw = Faults NullCopy"
proof -
  have "m_nBufferSize (fst (snd (Close os s e))) = m_nBufferSize s"
    and "m_pBuffer (fst (snd (Close os s e))) = None"
    by (simp_all add: Close_eq run_simps)
  with assms show ?thesis by (auto simp: CSimpleSocket_copy_def clone_buffer_def)
qed

theorem copy_after_Close_faults_witness:
  "CSimpleSocket_copy
     (fst (snd (Close scripted ((demo_socket SocketTypeTcp 7)\<lparr>m_pBuffer := Some [0], m_nBufferSize := 1\<rparr>)
       (start_env [ok 0])))) raw_socket = Faults NullCopy"
  by (rule copy_after_Close_faults) simp

end
