(* ===== verification/Socket_Options.thy ===== *)
theory Socket_Options imports Object_Life begin

text \<open>
  The operations of \<open>CSimpleSocket\<close> that read and set socket options and flags:
  multicast, DSCP, window sizes, the Nagle algorithm, timeouts, address reuse, linger and
  the blocking mode. Those that make one \<open>setsockopt\<close> call and translate the error
  afterwards share the locale \<open>option_setter\<close>.
\<close>

unbundle bit_operations_syntax

definition setsockopt ::
  "'w os \<Rightarrow> SOCKET \<Rightarrow> int32 \<Rightarrow> int32 \<Rightarrow> optval \<Rightarrow> 'w env \<Rightarrow> int32 \<times> 'w env" where
  "setsockopt os fd level name v e =
     (let (r, e1) = invoke os (Sys_setsockopt fd level name v) e in (i32 (ret r), e1))"

section \<open>Multicast\<close>

definition BindInterface ::
  "'w os \<Rightarrow> string option \<Rightarrow> 'a csocket_scheme \<Rightarrow> 'w env \<Rightarrow> bool \<times> 'a csocket_scheme \<times> 'w env" where
  "BindInterface os pInterface s e =
     (if GetMulticast s = True then
        (case pInterface of
           Some ifname \<Rightarrow>
             (let stInterfaceAddr = inet_addr os ifname;
                  (r, e1) = setsockopt os (m_socket s) IPPROTO_IP IP_MULTICAST_IF
                              (Opt_in_addr stInterfaceAddr) e
              in if r = error_code SocketSuccess then (True, s, e1) else (False, s, e1))
         | None \<Rightarrow> (False, s, e))
      else (False, SetSocketError SocketProtocolError s, e))"

definition SetMulticast ::
  "'w os \<Rightarrow> bool \<Rightarrow> uint8 \<Rightarrow> 'a csocket_scheme \<Rightarrow> 'w env \<Rightarrow> bool \<times> 'a csocket_scheme \<times> 'w env" where
  "SetMulticast os bEnable multicastTTL s e =
     (if GetSocketType s = SocketTypeUdp then
        (let s1 = s\<lparr>m_bIsMulticast := bEnable\<rparr>;
             (r, e1) = setsockopt os (m_socket s1) IPPROTO_IP IP_MULTICAST_TTL (Opt_byte multicastTTL) e
         in if r = error_code SocketError then (False, TranslateSocketError s1 e1, e1)
            else (True, s1, e1))
      else (False, s\<lparr>m_socketErrno := SocketProtocolError\<rparr>, e))"

section \<open>DSCP\<close>

text \<open>
  C's division truncates towards zero and its right shift of a negative \<open>int\<close> copies
  the sign bit.
\<close>

definition c_div :: "int32 \<Rightarrow> int32 \<Rightarrow> int32" where
  "c_div a b = word_of_int (sgn (sint a) * sgn (sint b) * (\<bar>sint a\<bar> div \<bar>sint b\<bar>))"

definition SetSocketDscp ::
  "'w os \<Rightarrow> int32 \<Rightarrow> 'a csocket_scheme \<Rightarrow> 'w env \<Rightarrow> bool \<times> 'a csocket_scheme \<times> 'w env" where
  "SetSocketDscp os nDscp s e =
     (let nTempVal = c_div (push_bit 4 nDscp) 4
      in if IsSocketValid s then
           (let (r, e1) = setsockopt os (m_socket s) IPPROTO_IP IP_TOS (Opt_int nTempVal) e
            in if r = error_code SocketError then (False, TranslateSocketError s e1, e1)
               else (True, s, e1))
         else (True, s, e))"

definition GetSocketDscp ::
  "'w os \<Rightarrow> 'a csocket_scheme \<Rightarrow> 'w env \<Rightarrow> int32 \<times> 'a csocket_scheme \<times> 'w env" where
  "GetSocketDscp os s e =
     (if IsSocketValid s then
        (let nLen = 0;
             (r, e1) = invoke os (Sys_getsockopt (m_socket s) IPPROTO_IP IP_TOS (LenVar nLen)) e;
             nTempVal = store32 (data r) 0;
             s1 = (if i32 (ret r) = error_code SocketError then TranslateSocketError s e1 else s)
         in (signed_drop_bit 4 (nTempVal * 4), s1, e1))
      else (0, s, e))"

section \<open>Window sizes\<close>

definition GetWindowSize ::
  "'w os \<Rightarrow> int32 \<Rightarrow> 'a csocket_scheme \<Rightarrow> 'w env \<Rightarrow> uint32 \<times> 'a csocket_scheme \<times> 'w env" where
  "GetWindowSize os nOptionName s e =
     (if m_socket s \<noteq> error_code SocketError then
        (let nLen = 4;
             (r, e1) = invoke os (Sys_getsockopt (m_socket s) SOL_SOCKET nOptionName (LenVar nLen)) e;
             nTcpWinSize = store32 (data r) 0
         in (nTcpWinSize, TranslateSocketError s e1, e1))
      else (0, SetSocketError SocketInvalidSocket s, e))"

definition SetWindowSize ::
  "'w os \<Rightarrow> int32 \<Rightarrow> uint32 \<Rightarrow> 'a csocket_scheme \<Rightarrow> 'w env \<Rightarrow> uint32 \<times> 'a csocket_scheme \<times> 'w env" where
  "SetWindowSize os nOptionName nWindowSize s e =
     (if m_socket s \<noteq> error_code SocketError then
        (let (r, e1) = setsockopt os (m_socket s) SOL_SOCKET nOptionName (Opt_int nWindowSize) e
         in (nWindowSize, TranslateSocketError s e1, e1))
      else (nWindowSize, SetSocketError SocketInvalidSocket s, e))"

definition GetReceiveWindowSize ::
  "'w os \<Rightarrow> 'a csocket_scheme \<Rightarrow> 'w env \<Rightarrow> uint32 \<times> 'a csocket_scheme \<times> 'w env" where
  "GetReceiveWindowSize os s e = GetWindowSize os SO_RCVBUF s e"

definition GetSendWindowSize ::
  "'w os \<Rightarrow> 'a csocket_scheme \<Rightarrow> 'w env \<Rightarrow> uint32 \<times> 'a csocket_scheme \<times> 'w env" where
  "GetSendWindowSize os s e = GetWindowSize os SO_SNDBUF s e"

definition SetReceiveWindowSize ::
  "'w os \<Rightarrow> uint32 \<Rightarrow> 'a csocket_scheme \<Rightarrow> 'w env \<Rightarrow> uint32 \<times> 'a csocket_scheme \<times> 'w env" where
  "SetReceiveWindowSize os nWindowSize s e = SetWindowSize os SO_RCVBUF nWindowSize s e"

definition SetSendWindowSize ::
  "'w os \<Rightarrow> uint32 \<Rightarrow> 'a csocket_scheme \<Rightarrow> 'w env \<Rightarrow> uint32 \<times> 'a csocket_scheme \<times> 'w env" where
  "SetSendWindowSize os nWindowSize s e = SetWindowSize os SO_SNDBUF nWindowSize s e"

section \<open>The Nagle algorithm, address reuse, linger\<close>

definition DisableNagleAlgoritm ::
  "'w os \<Rightarrow> 'a csocket_scheme \<Rightarrow> 'w env \<Rightarrow> bool \<times> 'a csocket_scheme \<times> 'w env" where
  "DisableNagleAlgoritm os s e =
     (let nTcpNoDelay = 1;
          (r, e1) = setsockopt os (m_socket s) IPPROTO_TCP TCP_NODELAY (Opt_int nTcpNoDelay) e;
          bRetVal = (if r = 0 then True else False)
      in (bRetVal, TranslateSocketError s e1, e1))"

definition EnableNagleAlgoritm ::
  "'w os \<Rightarrow> 'a csocket_scheme \<Rightarrow> 'w env \<Rightarrow> bool \<times> 'a csocket_scheme \<times> 'w env" where
  "EnableNagleAlgoritm os s e =
     (let nTcpNoDelay = 0;
          (r, e1) = setsockopt os (m_socket s) IPPROTO_TCP TCP_NODELAY (Opt_int nTcpNoDelay) e;
          bRetVal = (if r = 0 then True else False)
      in (bRetVal, TranslateSocketError s e1, e1))"

definition SetOptionReuseAddr ::
  "'w os \<Rightarrow> 'a csocket_scheme \<Rightarrow> 'w env \<Rightarrow> bool \<times> 'a csocket_scheme \<times> 'w env" where
  "SetOptionReuseAddr os s e =
     (let nReuse = IPTOS_LOWDELAY;
          (r, e1) = setsockopt os (m_socket s) SOL_SOCKET SO_REUSEADDR (Opt_int nReuse) e;
          bRetVal = (if r = 0 then True else False)
      in (bRetVal, TranslateSocketError s e1, e1))"

definition SetOptionLinger ::
  "'w os \<Rightarrow> bool \<Rightarrow> uint16 \<Rightarrow> 'a csocket_scheme \<Rightarrow> 'w env \<Rightarrow> bool \<times> 'a csocket_scheme \<times> 'w env" where
  "SetOptionLinger os bEnable nTime s e =
     (let s1 = s\<lparr>m_stLinger := \<lparr>l_onoff = (if bEnable = True then 1 else 0), l_linger = ucast nTime\<rparr>\<rparr>;
          (r, e1) = setsockopt os (m_socket s1) SOL_SOCKET SO_LINGER (Opt_linger (m_stLinger s1)) e;
          bRetVal = (if r = 0 then True else False)
      in (bRetVal, TranslateSocketError s1 e1, e1))"

section \<open>Timeouts\<close>

definition SetReceiveTimeout ::
  "'w os \<Rightarrow> int32 \<Rightarrow> int32 \<Rightarrow> 'a csocket_scheme \<Rightarrow> 'w env \<Rightarrow> bool \<times> 'a csocket_scheme \<times> 'w env" where
  "SetReceiveTimeout os nRecvTimeoutSec nRecvTimeoutUsec s e =
     (let s1 = s\<lparr>m_stRecvTimeout := make_timeval nRecvTimeoutSec nRecvTimeoutUsec\<rparr>;
          (r, e1) = setsockopt os (m_socket s1) SOL_SOCKET SO_RCVTIMEO (Opt_timeval (m_stRecvTimeout s1)) e
      in if r = error_code SocketError then (False, TranslateSocketError s1 e1, e1)
         else (True, s1, e1))"

definition SetSendTimeout ::
  "'w os \<Rightarrow> int32 \<Rightarrow> int32 \<Rightarrow> 'a csocket_scheme \<Rightarrow> 'w env \<Rightarrow> bool \<times> 'a csocket_scheme \<times> 'w env" where
  "SetSendTimeout os nSendTimeoutSec nSendTimeoutUsec s e =
     (let s1 = s\<lparr>m_stSendTimeout := make_timeval nSendTimeoutSec nSendTimeoutUsec\<rparr>;
          (r, e1) = setsockopt os (m_socket s1) SOL_SOCKET SO_SNDTIMEO (Opt_timeval (m_stSendTimeout s1)) e
      in if r = error_code SocketError then (False, TranslateSocketError s1 e1, e1)
         else (True, s1, e1))"

section \<open>The blocking mode\<close>

definition SetNonblocking ::
  "'w os \<Rightarrow> 'a csocket_scheme \<Rightarrow> 'w env \<Rightarrow> bool \<times> 'a csocket_scheme \<times> 'w env" where
  "SetNonblocking os s e =
     (let (r, e1) = invoke os (Sys_fcntl (m_socket s) F_GETFL 0) e;
          nCurFlags = i32 (ret r)
      in if sint nCurFlags < 0 then (False, TranslateSocketError s e1, e1)
         else
           (let nCurFlags1 = nCurFlags OR O_NONBLOCK;
                (r2, e2) = invoke os (Sys_fcntl (m_socket s) F_SETFL nCurFlags1) e1
            in if i32 (ret r2) \<noteq> 0 then (False, TranslateSocketError s e2, e2)
               else (True, s\<lparr>m_bIsBlocking := False\<rparr>, e2)))"

definition SetBlocking ::
  "'w os \<Rightarrow> 'a csocket_scheme \<Rightarrow> 'w env \<Rightarrow> bool \<times> 'a csocket_scheme \<times> 'w env" where
  "SetBlocking os s e =
     (let (r, e1) = invoke os (Sys_fcntl (m_socket s) F_GETFL 0) e;
          nCurFlags = i32 (ret r)
      in if sint nCurFlags < 0 then (False, TranslateSocketError s e1, e1)
         else
           (let nCurFlags1 = nCurFlags AND (NOT O_NONBLOCK);
                (r2, e2) = invoke os (Sys_fcntl (m_socket s) F_SETFL nCurFlags1) e1
            in if i32 (ret r2) \<noteq> 0 then (False, TranslateSocketError s e2, e2)
               else (True, s\<lparr>m_bIsBlocking := True\<rparr>, e2)))"

section \<open>Setters of one option\<close>

text \<open>
  The contract of the operations that prepare the object, make one \<open>setsockopt\<close> call
  and translate the error whether or not it succeeded.
\<close>

locale option_setter =
  fixes setter :: "'a csocket_scheme \<Rightarrow> 'w env \<Rightarrow> bool \<times> 'a csocket_scheme \<times> 'w env"
    and os :: "'w os"
    and prep :: "'a csocket_scheme \<Rightarrow> 'a csocket_scheme"
    and option_call :: "'a csocket_scheme \<Rightarrow> syscall"
  assumes setter_eq:
    "setter s e = (let (r, e1) = invoke os (option_call s) e
                   in (i32 (ret r) = 0, TranslateSocketError (prep s) e1, e1))"
    and prep_keeps: "m_socket (prep s) = m_socket s \<and> m_pBuffer (prep s) = m_pBuffer s"
begin

lemma one_call: "trace (snd (snd (setter s e))) = trace e @ [option_call s]"
  by (simp add: setter_eq run_simps)

lemma result: "fst (setter s e) = (i32 (ret (fst (kernel os (option_call s) (world e)))) = 0)"
  by (simp add: setter_eq run_simps)

lemma keeps_handle:
  "m_socket (fst (snd (setter s e))) = m_socket s \<and> m_pBuffer (fst (snd (setter s e))) = m_pBuffer s"
  using prep_keeps by (simp add: setter_eq run_simps)

lemma error_after:
  "m_socketErrno (fst (snd (setter s e))) =
     translate_errno (set_errno (fst (kernel os (option_call s) (world e))) (errno e))"
  by (simp add: setter_eq run_simps)

text \<open>A successful call does not reset \<open>errno\<close>: the error reported is the one before.\<close>

lemma stale_error:
  assumes "errno_only_on_failure os" and "fst (setter s e)"
  shows "m_socketErrno (fst (snd (setter s e))) = translate_errno (errno e)"
proof -
  have "ret (fst (kernel os (option_call s) (world e))) \<noteq> -1" using assms(2) by (auto simp: result)
  then show ?thesis using errno_kept [OF assms(1)] by (simp add: error_after)
qed

lemma failure_reported:
  assumes "failure_sets_errno os" and "int_results os" and "\<not> fst (setter s e)"
    and "ret (fst (kernel os (option_call s) (world e))) \<in> {0, -1}"
  shows "m_socketErrno (fst (snd (setter s e))) \<noteq> SocketSuccess"
proof -
  have "ret (fst (kernel os (option_call s) (world e))) = -1" using assms(3,4) by (auto simp: result)
  then show ?thesis
    using errno_stored [OF assms(1)] by (simp add: error_after linux.success_iff)
qed

end

interpretation disable_nagle: option_setter "DisableNagleAlgoritm os" os "\<lambda>s. s"
  "\<lambda>s. Sys_setsockopt (m_socket s) IPPROTO_TCP TCP_NODELAY (Opt_int 1)" for os :: "'w os"
  by unfold_locales (simp_all add: DisableNagleAlgoritm_def setsockopt_def Let_def split_beta)

interpretation enable_nagle: option_setter "EnableNagleAlgoritm os" os "\<lambda>s. s"
  "\<lambda>s. Sys_setsockopt (m_socket s) IPPROTO_TCP TCP_NODELAY (Opt_int 0)" for os :: "'w os"
  by unfold_locales (simp_all add: EnableNagleAlgoritm_def setsockopt_def Let_def split_beta)

interpretation reuse_addr: option_setter "SetOptionReuseAddr os" os "\<lambda>s. s"
  "\<lambda>s. Sys_setsockopt (m_socket s) SOL_SOCKET SO_REUSEADDR (Opt_int 16)" for os :: "'w os"
  by unfold_locales (simp_all add: SetOptionReuseAddr_def setsockopt_def Let_def split_beta)

text \<open>The linger structure for the arguments of \<open>SetOptionLinger\<close>.\<close>

definition linger_of :: "bool \<Rightarrow> uint16 \<Rightarrow> linger" where
  "linger_of on t = \<lparr>l_onoff = (if on then 1 else 0), l_linger = ucast t\<rparr>"

interpretation set_linger: option_setter "SetOptionLinger os on t" os
  "\<lambda>s. s\<lparr>m_stLinger := linger_of on t\<rparr>"
  "\<lambda>s. Sys_setsockopt (m_socket s) SOL_SOCKET SO_LINGER (Opt_linger (linger_of on t))"
  for os :: "'w os" and on :: bool and t :: uint16
  by unfold_locales
     (simp_all add: SetOptionLinger_def setsockopt_def linger_of_def Let_def split_beta)

section \<open>Properties\<close>

text \<open>
  The Nagle, address reuse and linger operations each make one \<open>setsockopt\<close> call
  on the socket's own handle, with the option and the value that their name says, and
  return whether it answered zero.
\<close>

theorem option_calls:
  "trace (snd (snd (DisableNagleAlgoritm os s e)))
     = trace e @ [Sys_setsockopt (m_socket s) IPPROTO_TCP TCP_NODELAY (Opt_int 1)]
   \<and> trace (snd (snd (EnableNagleAlgoritm os s e)))
     = trace e @ [Sys_setsockopt (m_socket s) IPPROTO_TCP TCP_NODELAY (Opt_int 0)]
   \<and> trace (snd (snd (SetOptionReuseAddr os s e)))
     = trace e @ [Sys_setsockopt (m_socket s) SOL_SOCKET SO_REUSEADDR (Opt_int 16)]
   \<and> trace (snd (snd (SetOptionLinger os on t s e)))
     = trace e @ [Sys_setsockopt (m_socket s) SOL_SOCKET SO_LINGER
                    (Opt_linger \<lparr>l_onoff = (if on then 1 else 0), l_linger = ucast t\<rparr>)]
   \<and> fst (SetOptionLinger os on t s e)
     = (i32 (ret (fst (invoke os (Sys_setsockopt (m_socket s) SOL_SOCKET SO_LINGER
          (Opt_linger \<lparr>l_onoff = (if on then 1 else 0), l_linger = ucast t\<rparr>)) e))) = 0)"
  unfolding fst_invoke linger_of_def [symmetric]
  by (intro conjI disable_nagle.one_call enable_nagle.one_call reuse_addr.one_call
      set_linger.one_call set_linger.result)

text \<open>
  When the system accepts the option, these operations return true, and the error code
  they leave is the translation of whatever \<open>errno\<close> an earlier call left behind: it is
  success only if nothing failed before.
\<close>

theorem successful_option_keeps_old_error:
  assumes "errno_only_on_failure os"
    and "DisableNagleAlgoritm os s e = (True, s1, e1)"
    and "SetOptionReuseAddr os s e = (True, s2, e2)"
  shows "GetSocketError s1 = translate_errno (errno e) \<and> GetSocketError s2 = translate_errno (errno e)
         \<and> (GetSocketError s1 = SocketSuccess) = (errno e = 0)"
  using disable_nagle.stale_error [OF assms(1), of s e] reuse_addr.stale_error [OF assms(1), of s e]
  by (simp add: assms(2,3) GetSocketError_def linux.success_iff)

theorem successful_option_keeps_old_error_witness:
  "let s = demo_socket SocketTypeTcp 7; e = (start_env [ok 0])\<lparr>errno := ENOTCONN\<rparr>;
       (b, s1, e1) = DisableNagleAlgoritm scripted s e
   in b \<and> GetSocketError s1 = SocketNotconnected"
proof -
  let ?s = "demo_socket SocketTypeTcp 7" and ?e = "(start_env [ok 0])\<lparr>errno := ENOTCONN\<rparr>"
  obtain b s1 e1 where 1: "DisableNagleAlgoritm scripted ?s ?e = (b, s1, e1)" by (metis prod_cases3)
  obtain c s2 e2 where 2: "SetOptionReuseAddr scripted ?s ?e = (c, s2, e2)" by (metis prod_cases3)
  have b: "b" "c"
    using disable_nagle.result [of scripted ?s ?e] reuse_addr.result [of scripted ?s ?e]
    by (simp_all add: 1 2)
  have "GetSocketError s1 = translate_errno (errno ?e)"
    using successful_option_keeps_old_error [OF scripted_errno_only_on_failure, of ?s ?e s1 e1 s2 e2]
      1 2 b by simp
  then show ?thesis using b by (simp add: Let_def 1 translate_errno_def)
qed

lemma ucast_scast_int32: "(ucast (scast (x :: int32) :: int64) :: int32) = x"
  by (rule bit_word_eqI) (simp add: bit_simps)

lemmas timeout_getters = GetReceiveTimeoutSec_def GetReceiveTimeoutUSec_def GetSendTimeoutSec_def
        GetSendTimeoutUSec_def make_timeval_def ucast_scast_int32

text \<open>
  The timeouts set are the ones read back, whether or not the system accepts them: a
  refusal is reported, but the members are changed before the call.
\<close>

theorem timeouts_read_back:
  "let (b, s1, e1) = SetReceiveTimeout os sec usec s e;
       (b2, s2, e2) = SetSendTimeout os sec2 usec2 s1 e1
   in (GetReceiveTimeoutSec s2, GetReceiveTimeoutUSec s2) = (sec, usec)
      \<and> (GetSendTimeoutSec s2, GetSendTimeoutUSec s2) = (sec2, usec2)
      \<and> trace e2 = trace e @ [Sys_setsockopt (m_socket s) SOL_SOCKET SO_RCVTIMEO (Opt_timeval (make_timeval sec usec)),
                              Sys_setsockopt (m_socket s) SOL_SOCKET SO_SNDTIMEO (Opt_timeval (make_timeval sec2 usec2))]
      \<and> b = (i32 (ret (fst (invoke os (Sys_setsockopt (m_socket s) SOL_SOCKET SO_RCVTIMEO
                       (Opt_timeval (make_timeval sec usec))) e))) \<noteq> -1)"
proof -
  obtain b s1 e1 where 1: "SetReceiveTimeout os sec usec s e = (b, s1, e1)" by (metis prod_cases3)
  obtain b2 s2 e2 where 2: "SetSendTimeout os sec2 usec2 s1 e1 = (b2, s2, e2)" by (metis prod_cases3)
  have s1: "m_stRecvTimeout s1 = make_timeval sec usec" "m_socket s1 = m_socket s"
    and b: "b = (i32 (ret (fst (invoke os (Sys_setsockopt (m_socket s) SOL_SOCKET SO_RCVTIMEO
                       (Opt_timeval (make_timeval sec usec))) e))) \<noteq> -1)"
    and e1: "trace e1 = trace e @ [Sys_setsockopt (m_socket s) SOL_SOCKET SO_RCVTIMEO (Opt_timeval (make_timeval sec usec))]"
    using 1 by (auto simp: SetReceiveTimeout_def setsockopt_def TranslateSocketError_def
        SetSocketError_def Let_def split_beta split: if_splits)
  have s2: "m_stSendTimeout s2 = make_timeval sec2 usec2" "m_stRecvTimeout s2 = m_stRecvTimeout s1"
    and e2: "trace e2 = trace e1 @ [Sys_setsockopt (m_socket s1) SOL_SOCKET SO_SNDTIMEO (Opt_timeval (make_timeval sec2 usec2))]"
    using 2 by (auto simp: SetSendTimeout_def setsockopt_def TranslateSocketError_def
        SetSocketError_def Let_def split_beta split: if_splits)
  show ?thesis
    using s1 s2 b e1 e2 by (simp add: 1 2) (simp add: timeout_getters)
qed

text \<open>
  Only a UDP socket accepts multicast. For others the error is a protocol error and no
  call is made. For a UDP socket the flag changes even when the system refuses the time to
  live and the operation returns false.
\<close>

theorem SetMulticast_changes_flag:
  "let (b, s1, e1) = SetMulticast os enable ttl s e
   in GetMulticast s1 = (if GetSocketType s = SocketTypeUdp then enable else GetMulticast s)
      \<and> trace e1 = (if GetSocketType s = SocketTypeUdp
           then trace e @ [Sys_setsockopt (m_socket s) IPPROTO_IP IP_MULTICAST_TTL (Opt_byte ttl)]
           else trace e)
      \<and> b = (GetSocketType s = SocketTypeUdp
             \<and> i32 (ret (fst (invoke os (Sys_setsockopt (m_socket s) IPPROTO_IP IP_MULTICAST_TTL (Opt_byte ttl)) e))) \<noteq> -1)
      \<and> (GetSocketType s = SocketTypeUdp \<or> GetSocketError s1 = SocketProtocolError)"
  by (cases "GetSocketType s = SocketTypeUdp")
     (simp_all add: SetMulticast_def setsockopt_def run_simps GetMulticast_def)

text \<open>
  The documented bound of \<open>getsockopt\<close>: it stores at most as many bytes as the length
  variable holds, and cannot use a wild pointer.
\<close>

definition getsockopt_bounded :: "'w os \<Rightarrow> bool" where
  "getsockopt_bounded os \<longleftrightarrow>
     (\<forall>fd l n k w. length (data (fst (kernel os (Sys_getsockopt fd l n (LenVar k)) w))) \<le> k)"

text \<open>
  \<open>GetSocketDscp\<close> gives \<open>getsockopt\<close> a length of zero, so the system stores
  nothing and the result is zero whatever the DSCP of the socket is.
\<close>

theorem GetSocketDscp_is_zero:
  assumes "getsockopt_bounded os"
  shows "fst (GetSocketDscp os s e) = 0"
proof -
  have "length (data (fst (kernel os (Sys_getsockopt (m_socket s) 0 1 (LenVar 0)) (world e)))) \<le> 0"
    using assms unfolding getsockopt_bounded_def by blast
  then show ?thesis by (simp add: GetSocketDscp_def run_simps)
qed

text \<open>A kernel that keeps the TOS byte of one socket.\<close>

definition tos_os :: "uint32 os" where
  "tos_os =
     \<lparr>kernel = (\<lambda>c w. case c of
         Sys_setsockopt fd l n (Opt_int v) \<Rightarrow> (ok 0, v)
       | Sys_getsockopt fd l n (LenVar k) \<Rightarrow> ((ok 0)\<lparr>data := take k (to_bytes32 w)\<rparr>, w)
       | _ \<Rightarrow> (fail EINVAL, w)),
      clock = (\<lambda>w. (timeval_zero, w)), inet_addr = (\<lambda>p. 0), inet_ntoa = (\<lambda>a. []), uninit = (\<lambda>i. 0)\<rparr>"

theorem GetSocketDscp_is_zero_witness:
  "let s = demo_socket SocketTypeTcp 7;
       e = \<lparr>errno = 0, h_errno = 0, world = 0, trace = []\<rparr>;
       (b, s1, e1) = SetSocketDscp tos_os 46 s e
   in b \<and> world e1 = 184 \<and> fst (GetSocketDscp tos_os s1 e1) = 0"
proof -
  have "getsockopt_bounded tos_os"
    by (simp add: getsockopt_bounded_def tos_os_def)
  from GetSocketDscp_is_zero [OF this] show ?thesis
    by (simp add: SetSocketDscp_def setsockopt_def run_simps tos_os_def c_div_def)
qed

text \<open>
  The value that \<open>SetSocketDscp\<close> passes to the system is four times its argument:
  the six bits of the DSCP in the upper bits of the TOS byte. The conversion of
  \<open>GetSocketDscp\<close> undoes it.
\<close>

theorem SetSocketDscp_shifts:
  assumes "0 \<le> sint d" and "sint d < 2 ^ 27" and "IsSocketValid s"
  shows "trace (snd (snd (SetSocketDscp os d s e)))
           = trace e @ [Sys_setsockopt (m_socket s) IPPROTO_IP IP_TOS (Opt_int (4 * d))]
         \<and> signed_drop_bit 4 ((4 * d) * 4) = d"
proof -
  have s16: "sint (16 * d) = 16 * sint d"
  proof -
    have d: "16 * d = i32 (16 * sint d)" by simp
    have "sint (i32 (16 * sint d)) = 16 * sint d"
      using assms(1,2) by (intro sint_i32) simp_all
    then show ?thesis by (simp only: flip: d)
  qed
  have p: "push_bit 4 d = 16 * d" by (simp add: push_bit_eq_mult)
  have "c_div (push_bit 4 d) 4 = word_of_int (4 * sint d)"
    using assms(1) by (cases "sint d = 0") (simp_all add: c_div_def p s16 zsgn_def)
  then have v: "c_div (push_bit 4 d) 4 = 4 * d" by simp
  have "sint (signed_drop_bit 4 (4 * d * 4)) = sint d"
    using s16 by (simp add: sint_signed_drop_bit_eq drop_bit_eq_div mult.commute)
  then have "signed_drop_bit 4 (4 * d * 4) = d" by (rule signed_word_eqI)
  with v show ?thesis using assms(3) by (simp add: SetSocketDscp_def setsockopt_def run_simps)
qed

theorem SetSocketDscp_shifts_witness:
  "trace (snd (snd (SetSocketDscp tos_os 46 (demo_socket SocketTypeTcp 7)
     \<lparr>errno = 0, h_errno = 0, world = 0, trace = []\<rparr>)))
     = [Sys_setsockopt 7 IPPROTO_IP IP_TOS (Opt_int 184)]"
  using SetSocketDscp_shifts [of 46 "demo_socket SocketTypeTcp 7" tos_os
      "\<lparr>errno = 0, h_errno = 0, world = 0, trace = []\<rparr>"]
  by (simp add: IsSocketValid_iff)

section \<open>The blocking flag mirrors the descriptor\<close>

text \<open>
  The documented behaviour of \<open>fcntl\<close> on one descriptor, over the descriptor's status
  flags \<open>flags\<close>: reading returns them (they are not negative) or fails, and leaves them; writing fails
  and leaves them, or replaces those among the \<open>settable\<close> flags, of which \<open>O_NONBLOCK\<close> is one, and
  ignores the others, the access mode among them.
\<close>

definition fcntl_law :: "'w os \<Rightarrow> SOCKET \<Rightarrow> int32 \<Rightarrow> ('w \<Rightarrow> int32) \<Rightarrow> bool" where
  "fcntl_law os fd settable flags \<longleftrightarrow> bit settable 11
     \<and> (\<forall>w. 0 \<le> sint (flags w)
        \<and> ret (fst (kernel os (Sys_fcntl fd F_GETFL 0) w)) \<in> {sint (flags w), -1}
        \<and> flags (snd (kernel os (Sys_fcntl fd F_GETFL 0) w)) = flags w)
     \<and> (\<forall>w f. ret (fst (kernel os (Sys_fcntl fd F_SETFL f) w)) \<in> {0, -1}
        \<and> flags (snd (kernel os (Sys_fcntl fd F_SETFL f) w)) =
            (if ret (fst (kernel os (Sys_fcntl fd F_SETFL f) w)) = 0
             then flags w AND NOT settable OR f AND settable else flags w))"

lemma bit_push_bit_1: "bit (push_bit k (1 :: int32)) n \<longleftrightarrow> n = k \<and> n < 32"
  by (auto simp: bit_simps)

lemma bit_O_NONBLOCK: "bit (O_NONBLOCK :: int32) n \<longleftrightarrow> n = 11"
  using bit_push_bit_1 [of 11 n] by (auto simp: push_bit_eq_mult)

lemma fcntl_get:
  assumes "fcntl_law os fd settable flags"
  shows "0 \<le> sint (flags w)" "flags (snd (kernel os (Sys_fcntl fd F_GETFL 0) w)) = flags w"
    "i32 (ret (fst (kernel os (Sys_fcntl fd F_GETFL 0) w))) \<in> {flags w, -1}"
proof -
  have "ret (fst (kernel os (Sys_fcntl fd F_GETFL 0) w)) \<in> {sint (flags w), -1}"
    using assms unfolding fcntl_law_def by blast
  then show "i32 (ret (fst (kernel os (Sys_fcntl fd F_GETFL 0) w))) \<in> {flags w, -1}" by auto
qed (use assms in \<open>simp_all add: fcntl_law_def\<close>)

lemma fcntl_set:
  assumes "fcntl_law os fd settable flags"
  shows "flags (snd (kernel os (Sys_fcntl fd F_SETFL f) w)) =
    (if i32 (ret (fst (kernel os (Sys_fcntl fd F_SETFL f) w))) = 0
     then flags w AND NOT settable OR f AND settable else flags w)"
proof -
  have "ret (fst (kernel os (Sys_fcntl fd F_SETFL f) w)) \<in> {0, -1}"
    using assms unfolding fcntl_law_def by blast
  moreover have "flags (snd (kernel os (Sys_fcntl fd F_SETFL f) w)) =
      (if ret (fst (kernel os (Sys_fcntl fd F_SETFL f) w)) = 0 then flags w AND NOT settable OR f AND settable else flags w)"
    using assms unfolding fcntl_law_def by blast
  ultimately show ?thesis by auto
qed

text \<open>Writing back what was read with the flag set, or cleared, changes the flag alone.\<close>

lemma masked_word:
  fixes k m w :: int32
  assumes "\<And>n. bit k n \<Longrightarrow> bit m n"
  shows "w AND NOT m OR (w OR k) AND m = w OR k" and "w AND NOT m OR (w AND NOT k) AND m = w AND NOT k"
  by (rule bit_word_eqI, use assms in \<open>auto simp: bit_and_iff bit_or_iff bit_not_iff\<close>)+

lemma masked_flag:
  fixes m w :: int32
  assumes "bit m 11"
  shows "w AND NOT m OR (w OR O_NONBLOCK) AND m = w OR O_NONBLOCK"
    and "w AND NOT m OR (w AND NOT O_NONBLOCK) AND m = w AND NOT O_NONBLOCK"
proof -
  have m: "bit m n" if "bit (O_NONBLOCK :: int32) n" for n using that assms unfolding bit_O_NONBLOCK by simp
  show "w AND NOT m OR (w OR O_NONBLOCK) AND m = w OR O_NONBLOCK" by (rule masked_word(1)) (rule m)
  show "w AND NOT m OR (w AND NOT O_NONBLOCK) AND m = w AND NOT O_NONBLOCK" by (rule masked_word(2)) (rule m)
qed

lemma SetNonblocking_flags:
  assumes "fcntl_law os (m_socket s) settable flags"
  shows "let (b, s1, e1) = SetNonblocking os s e
         in flags (world e1) = (if b then flags (world e) OR O_NONBLOCK else flags (world e))
            \<and> m_bIsBlocking s1 = (m_bIsBlocking s \<and> \<not> b) \<and> m_socket s1 = m_socket s"
proof -
  have m: "bit settable 11" using assms by (simp add: fcntl_law_def)
  show ?thesis
    using fcntl_get [OF assms, of "world e"]
    by (cases "i32 (ret (fst (kernel os (Sys_fcntl (m_socket s) F_GETFL 0) (world e)))) = -1")
       (simp_all add: SetNonblocking_def run_simps not_less fcntl_set [OF assms] masked_flag(1) [OF m])
qed

lemma SetBlocking_flags:
  assumes "fcntl_law os (m_socket s) settable flags"
  shows "let (b, s1, e1) = SetBlocking os s e
         in flags (world e1) = (if b then flags (world e) AND NOT O_NONBLOCK else flags (world e))
            \<and> m_bIsBlocking s1 = (m_bIsBlocking s \<or> b) \<and> m_socket s1 = m_socket s"
proof -
  have m: "bit settable 11" using assms by (simp add: fcntl_law_def)
  show ?thesis
    using fcntl_get [OF assms, of "world e"]
    by (cases "i32 (ret (fst (kernel os (Sys_fcntl (m_socket s) F_GETFL 0) (world e)))) = -1")
       (simp_all add: SetBlocking_def run_simps not_less fcntl_set [OF assms] masked_flag(2) [OF m, simplified])
qed

text \<open>
  C35. The object's blocking mode and the descriptor's \<open>O_NONBLOCK\<close> flag stay in step, on a system
  whose \<open>fcntl\<close> does what is documented: reading the flags may fail, writing them may fail, and a write that succeeds
  replaces the flags that can be set, \<open>O_NONBLOCK\<close> among them, and ignores the others. If they agree
  before \<open>SetNonblocking\<close> and \<open>SetBlocking\<close>, called one after the other, they agree after each, whether it succeeds or fails
  in either of its calls. A success changes that flag alone, and a failure changes no flag.
\<close>

theorem blocking_mode_mirrors_descriptor:
  assumes law: "fcntl_law os (m_socket s) settable flags"
    and agree: "IsNonblocking s = bit (flags (world e)) 11"
  shows "let (b, s1, e1) = SetNonblocking os s e; (b2, s2, e2) = SetBlocking os s1 e1
         in IsNonblocking s1 = bit (flags (world e1)) 11
            \<and> IsNonblocking s2 = bit (flags (world e2)) 11
            \<and> flags (world e1) = (if b then flags (world e) OR O_NONBLOCK else flags (world e))
            \<and> flags (world e2) = (if b2 then flags (world e1) AND NOT O_NONBLOCK else flags (world e1))"
proof -
  obtain b s1 e1 where 1: "SetNonblocking os s e = (b, s1, e1)" by (metis prod_cases3)
  obtain b2 s2 e2 where 2: "SetBlocking os s1 e1 = (b2, s2, e2)" by (metis prod_cases3)
  have s1: "m_socket s1 = m_socket s" using SetNonblocking_flags [OF law, of e] by (simp add: 1)
  show ?thesis
    using agree SetNonblocking_flags [OF law, of e] SetBlocking_flags [of os s1 settable flags e1] law
    by (auto simp: 1 2 s1 IsNonblocking_def bit_simps bit_O_NONBLOCK)
qed

text \<open>
  A kernel whose state is the status flags of one descriptor, of which \<open>O_APPEND\<close>, \<open>O_NONBLOCK\<close>,
  \<open>O_ASYNC\<close>, \<open>O_DIRECT\<close> and \<open>O_NOATIME\<close> can be set, as on Linux.
\<close>

definition status_flags :: "int32 \<Rightarrow> int32" where
  "status_flags w = (if 0 \<le> sint w then w else 0)"

abbreviation (input) settable_flags :: int32 where "settable_flags \<equiv> 0x46C00"

definition flag_os :: "int32 os" where
  "flag_os =
     \<lparr>kernel = (\<lambda>c w. case c of
         Sys_fcntl fd op f \<Rightarrow>
           (let w' = status_flags w AND NOT settable_flags OR f AND settable_flags in
            if fd = -1 then (fail EBADF, w)
            else if op = F_GETFL then (ok (sint (status_flags w)), w)
            else if 0 \<le> sint w' then (ok 0, w') else (fail EINVAL, w))
       | _ \<Rightarrow> (fail EINVAL, w)),
      clock = (\<lambda>w. (timeval_zero, w)), inet_addr = (\<lambda>p. 0), inet_ntoa = (\<lambda>a. []), uninit = (\<lambda>i. 0)\<rparr>"

lemma flag_os_law: "fcntl_law flag_os fd settable_flags status_flags"
proof -
  have "bit settable_flags 11" by (simp add: bit_numeral_rec)
  moreover have "0 \<le> sint (status_flags w)" for w by (simp add: status_flags_def)
  ultimately show ?thesis
    by (cases "fd = -1") (simp_all add: fcntl_law_def flag_os_def Let_def, simp add: status_flags_def)
qed

theorem blocking_mode_mirrors_descriptor_witness:
  "let s = demo_socket SocketTypeTcp 7; e = \<lparr>errno = 0, h_errno = 0, world = 2, trace = []\<rparr>;
       (b, s1, e1) = SetNonblocking flag_os s e
   in b \<and> world e1 = 2050 \<and> IsNonblocking s1"
proof -
  let ?s = "demo_socket SocketTypeTcp 7"
    and ?e = "\<lparr>errno = 0, h_errno = 0, world = 2, trace = []\<rparr> :: int32 env"
  have "IsNonblocking ?s = bit (status_flags (world ?e)) 11"
    by (simp add: IsNonblocking_def status_flags_def bit_numeral_rec)
  from blocking_mode_mirrors_descriptor [OF flag_os_law this]
  show ?thesis by (simp add: SetNonblocking_def run_simps flag_os_def status_flags_def IsNonblocking_def Let_def)
qed

end
