(* ===== verification/Retry_Loop.thy ===== *)
theory Retry_Loop imports Simple_Socket begin

text \<open>
  The contract of the loops \<open>do { call } while (error == SocketInterrupted)\<close> that
  \<open>Send\<close>, \<open>Receive\<close> and \<open>Accept\<close> run around a system call. \<open>retry_loop\<close> is what
  all of them satisfy. \<open>errno_retry_loop\<close> adds what is true of all but
  \<open>Accept\<close>: the error that decides is the translation of the current \<open>errno\<close>, which
  no pass resets.
\<close>

locale retry_loop =
  fixes attempt :: "'s \<Rightarrow> 's outcome"
    and again :: "'s \<Rightarrow> bool"
    and status :: "'s \<Rightarrow> CSocketError"
  assumes attempt_finishes: "attempt x \<noteq> Diverges"
    and again_iff: "again x \<longleftrightarrow> status x = SocketInterrupted"
begin

lemma settles:
  "attempt x = Returns y \<Longrightarrow> status y \<noteq> SocketInterrupted \<Longrightarrow> do_while attempt again x = Returns y"
  by (rule do_while_once) (simp_all add: again_iff)

lemma repeats:
  "attempt x = Returns y \<Longrightarrow> status y = SocketInterrupted \<Longrightarrow>
     do_while attempt again x = do_while attempt again y"
  by (rule do_while_again) (simp_all add: again_iff)

text \<open>After \<open>k\<close> interrupted passes, the loop goes on from the state they lead to.\<close>

lemma settles_after:
  assumes "\<And>i. i < k \<Longrightarrow> attempt (\<sigma> i) = Returns (\<sigma> (Suc i)) \<and> status (\<sigma> (Suc i)) = SocketInterrupted"
    and "attempt (\<sigma> k) = Returns y" and "status y \<noteq> SocketInterrupted"
  shows "do_while attempt again (\<sigma> 0) = Returns y"
proof -
  have "do_while attempt again (\<sigma> 0) = do_while attempt again (\<sigma> k)"
    using assms(1) by (intro do_while_passes) (simp add: again_iff)
  also have "\<dots> = Returns y" using assms(2,3) by (rule settles)
  finally show ?thesis .
qed

text \<open>What the loop returns is the result of a pass that was not interrupted.\<close>

lemma returned:
  assumes "do_while attempt again x = Returns y"
  shows "status y \<noteq> SocketInterrupted \<and> (\<exists>x'. attempt x' = Returns y)"
  using do_while_rule [OF assms, of "\<lambda>_. True" "\<lambda>y. \<exists>x'. attempt x' = Returns y"]
  by (auto simp: again_iff)

lemma keeps:
  assumes "do_while attempt again x = Returns y" and "P x"
    and "\<And>x y. P x \<Longrightarrow> attempt x = Returns y \<Longrightarrow> P y"
  shows "P y"
  using do_while_rule [OF assms(1), of P P] assms(2,3) by blast

lemma never_settles:
  assumes "P x"
    and "\<And>x. P x \<Longrightarrow> \<exists>y. attempt x = Returns y \<and> status y = SocketInterrupted \<and> P y"
  shows "do_while attempt again x = Diverges"
  using assms(1) by (rule do_while_diverges) (use assms(2) in \<open>auto simp: again_iff\<close>)

lemma settles_in_time:
  fixes v :: "'s \<Rightarrow> nat"
  assumes "P x"
    and "\<And>x. P x \<Longrightarrow> \<exists>y. attempt x = Returns y \<and>
           (status y = SocketInterrupted \<longrightarrow> P y \<and> v y < v x)"
  shows "\<exists>y. do_while attempt again x = Returns y"
  using assms(1) by (rule do_while_total [where v = v]) (use assms(2) in \<open>auto simp: again_iff\<close>)

end

locale errno_retry_loop = retry_loop attempt again status
  for attempt :: "'s \<Rightarrow> 's outcome" and again :: "'s \<Rightarrow> bool" and status :: "'s \<Rightarrow> CSocketError" +
  fixes last_errno :: "'s \<Rightarrow> int"
  assumes status_is_errno: "attempt x = Returns y \<Longrightarrow> status y = translate_errno (last_errno y)"
begin

lemma settles_unless_EINTR:
  "attempt x = Returns y \<Longrightarrow> last_errno y \<noteq> EINTR \<Longrightarrow> do_while attempt again x = Returns y"
  by (rule settles) (simp_all add: status_is_errno linux.interrupted_iff)

lemma returned_errno:
  assumes "do_while attempt again x = Returns y"
  shows "last_errno y \<noteq> EINTR \<and> status y = translate_errno (last_errno y)"
  using returned [OF assms] status_is_errno by (auto simp: linux.interrupted_iff)

text \<open>
  An \<open>errno\<close> of \<open>EINTR\<close> that the passes leave alone keeps the loop going for ever.
\<close>

lemma stuck_on_EINTR:
  assumes "P x"
    and "\<And>x. P x \<Longrightarrow> \<exists>y. attempt x = Returns y \<and> last_errno y = EINTR \<and> P y"
  shows "do_while attempt again x = Diverges"
  using assms(1)
proof (rule never_settles)
  fix x assume "P x"
  then obtain y where y: "attempt x = Returns y" "last_errno y = EINTR" "P y"
    using assms(2) by blast
  then have "status y = SocketInterrupted"
    by (simp add: status_is_errno linux.interrupted_iff)
  with y show "\<exists>y. attempt x = Returns y \<and> status y = SocketInterrupted \<and> P y" by blast
qed

end

end
