(* ===== verification/Socket_Transfer.thy ===== *)
theory Socket_Transfer imports Socket_Options Retry_Loop begin

text \<open>
  Moving data: \<open>Send\<close>, \<open>Receive\<close>, the vector forms, \<open>Flush\<close> and
  \<open>SendFile\<close> of \<open>CSimpleSocket\<close>. The loops that repeat an interrupted call are
  \<^const>\<open>do_while\<close> loops; what they share is the locale \<open>retry_loop\<close>.
\<close>

section \<open>Send\<close>

text \<open>
  A buffer pointer with a byte count: the bytes the call reads through it. The array it
  points to must be at least that long.
\<close>

definition read_buffer :: "byte list \<Rightarrow> nat \<Rightarrow> byte list outcome" where
  "read_buffer buf n = (if n \<le> length buf then Returns (take n buf) else Faults PointerOutOfBounds)"

text \<open>The body of the loop of \<open>Send\<close>, for a stream and for a datagram socket.\<close>

definition send_attempt ::
  "'w os \<Rightarrow> byte list \<Rightarrow> 'a csocket_scheme \<times> 'w env \<Rightarrow> ('a csocket_scheme \<times> 'w env) outcome" where
  "send_attempt os bytes = (\<lambda>(s, e).
     let (r, e1) = invoke os (Sys_send (m_socket s) bytes 0) e;
         s1 = s\<lparr>m_nBytesSent := i32 (ret r)\<rparr>
     in Returns (TranslateSocketError s1 e1, e1))"

definition sendto_attempt ::
  "'w os \<Rightarrow> byte list \<Rightarrow> 'a csocket_scheme \<times> 'w env \<Rightarrow> ('a csocket_scheme \<times> 'w env) outcome" where
  "sendto_attempt os bytes = (\<lambda>(s, e).
     let (r, e1) = invoke os (Sys_sendto (m_socket s) bytes 0 (m_stServerSockaddr s)) e;
         s1 = s\<lparr>m_nBytesSent := i32 (ret r)\<rparr>
     in Returns (TranslateSocketError s1 e1, e1))"

definition interrupted :: "'a csocket_scheme \<times> 'b \<Rightarrow> bool" where
  "interrupted x \<longleftrightarrow> GetSocketError (fst x) = SocketInterrupted"

definition Send ::
  "'w os \<Rightarrow> byte list option \<Rightarrow> nat \<Rightarrow> 'a csocket_scheme \<Rightarrow> 'w env \<Rightarrow>
     (int32 \<times> 'a csocket_scheme \<times> 'w env) outcome" where
  "Send os pBuf bytesToSend s e =
     (let s0 = (SetSocketError SocketSuccess s)\<lparr>m_nBytesSent := 0\<rparr>
      in obind
        (case m_nSocketType s0 of
           SocketTypeTcp \<Rightarrow>
             (if IsSocketValid s0 \<and> 0 < bytesToSend \<and> pBuf \<noteq> None then
                (let (s1, e1) = timer_start os s0 e
                 in obind (read_buffer (the pBuf) bytesToSend) (\<lambda>bytes.
                    obind (do_while (send_attempt os bytes) interrupted (s1, e1)) (\<lambda>(s2, e2).
                    Returns (timer_end os s2 e2))))
              else Returns (s0, e))
         | SocketTypeUdp \<Rightarrow>
             (if IsSocketValid s0 \<and> 0 < bytesToSend \<and> pBuf \<noteq> None then
                (let (s1, e1) = timer_start os s0 e
                 in obind (read_buffer (the pBuf) bytesToSend) (\<lambda>bytes.
                    obind (do_while (sendto_attempt os bytes) interrupted (s1, e1)) (\<lambda>(s2, e2).
                    Returns (timer_end os s2 e2))))
              else Returns (s0, e))
         | _ \<Rightarrow> Returns (s0, e))
        (\<lambda>(s', e'). Returns (m_nBytesSent s', s', e')))"

text \<open>An element of the vector form: base pointer and length.\<close>

record iovec =
  iov_base :: "byte list option"
  iov_len :: nat

definition Send_vector ::
  "'w os \<Rightarrow> byte list list \<Rightarrow> int32 \<Rightarrow> 'a csocket_scheme \<Rightarrow> 'w env \<Rightarrow>
     int32 \<times> 'a csocket_scheme \<times> 'w env" where
  "Send_vector os sendVector nNumItems s e =
     (let s0 = (SetSocketError SocketSuccess s)\<lparr>m_nBytesSent := 0\<rparr>;
          (r, e1) = invoke os (Sys_writev (m_socket s0) sendVector nNumItems) e;
          s1 = s0\<lparr>m_nBytesSent := i32 (ret r)\<rparr>;
          s2 = (if m_nBytesSent s1 = error_code SocketError then TranslateSocketError s1 e1 else s1)
      in (m_nBytesSent s2, s2, e1))"

section \<open>Flush and Writev\<close>

text \<open>
  \<open>Send\<close> is virtual, so these two take the object's own \<open>Send\<close> as an argument.
  The last argument of the \<open>getsockopt\<close> call of \<open>Flush\<close> is \<open>sizeof(int32)\<close>, which
  the macro \<open>GETSOCKOPT\<close> casts to a pointer.
\<close>

type_synonym ('a, 'w) send_method =
  "byte list option \<Rightarrow> nat \<Rightarrow> 'a csocket_scheme \<Rightarrow> 'w env \<Rightarrow>
     (int32 \<times> 'a csocket_scheme \<times> 'w env) outcome"

definition Flush ::
  "'w os \<Rightarrow> ('a, 'w) send_method \<Rightarrow> 'a csocket_scheme \<Rightarrow> 'w env \<Rightarrow>
     (bool \<times> 'a csocket_scheme \<times> 'w env) outcome" where
  "Flush os send s e =
     (let nTcpNoDelay = 1;
          (r, e1) = invoke os (Sys_getsockopt (m_socket s) IPPROTO_TCP TCP_NODELAY (WildPointer 4)) e;
          nCurFlags = store32 (data r) 0
      in if i32 (ret r) = 0 then
           (let (r2, e2) = setsockopt os (m_socket s) IPPROTO_TCP TCP_NODELAY (Opt_int nTcpNoDelay) e1
            in obind
              (if r2 = 0 then
                 obind (send (Some [0]) 0 s e2) (\<lambda>(n, s3, e3).
                 Returns (n \<noteq> error_code SocketError, TranslateSocketError s3 e3, e3))
               else Returns (False, s, e2))
              (\<lambda>(bRetVal, s4, e4).
                 let (r5, e5) = setsockopt os (m_socket s4) IPPROTO_TCP TCP_NODELAY (Opt_int nCurFlags) e4
                 in Returns (bRetVal, s4, e5)))
         else Returns (False, s, e1))"

text \<open>
  The loop of \<open>Writev\<close>: it returns the number \<open>i\<close> of elements sent before it stopped
  and the bytes sent, an \<open>int\<close> whose addition must not overflow. The vector is the
  list of its \<open>nCount\<close> elements, of which there are fewer than \<open>2^31\<close>.
\<close>

fun writev_loop ::
  "(byte list option \<Rightarrow> nat \<Rightarrow> 'a csocket_scheme \<Rightarrow> 'e \<Rightarrow> (int32 \<times> 'a csocket_scheme \<times> 'e) outcome) \<Rightarrow>
     iovec list \<Rightarrow> nat \<Rightarrow> int32 \<Rightarrow> 'a csocket_scheme \<Rightarrow> 'e \<Rightarrow> (nat \<times> int32 \<times> 'a csocket_scheme \<times> 'e) outcome" where
  "writev_loop send [] i nBytesSent s e = Returns (i, nBytesSent, s, e)"
| "writev_loop send (v # vs) i nBytesSent s e =
     obind (send (iov_base v) (iov_len v) s e) (\<lambda>(nBytes, s1, e1).
       if nBytes = error_code SocketError then Returns (i, nBytesSent, s1, e1)
       else if sint nBytesSent + sint nBytes < - (2 ^ 31) \<or> 2 ^ 31 \<le> sint nBytesSent + sint nBytes
            then Faults SignedOverflow
       else writev_loop send vs (Suc i) (nBytesSent + nBytes) s1 e1)"

definition Writev ::
  "'w os \<Rightarrow> ('a, 'w) send_method \<Rightarrow> iovec list \<Rightarrow> 'a csocket_scheme \<Rightarrow> 'w env \<Rightarrow>
     (int32 \<times> 'a csocket_scheme \<times> 'w env) outcome" where
  "Writev os send pVector s e =
     obind (writev_loop send pVector 0 0 s e) (\<lambda>(i, nBytesSent, s1, e1).
       if 0 < i then
         obind (Flush os send s1 e1) (\<lambda>(b, s2, e2). Returns (nBytesSent, s2, e2))
       else Returns (nBytesSent, s1, e1))"

section \<open>Receive\<close>

text \<open>
  The state of the receive loop: the object, the environment and the contents of the array
  that \<open>pWorkBuffer\<close> points to. The call of \<open>recv\<close> stores at
  \<open>pWorkBuffer + m_nBytesReceived\<close>.
\<close>

type_synonym ('a, 'w) receive_state = "'a csocket_scheme \<times> 'w env \<times> byte list"

definition recv_attempt ::
  "'w os \<Rightarrow> int32 \<Rightarrow> ('a, 'w) receive_state \<Rightarrow> ('a, 'w) receive_state outcome" where
  "recv_attempt os nMaxBytes = (\<lambda>(s, e, buf).
     let (r, e1) = invoke os (Sys_recv (m_socket s) nMaxBytes (m_nFlags s)) e
     in obind (store_at buf (sint (m_nBytesReceived s)) (data r)) (\<lambda>buf1.
        let s1 = s\<lparr>m_nBytesReceived := i32 (ret r)\<rparr>
        in Returns (TranslateSocketError s1 e1, e1, buf1)))"

text \<open>\<open>recvfrom\<close> stores at \<open>pWorkBuffer\<close>, and the sender's address in the member given.\<close>

definition recvfrom_multicast_attempt ::
  "'w os \<Rightarrow> int32 \<Rightarrow> ('a, 'w) receive_state \<Rightarrow> ('a, 'w) receive_state outcome" where
  "recvfrom_multicast_attempt os nMaxBytes = (\<lambda>(s, e, buf).
     let (r, e1) = invoke os (Sys_recvfrom (m_socket s) nMaxBytes 0) e
     in obind (store_at buf 0 (data r)) (\<lambda>buf1.
        let s1 = (case addr r of None \<Rightarrow> s | Some a \<Rightarrow> s\<lparr>m_stMulticastGroup := a\<rparr>);
            s2 = s1\<lparr>m_nBytesReceived := i32 (ret r)\<rparr>
        in Returns (TranslateSocketError s2 e1, e1, buf1)))"

definition recvfrom_attempt ::
  "'w os \<Rightarrow> int32 \<Rightarrow> ('a, 'w) receive_state \<Rightarrow> ('a, 'w) receive_state outcome" where
  "recvfrom_attempt os nMaxBytes = (\<lambda>(s, e, buf).
     let (r, e1) = invoke os (Sys_recvfrom (m_socket s) nMaxBytes 0) e
     in obind (store_at buf 0 (data r)) (\<lambda>buf1.
        let s1 = (case addr r of None \<Rightarrow> s | Some a \<Rightarrow> s\<lparr>m_stClientSockaddr := a\<rparr>);
            s2 = s1\<lparr>m_nBytesReceived := i32 (ret r)\<rparr>
        in Returns (TranslateSocketError s2 e1, e1, buf1)))"

text \<open>Free the internal buffer if its size is not the one wanted, then allocate it if there is none.\<close>

definition prepare_buffer ::
  "'w os \<Rightarrow> int32 \<Rightarrow> 'a csocket_scheme \<Rightarrow> 'a csocket_scheme outcome" where
  "prepare_buffer os nMaxBytes s =
     (let s1 = (if m_pBuffer s \<noteq> None \<and> nMaxBytes \<noteq> m_nBufferSize s then s\<lparr>m_pBuffer := None\<rparr> else s)
      in if m_pBuffer s1 = None then
           (let s2 = s1\<lparr>m_nBufferSize := nMaxBytes\<rparr>
            in if sint nMaxBytes < 0 then Faults BadArrayLength
               else Returns (s2\<lparr>m_pBuffer := Some (map (uninit os) [0..<nat (sint nMaxBytes)])\<rparr>))
         else Returns s1)"

text \<open>
  \<open>Receive\<close> returns the count and the caller's buffer (none for a null pointer). With a
  null pointer the data goes to the internal buffer, which \<open>GetData\<close> returns.
\<close>

definition Receive ::
  "'w os \<Rightarrow> int32 \<Rightarrow> byte list option \<Rightarrow> 'a csocket_scheme \<Rightarrow> 'w env \<Rightarrow>
     (int32 \<times> byte list option \<times> 'a csocket_scheme \<times> 'w env) outcome" where
  "Receive os nMaxBytes pBuffer s e =
     (let s0 = s\<lparr>m_nBytesReceived := 0\<rparr>
      in if IsSocketValid s0 = False then Returns (m_nBytesReceived s0, pBuffer, s0, e)
         else
           obind (if pBuffer = None then prepare_buffer os nMaxBytes s0 else Returns s0) (\<lambda>s1.
             let pWorkBuffer = (case pBuffer of None \<Rightarrow> the (m_pBuffer s1) | Some b \<Rightarrow> b);
                 s2 = SetSocketError SocketSuccess s1;
                 (s3, e3) = timer_start os s2 e
             in obind
               (case m_nSocketType s3 of
                  SocketTypeTcp \<Rightarrow>
                    do_while (recv_attempt os nMaxBytes) interrupted (s3, e3, pWorkBuffer)
                | SocketTypeUdp \<Rightarrow>
                    (if GetMulticast s3 = True
                     then do_while (recvfrom_multicast_attempt os nMaxBytes) interrupted (s3, e3, pWorkBuffer)
                     else do_while (recvfrom_attempt os nMaxBytes) interrupted (s3, e3, pWorkBuffer))
                | _ \<Rightarrow> Returns (s3, e3, pWorkBuffer))
               (\<lambda>(s4, e4, buf).
                  let s5 = (if pBuffer = None then s4\<lparr>m_pBuffer := Some buf\<rparr> else s4);
                      (s6, e6) = timer_end os s5 e4;
                      s7 = TranslateSocketError s6 e6;
                      s8 = (if m_nBytesReceived s7 = error_code SocketError \<and> m_pBuffer s7 \<noteq> None
                            then s7\<lparr>m_pBuffer := None\<rparr> else s7)
                  in Returns (m_nBytesReceived s8, (if pBuffer = None then None else Some buf), s8, e6))))"

section \<open>SendFile\<close>

abbreviation (input) SOCKET_SENDFILE_BLOCKSIZE :: int32 where "SOCKET_SENDFILE_BLOCKSIZE \<equiv> 8192"

text \<open>
  The loop of \<open>SendFile\<close>; none stands for the early \<open>return -1\<close>. A read that
  returns the full count has filled \<open>szData\<close> with the data of the reply. The
  subtraction of the first line overflows for \<open>nCount = INT_MAX\<close> and \<open>nOutCount = -1\<close>.
\<close>

function sendfile_loop ::
  "'w os \<Rightarrow> int32 \<Rightarrow> int32 \<Rightarrow> int32 \<Rightarrow> int32 \<Rightarrow> 'w env \<Rightarrow> (int32 option \<times> 'w env) outcome" where
  "sendfile_loop os nOutFd nInFd nCount nOutCount e =
     (if sint nOutCount < sint nCount then
        (if 2 ^ 31 \<le> sint nCount - sint nOutCount then Faults SignedOverflow
         else
           (let nInCount = (if sint (nCount - nOutCount) < sint SOCKET_SENDFILE_BLOCKSIZE
                            then nCount - nOutCount else SOCKET_SENDFILE_BLOCKSIZE);
                (r1, e1) = invoke os (Sys_read nInFd nInCount) e
            in if i32 (ret r1) \<noteq> nInCount then Returns (None, e1)
               else
                 (let (r2, e2) = invoke os (Sys_send nOutFd (take (nat (sint nInCount)) (data r1)) 0) e1
                  in if i32 (ret r2) \<noteq> nInCount then Returns (None, e2)
                     else sendfile_loop os nOutFd nInFd nCount (nOutCount + nInCount) e2)))
      else Returns (Some nOutCount, e))"
  by pat_completeness auto

lemma sint_minus_range:
  fixes a b :: int32
  assumes "- (2 ^ 31) \<le> sint a - sint b" "sint a - sint b < 2 ^ 31"
  shows "sint (a - b) = sint a - sint b"
proof -
  have "a - b = i32 (sint a - sint b)" by simp
  then show ?thesis using assms by (simp only: sint_i32)
qed

lemma sint_plus_range:
  fixes a b :: int32
  assumes "- (2 ^ 31) \<le> sint a + sint b" "sint a + sint b < 2 ^ 31"
  shows "sint (a + b) = sint a + sint b"
proof -
  have "a + b = i32 (sint a + sint b)" by simp
  then show ?thesis using assms by (simp only: sint_i32)
qed

text \<open>The size of a block: at least one byte, never past the end.\<close>

definition block_size :: "int32 \<Rightarrow> int32 \<Rightarrow> int32" where
  "block_size nCount nOutCount =
     (if sint (nCount - nOutCount) < sint SOCKET_SENDFILE_BLOCKSIZE
      then nCount - nOutCount else SOCKET_SENDFILE_BLOCKSIZE)"

lemma sint_range: "- (2 ^ 31) \<le> sint (a :: int32)" "sint (a :: int32) < 2 ^ 31"
  using sint_ge [of a] sint_lt [of a] by auto

lemma sint_block_size:
  assumes "sint out < sint n" "sint n - sint out < 2 ^ 31"
  shows "sint (block_size n out) = min (sint n - sint out) 8192"
  using assms sint_minus_range [of n out] by (simp add: block_size_def)

lemma sint_next_block:
  assumes "sint out < sint n" "sint n - sint out < 2 ^ 31"
  shows "sint (out + block_size n out) = sint out + min (sint n - sint out) 8192"
  using assms sint_block_size [of out n] sint_range [of n] sint_range [of out]
  by (subst sint_plus_range) auto

termination sendfile_loop
proof (relation "measure (\<lambda>(os, nOutFd, nInFd, nCount, nOutCount, e). nat (sint nCount - sint nOutCount))",
    goal_cases)
  case 1
  then show ?case by simp
next
  case (2 os nOutFd nInFd nCount nOutCount e x xa y xb xc xd ya)
  then have "sint nOutCount < sint nCount" "sint nCount - sint nOutCount < 2 ^ 31" by auto
  with 2(3) sint_next_block [of nOutCount nCount] show ?case
    by (simp add: block_size_def)
qed

declare sendfile_loop.simps [simp del]

definition SendFile ::
  "'w os \<Rightarrow> int32 \<Rightarrow> int32 \<Rightarrow> int64 \<Rightarrow> int32 \<Rightarrow> 'a csocket_scheme \<Rightarrow> 'w env \<Rightarrow>
     (int32 \<times> int64 \<times> 'a csocket_scheme \<times> 'w env) outcome" where
  "SendFile os nOutFd nInFd pOffset nCount s e =
     (let nOutCount = error_code SocketError;
          (r, e1) = invoke os (Sys_lseek nInFd pOffset SEEK_SET) e
      in if ret r = -1 then Returns (-1, pOffset, s, e1)
         else
           obind (sendfile_loop os nOutFd nInFd nCount nOutCount e1) (\<lambda>(n, e2).
             case n of
               None \<Rightarrow> Returns (-1, pOffset, s, e2)
             | Some n' \<Rightarrow> Returns (n', pOffset + scast n', TranslateSocketError s e2, e2)))"

section \<open>The loops as retry loops\<close>

interpretation send: errno_retry_loop "send_attempt os bytes" interrupted
  "\<lambda>x. m_socketErrno (fst x)" "\<lambda>x. errno (snd x)" for os :: "'w os" and bytes
  by unfold_locales
     (auto simp: send_attempt_def interrupted_def run_simps)

interpretation sendto: errno_retry_loop "sendto_attempt os bytes" interrupted
  "\<lambda>x. m_socketErrno (fst x)" "\<lambda>x. errno (snd x)" for os :: "'w os" and bytes
  by unfold_locales
     (auto simp: sendto_attempt_def interrupted_def run_simps)

interpretation recv: errno_retry_loop "recv_attempt os n" interrupted
  "\<lambda>x. m_socketErrno (fst x)" "\<lambda>x. errno (fst (snd x))" for os :: "'w os" and n
  by unfold_locales
     (auto simp: recv_attempt_def interrupted_def run_simps obind_eq_Diverges obind_eq_Returns)

interpretation recvfrom: errno_retry_loop "recvfrom_attempt os n" interrupted
  "\<lambda>x. m_socketErrno (fst x)" "\<lambda>x. errno (fst (snd x))" for os :: "'w os" and n
  by unfold_locales
     (auto simp: recvfrom_attempt_def interrupted_def run_simps obind_eq_Diverges obind_eq_Returns)

interpretation recvmulti: errno_retry_loop "recvfrom_multicast_attempt os n" interrupted
  "\<lambda>x. m_socketErrno (fst x)" "\<lambda>x. errno (fst (snd x))" for os :: "'w os" and n
  by unfold_locales
     (auto simp: recvfrom_multicast_attempt_def interrupted_def run_simps
       obind_eq_Diverges obind_eq_Returns)

section \<open>Running Send\<close>

text \<open>
  The call that one pass of \<open>Send\<close> makes, its loop body, and the state in which the
  loop starts.
\<close>

definition send_call :: "'a csocket_scheme \<Rightarrow> byte list \<Rightarrow> syscall" where
  "send_call s bytes =
     (if m_nSocketType s = SocketTypeTcp then Sys_send (m_socket s) bytes 0
      else Sys_sendto (m_socket s) bytes 0 (m_stServerSockaddr s))"

definition send_body ::
  "'w os \<Rightarrow> CSocketType \<Rightarrow> byte list \<Rightarrow> 'a csocket_scheme \<times> 'w env \<Rightarrow> ('a csocket_scheme \<times> 'w env) outcome" where
  "send_body os t bytes = (if t = SocketTypeTcp then send_attempt os bytes else sendto_attempt os bytes)"

definition send_start :: "'w os \<Rightarrow> 'a csocket_scheme \<Rightarrow> 'w env \<Rightarrow> 'a csocket_scheme \<times> 'w env" where
  "send_start os s e = timer_start os ((SetSocketError SocketSuccess s)\<lparr>m_nBytesSent := 0\<rparr>) e"

definition sends_data :: "byte list option \<Rightarrow> nat \<Rightarrow> 'a csocket_scheme \<Rightarrow> bool" where
  "sends_data pBuf n s \<longleftrightarrow>
     m_nSocketType s \<in> {SocketTypeTcp, SocketTypeUdp} \<and> IsSocketValid s \<and> 0 < n \<and> pBuf \<noteq> None"

lemma Send_loop:
  assumes "sends_data (Some buf) n s" and "n \<le> length buf"
  shows "Send os (Some buf) n s e =
    obind (do_while (send_body os (m_nSocketType s) (take n buf)) interrupted (send_start os s e))
      (\<lambda>(s2, e2). let (s3, e3) = timer_end os s2 e2 in Returns (m_nBytesSent s3, s3, e3))"
proof -
  obtain s1 e1 where se: "timer_start os ((SetSocketError SocketSuccess s)\<lparr>m_nBytesSent := 0\<rparr>) e = (s1, e1)"
    by fastforce
  from assms(1) consider "m_nSocketType s = SocketTypeTcp" | "m_nSocketType s = SocketTypeUdp"
    by (auto simp: sends_data_def)
  then show ?thesis
    using assms
    by cases (simp_all add: Send_def sends_data_def IsSocketValid_iff SetSocketError_def read_buffer_def
        send_body_def send_start_def se [unfolded SetSocketError_def] obind_assoc Let_def case_prod_unfold)
qed

lemma send_body_eq:
  assumes "m_nSocketType s = t" and "t \<in> {SocketTypeTcp, SocketTypeUdp}"
  shows "send_body os t bytes (s, e) =
    (let (r, e1) = invoke os (send_call s bytes) e
     in Returns (TranslateSocketError (s\<lparr>m_nBytesSent := i32 (ret r)\<rparr>) e1, e1))"
  using assms by (auto simp: send_body_def send_attempt_def sendto_attempt_def send_call_def Let_def split_beta)

lemma send_settles:
  assumes "send_body os t bytes x = Returns y" and "errno (snd y) \<noteq> EINTR"
  shows "do_while (send_body os t bytes) interrupted x = Returns y"
  using assms send.settles_unless_EINTR sendto.settles_unless_EINTR
  by (cases "t = SocketTypeTcp") (simp_all add: send_body_def)

lemma send_stuck:
  assumes "P x"
    and "\<And>x. P x \<Longrightarrow> \<exists>y. send_body os t bytes x = Returns y \<and> errno (snd y) = EINTR \<and> P y"
  shows "do_while (send_body os t bytes) interrupted x = Diverges"
proof (cases "t = SocketTypeTcp")
  case True
  then have b: "send_body os t bytes = send_attempt os bytes" by (simp add: send_body_def)
  show ?thesis unfolding b by (rule send.stuck_on_EINTR [of P, OF assms(1)]) (use assms(2) [unfolded b] in blast)
next
  case False
  then have b: "send_body os t bytes = sendto_attempt os bytes" by (simp add: send_body_def)
  show ?thesis unfolding b by (rule sendto.stuck_on_EINTR [of P, OF assms(1)]) (use assms(2) [unfolded b] in blast)
qed

text \<open>A \<open>Send\<close> whose first call is not interrupted.\<close>

lemma Send_once:
  assumes "sends_data (Some buf) n s" and "n \<le> length buf"
    and "kernel os (send_call s (take n buf)) (snd (clock os (world e))) = (r, w)"
    and "set_errno r (errno e) \<noteq> EINTR"
  shows "\<exists>s' e'. Send os (Some buf) n s e = Returns (i32 (ret r), s', e')
     \<and> trace e' = trace e @ [send_call s (take n buf)]
     \<and> GetBytesSent s' = i32 (ret r)
     \<and> GetSocketError s' = translate_errno (set_errno r (errno e))
     \<and> m_socket s' = m_socket s \<and> m_nSocketType s' = m_nSocketType s
     \<and> errno e' = set_errno r (errno e) \<and> world e' = snd (clock os w)"
proof -
  obtain s1 e1 where se: "send_start os s e = (s1, e1)" by fastforce
  have s1: "m_nSocketType s1 = m_nSocketType s" "m_socket s1 = m_socket s"
    "m_stServerSockaddr s1 = m_stServerSockaddr s" "world e1 = snd (clock os (world e))"
    "errno e1 = errno e" "trace e1 = trace e"
    using se by (auto simp: send_start_def run_simps)
  have c: "send_call s1 bytes = send_call s bytes" for bytes
    by (simp add: send_call_def s1)
  define y where "y = (TranslateSocketError (s1\<lparr>m_nBytesSent := i32 (ret r)\<rparr>)
      (snd (invoke os (send_call s (take n buf)) e1)), snd (invoke os (send_call s (take n buf)) e1))"
  have "send_body os (m_nSocketType s) (take n buf) (s1, e1) = Returns y"
    using assms(1,3) s1 by (simp add: send_body_eq sends_data_def y_def c fst_invoke Let_def split_beta)
  moreover have "errno (snd y) \<noteq> EINTR"
    using assms(3,4) s1 by (simp add: y_def snd_invoke)
  ultimately have "do_while (send_body os (m_nSocketType s) (take n buf)) interrupted (s1, e1) = Returns y"
    by (rule send_settles)
  then show ?thesis
    using assms(3) s1
    by (simp add: Send_loop [OF assms(1,2)] se y_def run_simps GetBytesSent_def GetSocketDescriptor_def)
qed

lemma Send_idle:
  assumes "\<not> sends_data pBuf n s"
  shows "Send os pBuf n s e = Returns (0, (SetSocketError SocketSuccess s)\<lparr>m_nBytesSent := 0\<rparr>, e)"
  using assms
  by (cases "m_nSocketType s") (auto simp: Send_def sends_data_def run_simps)

section \<open>Properties of Send\<close>

text \<open>
  C7. On a stream or a datagram socket, when the first call is not interrupted and no
  \<open>EINTR\<close> is left over from an earlier call, \<open>Send\<close> makes one call with exactly the
  bytes given, returns and records its result, and translates its error.
\<close>

theorem Send_sends_once:
  assumes "sends_data (Some buf) n s" and "n \<le> length buf"
    and "kernel os (send_call s (take n buf)) (snd (clock os (world e))) = (r, w)"
    and "set_errno r (errno e) \<noteq> EINTR"
  shows "\<exists>s' e'. Send os (Some buf) n s e = Returns (i32 (ret r), s', e')
     \<and> trace e' = trace e @ [send_call s (take n buf)]
     \<and> GetBytesSent s' = i32 (ret r)
     \<and> GetSocketError s' = translate_errno (set_errno r (errno e))
     \<and> GetSocketDescriptor s' = GetSocketDescriptor s"
  using Send_once [OF assms] by (auto simp: GetSocketDescriptor_def)

theorem Send_sends_once_witness:
  "\<exists>s' e'. Send scripted (Some [104, 105, 33]) 2 (demo_socket SocketTypeTcp 7) (start_env [ok 2])
      = Returns (2, s', e')
    \<and> trace e' = [Sys_send 7 [104, 105] 0] \<and> GetSocketError s' = SocketSuccess"
proof -
  have "kernel scripted (send_call (demo_socket SocketTypeTcp 7) (take 2 [104, 105, 33]))
      (snd (clock scripted (world (start_env [ok 2])))) = (ok 2, [])" by simp
  from Send_sends_once [OF _ _ this] show ?thesis
    by (fastforce simp: sends_data_def IsSocketValid_iff send_call_def translate_errno_def)
qed

text \<open>
  With an invalid handle, nothing to send, a null pointer or another socket type,
  \<open>Send\<close> returns zero and reports success without a call.
\<close>

theorem Send_does_nothing:
  assumes "\<not> sends_data pBuf n s"
  shows "Send os pBuf n s e = Returns (0, (SetSocketError SocketSuccess s)\<lparr>m_nBytesSent := 0\<rparr>, e)"
  using assms by (rule Send_idle)

theorem Send_does_nothing_witness:
  "Send scripted None 5 (demo_socket SocketTypeTcp 7) (start_env [])
     = Returns (0, (SetSocketError SocketSuccess (demo_socket SocketTypeTcp 7))\<lparr>m_nBytesSent := 0\<rparr>,
         start_env [])"
  by (rule Send_does_nothing) (simp add: sends_data_def)

text \<open>
  C13. When a signal interrupts the first call and the system then accepts the data each
  time, as calls that succeed leave \<open>errno\<close> alone, the loop of \<open>Send\<close> still sees
  \<open>EINTR\<close> after every success: it sends the same bytes again and again and never returns.
\<close>

theorem interrupted_Send_never_returns:
  fixes os :: "'w os" and s :: "'a csocket_scheme"
  assumes "sends_data (Some buf) n s" and "n \<le> length buf"
    and "kernel os (send_call s (take n buf)) (snd (clock os (world e))) = (r, w)"
    and "err r = Some EINTR" and "I w"
    and "\<And>v. I v \<Longrightarrow> err (fst (kernel os (send_call s (take n buf)) v)) = None
                    \<and> I (snd (kernel os (send_call s (take n buf)) v))"
  shows "Send os (Some buf) n s e = Diverges"
proof -
  let ?c = "send_call s (take n buf)"
  let ?body = "send_body os (m_nSocketType s) (take n buf)"
  define Q where "Q = (\<lambda>x :: 'a csocket_scheme \<times> 'w env. m_nSocketType (fst x) = m_nSocketType s
     \<and> m_socket (fst x) = m_socket s \<and> m_stServerSockaddr (fst x) = m_stServerSockaddr s)"
  define P where "P = (\<lambda>x :: 'a csocket_scheme \<times> 'w env. Q x \<and>
     (world (snd x) = snd (clock os (world e)) \<or> (errno (snd x) = EINTR \<and> I (world (snd x)))))"
  have call: "send_call (fst x) b = send_call s b" if "Q x" for x b
    using that by (simp add: Q_def send_call_def)
  have "do_while ?body interrupted (send_start os s e) = Diverges"
  proof (rule send_stuck [where P = P])
    show "P (send_start os s e)"
      by (simp add: P_def Q_def send_start_def run_simps)
    fix x assume x: "P x"
    then have q: "Q x" by (simp add: P_def)
    let ?e1 = "snd (invoke os ?c (snd x))" and ?r = "fst (invoke os ?c (snd x))"
    let ?y = "(TranslateSocketError ((fst x)\<lparr>m_nBytesSent := i32 (ret ?r)\<rparr>) ?e1, ?e1)"
    have "?body x = Returns ?y"
      using send_body_eq [of "fst x" "m_nSocketType s" os "take n buf" "snd x"] q assms(1)
      by (simp add: Q_def call [OF q] sends_data_def Let_def split_beta)
    moreover have "errno ?e1 = EINTR \<and> I (world ?e1)"
    proof (cases "world (snd x) = snd (clock os (world e))")
      case True
      then show ?thesis using assms(3-5) by (simp add: snd_invoke set_errno_def)
    next
      case False
      then have "errno (snd x) = EINTR" "I (world (snd x))" using x by (simp_all add: P_def)
      then show ?thesis using assms(6) [of "world (snd x)"] by (simp add: snd_invoke set_errno_def)
    qed
    moreover from this q have "P ?y"
      by (simp add: P_def Q_def TranslateSocketError_def SetSocketError_def)
    ultimately show "\<exists>y. ?body x = Returns y \<and> errno (snd y) = EINTR \<and> P y"
      by (intro exI [of _ ?y]) simp
  qed
  then show ?thesis by (simp add: Send_loop [OF assms(1,2)])
qed

text \<open>A kernel that interrupts the first call it gets and accepts every later one.\<close>

definition signal_os :: "nat os" where
  "signal_os =
     \<lparr>kernel = (\<lambda>c w. (if w = 0 then fail EINTR else ok 1, Suc w)),
      clock = (\<lambda>w. (timeval_zero, w)), inet_addr = (\<lambda>p. 0), inet_ntoa = (\<lambda>a. []), uninit = (\<lambda>i. 0)\<rparr>"

theorem interrupted_Send_never_returns_witness:
  "Send signal_os (Some [42]) 1 (demo_socket SocketTypeTcp 7)
     \<lparr>errno = 0, h_errno = 0, world = 0, trace = []\<rparr> = Diverges"
proof (rule interrupted_Send_never_returns [where I = "\<lambda>w. 0 < w" and r = "fail EINTR" and w = 1])
  show "sends_data (Some [42]) 1 (demo_socket SocketTypeTcp 7)"
    by (simp add: sends_data_def IsSocketValid_iff)
qed (simp_all add: signal_os_def ok_def fail_def)

end
