(* ===== verification/Socket_Select.thy ===== *)
theory Socket_Select imports Socket_Options begin

text \<open>
  \<open>CSimpleSocket::Select\<close>: waiting for the socket with the \<open>select\<close> call, and
  fetching the pending error. \<open>FD_SET\<close> indexes an array of \<open>FD_SETSIZE\<close> bits with
  the descriptor; outside it the access is undefined.
\<close>

definition fd_in_range :: "SOCKET \<Rightarrow> bool" where
  "fd_in_range fd \<longleftrightarrow> 0 \<le> sint fd \<and> sint fd < FD_SETSIZE"

definition Select ::
  "'w os \<Rightarrow> int32 \<Rightarrow> int32 \<Rightarrow> 'a csocket_scheme \<Rightarrow> 'w env \<Rightarrow>
     (bool \<times> 'a csocket_scheme \<times> 'w env) outcome" where
  "Select os nTimeoutSec nTimeoutUSec s e =
     (if \<not> fd_in_range (m_socket s) then Faults FdSetOverrun
      else
        (let fd = sint (m_socket s);
             s1 = s\<lparr>m_errorFds := {fd}, m_readFds := {fd}, m_writeFds := {fd}\<rparr>;
             pTimeout = (if 0 < sint nTimeoutSec \<or> 0 < sint nTimeoutUSec
                         then Some (make_timeval nTimeoutSec nTimeoutUSec) else None);
             (r, e1) = invoke os (Sys_select (m_socket s1 + 1) (m_readFds s1) (m_writeFds s1)
                                    (m_errorFds s1) pTimeout) e;
             nNumDescriptors = i32 (ret r);
             s2 = (case fdsets r of
                     None \<Rightarrow> s1
                   | Some (rd, wr, er) \<Rightarrow> s1\<lparr>m_readFds := rd, m_writeFds := wr, m_errorFds := er\<rparr>)
         in if nNumDescriptors = 0 then Returns (False, SetSocketError SocketTimedout s2, e1)
            else if fd \<in> m_readFds s2 \<or> fd \<in> m_writeFds s2 then
              (let (r2, e2) = invoke os (Sys_getsockopt (m_socket s2) SOL_SOCKET SO_ERROR (LenVar 4)) e1;
                   nError = store32 (data r2) 0;
                   (bRetVal, e3) = (if i32 (ret r2) = 0
                                    then (nError = 0, e2\<lparr>errno := sint nError\<rparr>)
                                    else (False, e2))
               in Returns (bRetVal, TranslateSocketError s2 e3, e3))
            else Returns (False, s2, e1)))"

text \<open>\<open>Select()\<close> with no timeout.\<close>

definition Select_forever ::
  "'w os \<Rightarrow> 'a csocket_scheme \<Rightarrow> 'w env \<Rightarrow> (bool \<times> 'a csocket_scheme \<times> 'w env) outcome" where
  "Select_forever os s e = Select os 0 0 s e"

section \<open>Running Select\<close>

text \<open>
  The call that waits, the object with the sets the call leaves, whether they name its
  descriptor, and what fetching the pending error does.
\<close>

definition select_call :: "'a csocket_scheme \<Rightarrow> int32 \<Rightarrow> int32 \<Rightarrow> syscall" where
  "select_call s sec usec =
     Sys_select (m_socket s + 1) {sint (m_socket s)} {sint (m_socket s)} {sint (m_socket s)}
       (if 0 < sint sec \<or> 0 < sint usec then Some (make_timeval sec usec) else None)"

definition stored_sets :: "reply \<Rightarrow> 'a csocket_scheme \<Rightarrow> fd_set \<times> fd_set \<times> fd_set" where
  "stored_sets r s = (case fdsets r of
      None \<Rightarrow> ({sint (m_socket s)}, {sint (m_socket s)}, {sint (m_socket s)}) | Some x \<Rightarrow> x)"

definition after_select :: "reply \<Rightarrow> 'a csocket_scheme \<Rightarrow> 'a csocket_scheme" where
  "after_select r s =
     (case fdsets r of
        None \<Rightarrow> s\<lparr>m_errorFds := {sint (m_socket s)}, m_readFds := {sint (m_socket s)},
                    m_writeFds := {sint (m_socket s)}\<rparr>
      | Some (rd, wr, er) \<Rightarrow> s\<lparr>m_readFds := rd, m_writeFds := wr, m_errorFds := er\<rparr>)"

definition ready :: "reply \<Rightarrow> 'a csocket_scheme \<Rightarrow> bool" where
  "ready r s = (case stored_sets r s of (rd, wr, er) \<Rightarrow> sint (m_socket s) \<in> rd \<union> wr)"

definition so_error_call :: "'a csocket_scheme \<Rightarrow> syscall" where
  "so_error_call s = Sys_getsockopt (m_socket s) SOL_SOCKET SO_ERROR (LenVar 4)"

definition fetch_error ::
  "'w os \<Rightarrow> 'a csocket_scheme \<Rightarrow> 'w env \<Rightarrow> bool \<times> 'a csocket_scheme \<times> 'w env" where
  "fetch_error os s e =
     (let (r, e1) = invoke os (so_error_call s) e; n = store32 (data r) 0; b = (i32 (ret r) = 0);
          e2 = (if b then e1\<lparr>errno := sint n\<rparr> else e1)
      in (b \<and> n = 0, TranslateSocketError s e2, e2))"

lemma after_select_sel [simp]:
  "m_socket (after_select r s) = m_socket s" "m_pBuffer (after_select r s) = m_pBuffer s"
  "m_nBufferSize (after_select r s) = m_nBufferSize s"
  "m_nSocketType (after_select r s) = m_nSocketType s"
  "m_stServerSockaddr (after_select r s) = m_stServerSockaddr s"
  "m_bIsBlocking (after_select r s) = m_bIsBlocking s"
  "m_socketErrno (after_select r s) = m_socketErrno s"
  by (cases "fdsets r"; simp add: after_select_def split_beta)+

lemma Select_eq:
  assumes "fd_in_range (m_socket s)"
  shows "Select os sec usec s e =
    Returns (let (r, e1) = invoke os (select_call s sec usec) e; s1 = after_select r s
      in if i32 (ret r) = 0 then (False, SetSocketError SocketTimedout s1, e1)
         else if ready r s then fetch_error os s1 e1
         else (False, s1, e1))"
proof -
  obtain r e1 where i: "invoke os (select_call s sec usec) e = (r, e1)" by fastforce
  show ?thesis
  proof (cases "fdsets r")
    case None
    then show ?thesis using assms i
      by (simp add: Select_def select_call_def after_select_def stored_sets_def ready_def
          fetch_error_def so_error_call_def Let_def split_beta)
  next
    case (Some x)
    then show ?thesis using assms i
      by (cases x) (simp add: Select_def select_call_def after_select_def stored_sets_def ready_def
          fetch_error_def so_error_call_def Let_def split_beta)
  qed
qed

text \<open>What \<open>Select\<close> never changes.\<close>

lemma Select_keeps:
  assumes "Select os sec usec s e = Returns (b, s', e')"
  shows "m_socket s' = m_socket s \<and> m_pBuffer s' = m_pBuffer s \<and> m_nBufferSize s' = m_nBufferSize s
    \<and> m_nSocketType s' = m_nSocketType s \<and> m_stServerSockaddr s' = m_stServerSockaddr s
    \<and> m_bIsBlocking s' = m_bIsBlocking s
    \<and> (m_socketErrno s' = m_socketErrno s \<or> m_socketErrno s' \<noteq> SocketError)"
proof -
  have "fd_in_range (m_socket s)" using assms by (auto simp: Select_def split: if_splits)
  from Select_eq [OF this, of os sec usec e] show ?thesis
    using assms by (auto simp: Let_def split_beta fetch_error_def SetSocketError_def
        TranslateSocketError_def split: if_splits)
qed

lemma Select_undisturbed:
  assumes "Select os sec usec s e = Returns (b, y)"
  shows "undisturbed (s, e) y"
proof -
  obtain s' e' where y: "y = (s', e')" by (cases y)
  have "fd_in_range (m_socket s)" using assms by (auto simp: Select_def split: if_splits)
  then have "calm e e'"
    using assms Select_eq [of s os sec usec e]
    by (auto simp: y Let_def split_beta fetch_error_def select_call_def so_error_call_def
        intro!: calm_call split: if_splits)
  moreover have "same_object s s'"
    using Select_keeps [of os sec usec s e b s' e'] assms by (auto simp: y same_object_def)
  ultimately show ?thesis by (simp add: y undisturbed_def)
qed

section \<open>Properties of Select\<close>

text \<open>
  \<open>Select\<close> always returns, unless the descriptor does not fit a descriptor set: then it
  writes outside the set.
\<close>

theorem Select_faults_out_of_range:
  "(if fd_in_range (m_socket s) then \<exists>x. Select os sec usec s e = Returns x
    else Select os sec usec s e = Faults FdSetOverrun)"
proof (cases "fd_in_range (m_socket s)")
  case True
  then have "\<exists>x. Select os sec usec s e = Returns x" using Select_eq by blast
  with True show ?thesis by simp
next
  case False
  then show ?thesis by (simp add: Select_def)
qed

text \<open>
  When no descriptor becomes ready in time, \<open>Select\<close> returns false with a timeout error
  after one call, which waits for the given time, or for ever if neither part is positive.
\<close>

theorem Select_times_out:
  assumes "fd_in_range (m_socket s)" and "kernel os (select_call s sec usec) (world e) = (r, w)"
    and "ret r = 0"
  shows "\<exists>s' e'. Select os sec usec s e = Returns (False, s', e') \<and> GetSocketError s' = SocketTimedout
     \<and> trace e' = trace e @ [Sys_select (m_socket s + 1) {sint (m_socket s)} {sint (m_socket s)}
         {sint (m_socket s)} (if 0 < sint sec \<or> 0 < sint usec then Some (make_timeval sec usec) else None)]"
proof -
  obtain e1 where i: "invoke os (select_call s sec usec) e = (r, e1)" "trace e1 = trace e @ [select_call s sec usec]"
    using assms(2) by (simp add: invoke_def)
  show ?thesis
    using assms(3) i(2) unfolding select_call_def [symmetric]
    by (simp add: Select_eq [OF assms(1)] i(1) SetSocketError_def GetSocketError_def)
qed

theorem Select_times_out_witness:
  "\<exists>s' e'. Select scripted 2 0 (demo_socket SocketTypeTcp 7) (start_env [ok 0]) = Returns (False, s', e')
     \<and> GetSocketError s' = SocketTimedout
     \<and> trace e' = [Sys_select 8 {7} {7} {7} (Some (make_timeval 2 0))]"
  using Select_times_out [of "demo_socket SocketTypeTcp 7" scripted 2 0 "start_env [ok 0]" "ok 0" "[]"]
  by (simp add: fd_in_range_def ok_def lawful_def in_int_def)

lemma Select_pending:
  assumes "fd_in_range (m_socket s)" and "kernel os (select_call s sec usec) (world e) = (r, w)"
    and "i32 (ret r) \<noteq> 0" and "ready r s"
    and "kernel os (so_error_call s) w = (r2, w2)" and "ret r2 = 0"
  shows "\<exists>s' e'. let n = store32 (data r2) 0 in
     Select os sec usec s e = Returns (n = 0, s', e')
     \<and> trace e' = trace e @ [select_call s sec usec, so_error_call s]
     \<and> errno e' = sint n \<and> GetSocketError s' = translate_errno (sint n)"
proof -
  obtain e1 where i: "invoke os (select_call s sec usec) e = (r, e1)"
    "trace e1 = trace e @ [select_call s sec usec]" "world e1 = w"
    using assms(2) by (simp add: invoke_def)
  have c: "so_error_call (after_select r s) = so_error_call s" by (simp add: so_error_call_def)
  obtain e2 where j: "invoke os (so_error_call s) e1 = (r2, e2)" "trace e2 = trace e1 @ [so_error_call s]"
    using assms(5) i(3) by (simp add: invoke_def)
  show ?thesis
    using assms(3,4,6) i(2) j(2)
    by (simp add: Select_eq [OF assms(1)] i(1) j(1) fetch_error_def c Let_def SetSocketError_def
        TranslateSocketError_def GetSocketError_def)
qed

text \<open>
  C34. When the descriptor is reported ready, \<open>Select\<close> asks for the socket's pending error:
  it returns true exactly when there is none, and reports the pending one otherwise.
\<close>

theorem Select_reports_pending_error:
  assumes "fd_in_range (m_socket s)" and "kernel os (select_call s sec usec) (world e) = (r, w)"
    and "0 < ret r" and "ret r < 2 ^ 31" and "fdsets r = Some (rd, wr, er)"
    and "sint (m_socket s) \<in> rd \<union> wr"
    and "kernel os (so_error_call s) w = (r2, w2)" and "ret r2 = 0" and "data r2 = to_bytes32 n"
  shows "\<exists>s' e'. Select os sec usec s e = Returns (n = 0, s', e')
     \<and> GetSocketError s' = translate_errno (sint n) \<and> errno e' = sint n
     \<and> trace e' = trace e @ [select_call s sec usec, so_error_call s]"
proof -
  have "sint (i32 (ret r)) = ret r" using assms(3,4) by (intro sint_i32) simp_all
  then have "i32 (ret r) \<noteq> 0" using assms(3) by auto
  moreover have "ready r s" using assms(5,6) by (simp add: ready_def stored_sets_def)
  ultimately show ?thesis
    using Select_pending [OF assms(1,2) _ _ assms(7,8)] assms(9) by (auto simp: Let_def)
qed

theorem Select_reports_pending_error_witness:
  "\<exists>s' e'. Select scripted 2 0 (demo_socket SocketTypeTcp 7)
       (start_env [(ok 1)\<lparr>fdsets := Some ({}, {7}, {})\<rparr>, (ok 0)\<lparr>data := to_bytes32 111\<rparr>])
      = Returns (False, s', e') \<and> GetSocketError s' = SocketConnectionRefused"
proof -
  let ?r = "(ok 1)\<lparr>fdsets := Some ({}, {7 :: int}, {})\<rparr>" and ?q = "(ok 0)\<lparr>data := to_bytes32 111\<rparr>"
  let ?s = "demo_socket SocketTypeTcp 7"
  have k: "kernel scripted c (world (start_env [?r, ?q])) = (?r, [?q])"
    "kernel scripted c [?q] = (?q, [])" for c
    by (simp_all add: lawful_def in_int_def ok_def)
  show ?thesis
    using Select_reports_pending_error [OF _ k(1) _ _ _ _ k(2), of ?s "{}" "{7}" "{}" 111]
    by (simp add: fd_in_range_def ok_def translate_errno_def) blast
qed

text \<open>
  When \<open>select\<close> itself fails, as when a signal interrupts it, it leaves the sets as they
  were, with the descriptor in them: \<open>Select\<close> takes the socket to be ready and, if no error
  is pending, returns true with a success code.
\<close>

theorem failed_Select_reports_ready:
  assumes "fd_in_range (m_socket s)" and "kernel os (select_call s sec usec) (world e) = (r, w)"
    and "ret r = -1" and "fdsets r = None"
    and "kernel os (so_error_call s) w = (r2, w2)" and "ret r2 = 0" and "data r2 = to_bytes32 0"
  shows "\<exists>s' e'. Select os sec usec s e = Returns (True, s', e')
     \<and> GetSocketError s' = SocketSuccess \<and> errno e' = 0"
proof -
  have "i32 (ret r) \<noteq> 0" "ready r s" using assms(3,4) by (simp_all add: ready_def stored_sets_def)
  then show ?thesis
    using Select_pending [OF assms(1,2) _ _ assms(5,6)] assms(7) by (auto simp: Let_def translate_errno_def)
qed

theorem failed_Select_reports_ready_witness:
  "\<exists>s' e'. Select scripted 2 0 (demo_socket SocketTypeTcp 7)
       (start_env [fail EINTR, (ok 0)\<lparr>data := to_bytes32 0\<rparr>])
      = Returns (True, s', e') \<and> GetSocketError s' = SocketSuccess"
proof -
  let ?r = "fail EINTR" and ?q = "(ok 0)\<lparr>data := to_bytes32 0\<rparr>"
  let ?s = "demo_socket SocketTypeTcp 7"
  have k: "kernel scripted c (world (start_env [?r, ?q])) = (?r, [?q])"
    "kernel scripted c [?q] = (?q, [])" for c
    by (simp_all add: lawful_def in_int_def ok_def fail_def)
  show ?thesis
    using failed_Select_reports_ready [OF _ k(1) _ _ k(2), of ?s]
    by (simp add: fd_in_range_def ok_def fail_def) blast
qed

end
