(* ===== verification/Active_Socket.thy ===== *)
theory Active_Socket imports Socket_Transfer Socket_Select begin

text \<open>
  The class \<open>CActiveSocket\<close>: connecting to a server. \<open>Open\<close> checks its arguments,
  dispatches on the socket type to \<open>ConnectTCP\<close> or \<open>ConnectUDP\<close> and stores the two
  addresses of the connection.
\<close>

record cactive = csocket +
  m_pHE :: "hostent option"

definition CActiveSocket :: "CSocketType \<Rightarrow> cactive \<Rightarrow> cactive" where
  "CActiveSocket nType raw = CSimpleSocket nType raw"

definition CActiveSocket_destroy :: "'w os \<Rightarrow> cactive \<Rightarrow> 'w env \<Rightarrow> cactive \<times> 'w env" where
  "CActiveSocket_destroy os s e =
     (let (b, s1, e1) = Close os s e in (CSimpleSocket_destroy s1, e1))"

section \<open>Resolving the address\<close>

text \<open>
  \<open>memcpy(&stIpAddress, m_pHE->h_addr_list[0], m_pHE->h_length)\<close>: the destination is a
  local of four bytes, not initialised.
\<close>

definition copy_ip_address :: "'w os \<Rightarrow> hostent \<Rightarrow> uint32 outcome" where
  "copy_ip_address os he =
     (case h_addr_list he of
        [] \<Rightarrow> Faults NullCopy
      | a # as \<Rightarrow>
          obind (read_buffer a (h_length he)) (\<lambda>bytes.
            if 4 < h_length he then Faults StackOverrun
            else Returns (of_bytes32 (bytes @ map (uninit os) [h_length he..<4]))))"

text \<open>
  What the three connect functions do before connecting: none is the early
  \<open>return bRetVal\<close> with \<open>bRetVal\<close> still false.
\<close>

definition resolve_server ::
  "'w os \<Rightarrow> string \<Rightarrow> uint16 \<Rightarrow> cactive \<Rightarrow> 'w env \<Rightarrow> (bool \<times> cactive \<times> 'w env) outcome" where
  "resolve_server os pAddr nPort s e =
     (let s1 = s\<lparr>m_stServerSockaddr := sockaddr_zero\<lparr>sin_family := ucast AF_INET\<rparr>\<rparr>;
          (r, e1) = invoke os (Sys_gethostbyname pAddr) e;
          s2 = s1\<lparr>m_pHE := host r\<rparr>
      in case m_pHE s2 of
           None \<Rightarrow>
             Returns (False,
               (if h_errno e1 = HOST_NOT_FOUND then SetSocketError SocketInvalidAddress s2 else s2), e1)
         | Some he \<Rightarrow>
             obind (copy_ip_address os he) (\<lambda>stIpAddress.
               let s3 = s2\<lparr>m_stServerSockaddr := (m_stServerSockaddr s2)\<lparr>sin_addr := stIpAddress\<rparr>\<rparr>
               in if sin_addr (m_stServerSockaddr s3) = error_code SocketError
                  then Returns (False, TranslateSocketError s3 e1, e1)
                  else Returns (True,
                    s3\<lparr>m_stServerSockaddr := (m_stServerSockaddr s3)\<lparr>sin_port := htons nPort\<rparr>\<rparr>, e1)))"

section \<open>Connecting\<close>

definition ConnectTCP ::
  "'w os \<Rightarrow> string \<Rightarrow> uint16 \<Rightarrow> cactive \<Rightarrow> 'w env \<Rightarrow> (bool \<times> cactive \<times> 'w env) outcome" where
  "ConnectTCP os pAddr nPort s e =
     obind (resolve_server os pAddr nPort s e) (\<lambda>(resolved, s1, e1).
       if \<not> resolved then Returns (False, s1, e1)
       else
         (let (s2, e2) = timer_start os s1 e1;
              (r, e3) = invoke os (Sys_connect (m_socket s2) (m_stServerSockaddr s2)) e2;
              s3 = TranslateSocketError s2 e3
          in obind
            (if i32 (ret r) = error_code SocketError then
               (if IsNonblocking s3 \<and>
                   (GetSocketError s3 = SocketEwouldblock \<or> GetSocketError s3 = SocketEinprogress)
                then Select os (GetConnectTimeoutSec s3) (GetConnectTimeoutUSec s3) s3 e3
                else Returns (False, s3, e3))
             else Returns (True, s3, e3))
            (\<lambda>(bRetVal, s4, e4).
               let (s5, e5) = timer_end os s4 e4 in Returns (bRetVal, s5, e5))))"

definition ConnectUDP ::
  "'w os \<Rightarrow> string \<Rightarrow> uint16 \<Rightarrow> cactive \<Rightarrow> 'w env \<Rightarrow> (bool \<times> cactive \<times> 'w env) outcome" where
  "ConnectUDP os pAddr nPort s e =
     obind (resolve_server os pAddr nPort s e) (\<lambda>(resolved, s1, e1).
       if \<not> resolved then Returns (False, s1, e1)
       else
         (let (s2, e2) = timer_start os s1 e1;
              (r, e3) = invoke os (Sys_connect (m_socket s2) (m_stServerSockaddr s2)) e2;
              bRetVal = (i32 (ret r) \<noteq> error_code SocketError);
              s3 = TranslateSocketError s2 e3;
              (s4, e4) = timer_end os s3 e3
          in Returns (bRetVal, s4, e4)))"

text \<open>No operation calls \<open>ConnectRAW\<close>.\<close>

definition ConnectRAW ::
  "'w os \<Rightarrow> string \<Rightarrow> uint16 \<Rightarrow> cactive \<Rightarrow> 'w env \<Rightarrow> (bool \<times> cactive \<times> 'w env) outcome" where
  "ConnectRAW os pAddr nPort s e =
     obind (resolve_server os pAddr nPort s e) (\<lambda>(resolved, s1, e1).
       if \<not> resolved then Returns (False, s1, e1)
       else
         (let (s2, e2) = timer_start os s1 e1;
              (r, e3) = invoke os (Sys_connect (m_socket s2) (m_stServerSockaddr s2)) e2;
              bRetVal = (i32 (ret r) \<noteq> error_code SocketError);
              s3 = TranslateSocketError s2 e3;
              (s4, e4) = timer_end os s3 e3
          in Returns (bRetVal, s4, e4)))"

text \<open>
  The addresses of the connection: \<open>getpeername\<close> and \<open>getsockname\<close> store an address
  or leave the zeroed member alone.
\<close>

definition store_addresses :: "'w os \<Rightarrow> cactive \<Rightarrow> 'w env \<Rightarrow> cactive \<times> 'w env" where
  "store_addresses os s e =
     (let (r1, e1) = invoke os (Sys_getpeername (m_socket s)) e;
          s1 = s\<lparr>m_stServerSockaddr := (case addr r1 of None \<Rightarrow> sockaddr_zero | Some a \<Rightarrow> a)\<rparr>;
          (r2, e2) = invoke os (Sys_getsockname (m_socket s1)) e1;
          s2 = s1\<lparr>m_stClientSockaddr := (case addr r2 of None \<Rightarrow> sockaddr_zero | Some a \<Rightarrow> a)\<rparr>
      in (SetSocketError SocketSuccess s2, e2))"

definition Open ::
  "'w os \<Rightarrow> string option \<Rightarrow> uint16 \<Rightarrow> cactive \<Rightarrow> 'w env \<Rightarrow> (bool \<times> cactive \<times> 'w env) outcome" where
  "Open os pAddr nPort s e =
     (if IsSocketValid s = False then Returns (False, SetSocketError SocketInvalidSocket s, e)
      else (case pAddr of
        None \<Rightarrow> Returns (False, SetSocketError SocketInvalidAddress s, e)
      | Some address \<Rightarrow>
          if nPort = 0 then Returns (False, SetSocketError SocketInvalidPort s, e)
          else
            obind
              (case m_nSocketType s of
                 SocketTypeTcp \<Rightarrow> ConnectTCP os address nPort s e
               | SocketTypeUdp \<Rightarrow> ConnectUDP os address nPort s e
               | SocketTypeRaw \<Rightarrow> Returns (False, s, e)
               | _ \<Rightarrow> Returns (False, s, e))
              (\<lambda>(bRetVal, s1, e1).
                 if bRetVal then (let (s2, e2) = store_addresses os s1 e1 in Returns (True, s2, e2))
                 else Returns (False, s1, e1))))"

section \<open>Running Open\<close>

text \<open>The address that \<open>Open\<close> connects to.\<close>

definition server_address :: "uint32 \<Rightarrow> uint16 \<Rightarrow> sockaddr_in" where
  "server_address a nPort = \<lparr>sin_family = 2, sin_port = htons nPort, sin_addr = a\<rparr>"

text \<open>A host entry with an IPv4 address.\<close>

definition ipv4_entry :: "hostent \<Rightarrow> uint32 \<Rightarrow> bool" where
  "ipv4_entry he a \<longleftrightarrow> h_length he = 4 \<and> (\<exists>rest. h_addr_list he = to_bytes32 a # rest)"

lemma copy_ip_address_ipv4: "ipv4_entry he a \<Longrightarrow> copy_ip_address os he = Returns a"
  by (auto simp: ipv4_entry_def copy_ip_address_def read_buffer_def)

lemma INADDR_NONE_eq: "(INADDR_NONE :: uint32) = -1"
  by simp

lemma resolve_server_found:
  assumes "kernel os (Sys_gethostbyname p) (world e) = (r, w)" and "host r = Some he"
    and "ipv4_entry he a" and "a \<noteq> INADDR_NONE"
  shows "\<exists>s1 e1. resolve_server os p nPort s e = Returns (True, s1, e1)
     \<and> m_stServerSockaddr s1 = server_address a nPort \<and> m_socket s1 = m_socket s
     \<and> m_nSocketType s1 = m_nSocketType s \<and> m_bIsBlocking s1 = m_bIsBlocking s
     \<and> m_stConnectTimeout s1 = m_stConnectTimeout s
     \<and> world e1 = w \<and> errno e1 = set_errno r (errno e) \<and> trace e1 = trace e @ [Sys_gethostbyname p]"
  using assms unfolding INADDR_NONE_eq
  by (simp add: resolve_server_def Let_def split_beta fst_invoke snd_invoke copy_ip_address_ipv4
      server_address_def sockaddr_zero_def)

lemma resolve_server_not_found:
  assumes "kernel os (Sys_gethostbyname p) (world e) = (r, w)" and "host r = None"
  shows "\<exists>s1 e1. resolve_server os p nPort s e = Returns (False, s1, e1)
     \<and> GetSocketError s1 = (if h_errno e1 = HOST_NOT_FOUND then SocketInvalidAddress else GetSocketError s)
     \<and> h_errno e1 = (case herr r of None \<Rightarrow> h_errno e | Some m \<Rightarrow> m)
     \<and> trace e1 = trace e @ [Sys_gethostbyname p]"
  using assms
  by (simp add: resolve_server_def Let_def split_beta fst_invoke snd_invoke
      SetSocketError_def GetSocketError_def)

text \<open>What \<open>resolve_server\<close> and \<open>store_addresses\<close> keep.\<close>

lemma resolve_server_undisturbed:
  assumes "resolve_server os p nPort s e = Returns (b, y)"
  shows "undisturbed (s, e) y"
proof -
  obtain s1 e1 where y: "y = (s1, e1)" by (cases y)
  have "same_object s s1"
    using assms
    by (auto simp: y resolve_server_def Let_def split_beta obind_eq_Returns SetSocketError_def
        TranslateSocketError_def same_object_def split: option.splits if_splits)
  moreover have "e1 = snd (invoke os (Sys_gethostbyname p) e)"
    using assms
    by (auto simp: y resolve_server_def Let_def split_beta obind_eq_Returns split: option.splits if_splits)
  ultimately show ?thesis by (simp add: y undisturbed_def calm_call)
qed

lemma store_addresses_sel [simp]:
  "m_socket (fst (store_addresses os s e)) = m_socket s"
  "m_pBuffer (fst (store_addresses os s e)) = m_pBuffer s"
  "m_nBufferSize (fst (store_addresses os s e)) = m_nBufferSize s"
  "m_nSocketType (fst (store_addresses os s e)) = m_nSocketType s"
  "m_bIsBlocking (fst (store_addresses os s e)) = m_bIsBlocking s"
  "m_socketErrno (fst (store_addresses os s e)) = SocketSuccess"
  "trace (snd (store_addresses os s e)) = trace e @ [Sys_getpeername (m_socket s), Sys_getsockname (m_socket s)]"
  by (simp_all add: store_addresses_def Let_def split_beta SetSocketError_def)

lemma store_addresses_keeps:
  assumes "store_addresses os s e = (s', e')"
  shows "m_socket s' = m_socket s \<and> m_pBuffer s' = m_pBuffer s \<and> m_nBufferSize s' = m_nBufferSize s
    \<and> m_nSocketType s' = m_nSocketType s \<and> m_bIsBlocking s' = m_bIsBlocking s
    \<and> m_socketErrno s' = SocketSuccess"
  using store_addresses_sel [of os s e] by (simp add: assms)

lemma store_addresses_undisturbed: "undisturbed (s, e) (store_addresses os s e)"
proof -
  have "calm e (snd (store_addresses os s e))"
    by (simp add: store_addresses_def Let_def split_beta calm_call)
  then show ?thesis
    using store_addresses_sel [of os s e] by (simp add: undisturbed_def same_object_def)
qed

lemma Connect_undisturbed:
  "ConnectTCP os p nPort s e = Returns (b, y) \<Longrightarrow> undisturbed (s, e) y"
  "ConnectUDP os p nPort s e = Returns (b, y) \<Longrightarrow> undisturbed (s, e) y"
proof -
  have fin: "undisturbed x z" if "timer_end os t e' = z" "undisturbed x (t, e')" for t e' x z
    using that undisturbed_timer(2) [of x os t e'] by simp
  have connected: "undisturbed x (TranslateSocketError s2 e3, e3)"
    if "undisturbed x (s0, e0)" "timer_start os s0 e0 = (s2, e2)" "e3 = snd (invoke os (Sys_connect fd a) e2)"
    for x s0 e0 s2 e2 e3 fd a
  proof -
    have "undisturbed x (s2, e2)" using that(1,2) undisturbed_timer(1) [of x os s0 e0] by simp
    then show ?thesis unfolding that(3) by (intro undisturbed_translate undisturbed_call) simp_all
  qed
  show "undisturbed (s, e) y" if C: "ConnectUDP os p nPort s e = Returns (b, y)"
  proof -
    obtain r s0 e0 where r: "resolve_server os p nPort s e = Returns (r, s0, e0)"
      using C by (auto simp: ConnectUDP_def obind_eq_Returns)
    note R = resolve_server_undisturbed [OF r]
    obtain s2 e2 where t: "timer_start os s0 e0 = (s2, e2)" by fastforce
    from C R connected [OF R t refl] show ?thesis
      by (cases r) (auto simp: ConnectUDP_def r t Let_def split_beta intro: fin)
  qed
  assume C: "ConnectTCP os p nPort s e = Returns (b, y)"
  then obtain r s0 e0 where r: "resolve_server os p nPort s e = Returns (r, s0, e0)"
    by (auto simp: ConnectTCP_def obind_eq_Returns)
  note R = resolve_server_undisturbed [OF r]
  show "undisturbed (s, e) y"
  proof (cases r)
    case False
    with C R show ?thesis by (simp add: ConnectTCP_def r)
  next
    case True
    obtain s2 e2 where t: "timer_start os s0 e0 = (s2, e2)" by fastforce
    obtain q e3 where q: "invoke os (Sys_connect (m_socket s2) (m_stServerSockaddr s2)) e2 = (q, e3)" by fastforce
    define s3 where "s3 = TranslateSocketError s2 e3"
    have s3: "undisturbed (s, e) (s3, e3)"
      unfolding s3_def
      by (rule connected [OF R t, of _ "m_socket s2" "m_stServerSockaddr s2"]) (simp add: q)
    define m where "m = (if i32 (ret q) = -1 then
               (if IsNonblocking s3 \<and>
                   (GetSocketError s3 = SocketEwouldblock \<or> GetSocketError s3 = SocketEinprogress)
                then Select os (GetConnectTimeoutSec s3) (GetConnectTimeoutUSec s3) s3 e3
                else Returns (False, s3, e3))
             else Returns (True, s3, e3))"
    have "obind m (\<lambda>(bRetVal, s4, e4).
               let (s5, e5) = timer_end os s4 e4 in Returns (bRetVal, s5, e5)) = Returns (b, y)"
      using C unfolding m_def s3_def by (simp add: ConnectTCP_def r True t q Let_def split del: if_split)
    then obtain c s4 e4 where s4: "m = Returns (c, s4, e4)" and y: "y = timer_end os s4 e4"
      by (auto simp: obind_eq_Returns split_beta)
    have "undisturbed (s, e) (s4, e4)"
      using s4 s3 by (auto simp: m_def split: if_splits intro: undisturbed_trans Select_undisturbed)
    then show ?thesis by (simp add: y)
  qed
qed

text \<open>A connect that succeeds at once.\<close>

lemma Connect_at_once:
  assumes "m_nSocketType s \<in> {SocketTypeTcp, SocketTypeUdp}"
    and "kernel os (Sys_gethostbyname p) (world e) = (r0, w0)" and "host r0 = Some he"
    and "ipv4_entry he a" and "a \<noteq> INADDR_NONE"
    and "kernel os (Sys_connect (m_socket s) (server_address a nPort)) (snd (clock os w0)) = (r1, w1)"
    and "ret r1 = 0"
  shows "\<exists>s1 e1. (if m_nSocketType s = SocketTypeTcp then ConnectTCP os p nPort s e
                   else ConnectUDP os p nPort s e) = Returns (True, s1, e1)
     \<and> m_socket s1 = m_socket s \<and> world e1 = snd (clock os w1)
     \<and> trace e1 = trace e @ [Sys_gethostbyname p, Sys_connect (m_socket s) (server_address a nPort)]"
proof -
  obtain s1 e1 where R: "resolve_server os p nPort s e = Returns (True, s1, e1)"
    "m_stServerSockaddr s1 = server_address a nPort" "m_socket s1 = m_socket s"
    "world e1 = w0" "trace e1 = trace e @ [Sys_gethostbyname p]"
    using resolve_server_found [OF assms(2-5), of nPort s] by blast
  obtain s2 e2 where t: "timer_start os s1 e1 = (s2, e2)" by fastforce
  then have s2: "m_stServerSockaddr s2 = server_address a nPort" "m_socket s2 = m_socket s"
    "world e2 = snd (clock os w0)" "trace e2 = trace e @ [Sys_gethostbyname p]"
    using R by (auto simp: timer_start_eq)
  obtain e3 where i: "invoke os (Sys_connect (m_socket s) (server_address a nPort)) e2 = (r1, e3)"
    "world e3 = w1" "trace e3 = trace e2 @ [Sys_connect (m_socket s) (server_address a nPort)]"
    by (rule invoke_step [of os "Sys_connect (m_socket s) (server_address a nPort)" e2 r1 w1])
       (use assms(6) s2(3) in simp_all)
  have "(if m_nSocketType s = SocketTypeTcp then ConnectTCP os p nPort s e
         else ConnectUDP os p nPort s e)
      = (let (s5, e5) = timer_end os (TranslateSocketError s2 e3) e3 in Returns (True, s5, e5))"
    using assms(7) by (simp add: ConnectTCP_def ConnectUDP_def R(1) t s2(1,2) i(1))
  then show ?thesis
    using i s2(2,4) by (simp add: timer_end_eq TranslateSocketError_def SetSocketError_def)
qed

text \<open>The ways in which \<open>Open\<close> returns.\<close>

lemma Open_cases:
  assumes "Open os pAddr nPort s e = Returns (b, s', e')"
  obtains (refused) x where "\<not> b" "e' = e" "x = m_socketErrno s \<or> x \<noteq> SocketError" "s' = s\<lparr>m_socketErrno := x\<rparr>"
    | (failed) p where "\<not> b"
        "ConnectTCP os p nPort s e = Returns (False, s', e') \<or> ConnectUDP os p nPort s e = Returns (False, s', e')"
    | (connected) p s1 e1 where "b" "store_addresses os s1 e1 = (s', e')"
        "ConnectTCP os p nPort s e = Returns (True, s1, e1) \<or> ConnectUDP os p nPort s e = Returns (True, s1, e1)"
proof (cases "IsSocketValid s \<and> nPort \<noteq> 0 \<and> m_nSocketType s \<in> {SocketTypeTcp, SocketTypeUdp}")
  case False
  consider "\<not> IsSocketValid s" | "IsSocketValid s" "pAddr = None"
    | p where "IsSocketValid s" "pAddr = Some p" "nPort = 0"
    | p where "IsSocketValid s" "pAddr = Some p" "nPort \<noteq> 0" "m_nSocketType s \<notin> {SocketTypeTcp, SocketTypeUdp}"
    using False by (cases pAddr) auto
  then show ?thesis
  proof cases
    case 1
    then show ?thesis using assms refused [of SocketInvalidSocket] by (simp add: Open_def SetSocketError_def)
  next
    case 2
    then show ?thesis using assms refused [of SocketInvalidAddress] by (simp add: Open_def SetSocketError_def)
  next
    case (3 p)
    then show ?thesis using assms refused [of SocketInvalidPort] by (simp add: Open_def SetSocketError_def)
  next
    case (4 p)
    then have "Open os pAddr nPort s e = Returns (False, s, e)"
      by (cases "m_nSocketType s") (simp_all add: Open_def)
    then show ?thesis using assms refused [of "m_socketErrno s"] by simp
  qed
next
  case True
  show ?thesis
  proof (cases pAddr)
    case None
    then show ?thesis using True assms refused [of SocketInvalidAddress]
      by (auto simp: Open_def SetSocketError_def)
  next
    case (Some p)
    define m where "m = (if m_nSocketType s = SocketTypeTcp then ConnectTCP os p nPort s e else ConnectUDP os p nPort s e)"
    have "Open os pAddr nPort s e = obind m (\<lambda>(b1, s1, e1).
        if b1 then (let (s2, e2) = store_addresses os s1 e1 in Returns (True, s2, e2)) else Returns (False, s1, e1))"
      using True Some by (auto simp: Open_def m_def)
    with assms obtain b1 s1 e1 where m: "m = Returns (b1, s1, e1)"
      and fin: "(if b1 then let (s2, e2) = store_addresses os s1 e1 in Returns (True, s2, e2) else Returns (False, s1, e1))
        = Returns (b, s', e')"
      by (auto simp: obind_eq_Returns)
    have "ConnectTCP os p nPort s e = Returns (b1, s1, e1) \<or> ConnectUDP os p nPort s e = Returns (b1, s1, e1)"
      using m by (auto simp: m_def split: if_splits)
    with fin show ?thesis using failed [of p] connected [of s1 e1 p]
      by (cases b1) (auto simp: Let_def split_beta prod_eq_iff)
  qed
qed

lemma Open_undisturbed:
  assumes "Open os pAddr nPort s e = Returns (b, s', e')"
  shows "undisturbed (s, e) (s', e') \<and> (\<not> b \<or> m_socketErrno s' = SocketSuccess)"
  using assms
proof (cases rule: Open_cases)
  case (refused x)
  then show ?thesis by (auto simp: undisturbed_def same_object_def)
next
  case (failed p)
  then show ?thesis using Connect_undisturbed [of os p nPort s e False "(s', e')"] by blast
next
  case (connected p s1 e1)
  then have "undisturbed (s, e) (s1, e1)"
    using Connect_undisturbed [of os p nPort s e True "(s1, e1)"] by blast
  then show ?thesis
    using store_addresses_undisturbed [of s1 e1 os] store_addresses_keeps [OF connected(2)] connected(1)
    by (auto simp: connected(2) intro: undisturbed_trans)
qed

section \<open>Properties of Open\<close>

text \<open>
  \<open>Open\<close> makes no call and returns false for an invalid handle, a null address and a zero
  port, in this order, each with its own error; for a type other than stream and datagram it
  also makes no call and returns false, and leaves the error as it was.
\<close>

theorem Open_refuses:
  "(if \<not> IsSocketValid s then Open os pAddr nPort s e = Returns (False, SetSocketError SocketInvalidSocket s, e)
    else if pAddr = None then Open os pAddr nPort s e = Returns (False, SetSocketError SocketInvalidAddress s, e)
    else if nPort = 0 then Open os pAddr nPort s e = Returns (False, SetSocketError SocketInvalidPort s, e)
    else if GetSocketType s \<notin> {SocketTypeTcp, SocketTypeUdp} then Open os pAddr nPort s e = Returns (False, s, e)
    else True)"
  by (cases pAddr; cases "m_nSocketType s") (simp_all add: Open_def GetSocketType_def)

text \<open>
  C1. \<open>Open\<close> on a stream or a datagram socket, with a name that resolves to an IPv4 address and
  a connection that is made at once: it resolves, connects the socket's own handle to that
  address and port in network order, fetches both addresses of the connection and stores
  them, and returns true with a success code.
\<close>

theorem Open_connects:
  assumes "IsSocketValid s" and "nPort \<noteq> 0" and "m_nSocketType s \<in> {SocketTypeTcp, SocketTypeUdp}"
    and "kernel os (Sys_gethostbyname p) (world e) = (r0, w0)" and "host r0 = Some he"
    and "ipv4_entry he a" and "a \<noteq> INADDR_NONE"
    and "kernel os (Sys_connect (m_socket s) (server_address a nPort)) (snd (clock os w0)) = (r1, w1)"
    and "ret r1 = 0"
    and "kernel os (Sys_getpeername (m_socket s)) (snd (clock os w1)) = (r2, w2)" and "addr r2 = Some peer"
    and "kernel os (Sys_getsockname (m_socket s)) w2 = (r3, w3)" and "addr r3 = Some own"
  shows "\<exists>s' e'. Open os (Some p) nPort s e = Returns (True, s', e')
     \<and> trace e' = trace e @ [Sys_gethostbyname p, Sys_connect (m_socket s) (server_address a nPort),
                              Sys_getpeername (m_socket s), Sys_getsockname (m_socket s)]
     \<and> GetSocketError s' = SocketSuccess \<and> m_socket s' = m_socket s
     \<and> m_stServerSockaddr s' = peer \<and> m_stClientSockaddr s' = own
     \<and> GetServerPort s' = ntohs (sin_port peer)"
proof -
  obtain s1 e1 where C: "(if m_nSocketType s = SocketTypeTcp then ConnectTCP os p nPort s e
                   else ConnectUDP os p nPort s e) = Returns (True, s1, e1)"
     "m_socket s1 = m_socket s" "world e1 = snd (clock os w1)"
     "trace e1 = trace e @ [Sys_gethostbyname p, Sys_connect (m_socket s) (server_address a nPort)]"
    using Connect_at_once [OF assms(3-9)] by blast
  have "Open os (Some p) nPort s e =
      Returns (True, fst (store_addresses os s1 e1), snd (store_addresses os s1 e1))"
    using assms(1-3) C(1) by (auto simp: Open_def split_beta Let_def)
  moreover have "m_stServerSockaddr (fst (store_addresses os s1 e1)) = peer"
    "m_stClientSockaddr (fst (store_addresses os s1 e1)) = own"
    using assms(10-13) C(2,3)
    by (simp_all add: store_addresses_def Let_def split_beta fst_invoke snd_invoke SetSocketError_def)
  ultimately show ?thesis using C(2,4)
    by (intro exI [of _ "fst (store_addresses os s1 e1)"] exI [of _ "snd (store_addresses os s1 e1)"])
       (simp add: GetSocketError_def GetServerPort_def)
qed

definition demo_active :: "CSocketType \<Rightarrow> SOCKET \<Rightarrow> cactive" where
  "demo_active t fd = SetSocketHandle fd (CActiveSocket t (csocket.extend raw_socket (cactive.fields None)))"

lemma demo_active_sel [simp]:
  "m_socket (demo_active t fd) = fd" "m_nSocketType (demo_active t fd) = t"
  "m_socketErrno (demo_active t fd) = SocketInvalidSocket" "m_pBuffer (demo_active t fd) = None"
  "m_bIsBlocking (demo_active t fd) = True"
  by (cases t; simp add: demo_active_def CActiveSocket_def SetSocketHandle_def CSimpleSocket_def
      SetConnectTimeout_def Let_def)+

definition loopback :: hostent where
  "loopback = \<lparr>h_addr_list = [to_bytes32 0x0100007F], h_length = 4\<rparr>"

lemma loopback_ipv4: "ipv4_entry loopback 0x0100007F"
  by (simp add: ipv4_entry_def loopback_def)

theorem Open_connects_witness:
  "\<exists>s' e'. Open scripted (Some ''localhost'') 6789 (demo_active SocketTypeTcp 7)
      (start_env [(ok 0)\<lparr>host := Some loopback\<rparr>, ok 0,
                  (ok 0)\<lparr>addr := Some (server_address 0x0100007F 6789)\<rparr>,
                  (ok 0)\<lparr>addr := Some (server_address 0x0100007F 40000)\<rparr>]) = Returns (True, s', e')
     \<and> GetSocketError s' = SocketSuccess \<and> m_stClientSockaddr s' = server_address 0x0100007F 40000"
proof -
  let ?p = "server_address 0x0100007F 6789" and ?o = "server_address 0x0100007F 40000"
  let ?r0 = "(ok 0)\<lparr>host := Some loopback\<rparr>" and ?r2 = "(ok 0)\<lparr>addr := Some ?p\<rparr>" and ?r3 = "(ok 0)\<lparr>addr := Some ?o\<rparr>"
  have l: "lawful ?r0 = ?r0" "lawful ?r2 = ?r2" "lawful ?r3 = ?r3"
    by (simp_all add: lawful_def in_int_def ok_def)
  have k: "kernel scripted c (world (start_env [?r0, ok 0, ?r2, ?r3])) = (?r0, [ok 0, ?r2, ?r3])"
    "kernel scripted c (snd (clock scripted [ok 0, ?r2, ?r3])) = (ok 0, [?r2, ?r3])"
    "kernel scripted c (snd (clock scripted [?r2, ?r3])) = (?r2, [?r3])"
    "kernel scripted c [?r3] = (?r3, [])" for c
    by (simp_all add: l)
  show ?thesis
    using Open_connects [OF _ _ _ k(1) _ loopback_ipv4 _ k(2) _ k(3) _ k(4), of "demo_active SocketTypeTcp 7" 6789 ?p ?o]
    by (simp add: IsSocketValid_iff ok_def) blast
qed

text \<open>
  When the name does not resolve, \<open>Open\<close> returns false after that one call. Only for the
  answer that the host is not known does it set the error; for any other failure of the
  resolver the error stays what it was, a success code among others.
\<close>

theorem Open_unresolved:
  assumes "IsSocketValid s" and "nPort \<noteq> 0" and "m_nSocketType s \<in> {SocketTypeTcp, SocketTypeUdp}"
    and "kernel os (Sys_gethostbyname p) (world e) = (r, w)" and "host r = None" and "herr r = Some h"
  shows "\<exists>s' e'. Open os (Some p) nPort s e = Returns (False, s', e')
     \<and> GetSocketError s' = (if h = HOST_NOT_FOUND then SocketInvalidAddress else GetSocketError s)
     \<and> trace e' = trace e @ [Sys_gethostbyname p]"
proof -
  obtain s1 e1 where R: "resolve_server os p nPort s e = Returns (False, s1, e1)"
    "GetSocketError s1 = (if h = HOST_NOT_FOUND then SocketInvalidAddress else GetSocketError s)"
    "trace e1 = trace e @ [Sys_gethostbyname p]"
    using resolve_server_not_found [OF assms(4,5), of nPort s] assms(6) by auto
  have "Open os (Some p) nPort s e = Returns (False, s1, e1)"
    using assms(1-3) by (auto simp: Open_def ConnectTCP_def ConnectUDP_def R(1))
  with R show ?thesis by blast
qed

theorem Open_unresolved_witness:
  "\<exists>s' e'. Open scripted (Some ''example.net'') 80 (SetSocketError SocketSuccess (demo_active SocketTypeTcp 7))
      (start_env [(ok 0)\<lparr>herr := Some 2\<rparr>]) = Returns (False, s', e')
     \<and> GetSocketError s' = SocketSuccess"
proof -
  let ?r = "(ok 0)\<lparr>herr := Some 2\<rparr>"
  let ?s = "SetSocketError SocketSuccess (demo_active SocketTypeTcp 7)"
  have k: "kernel scripted c (world (start_env [?r])) = (?r, [])" for c
    by (simp add: lawful_def in_int_def ok_def)
  have s: "IsSocketValid ?s" "m_nSocketType ?s \<in> {SocketTypeTcp, SocketTypeUdp}" "GetSocketError ?s = SocketSuccess"
    by (simp_all add: IsSocketValid_iff SetSocketError_def GetSocketError_def)
  show ?thesis
    using Open_unresolved [OF s(1) _ s(2) k(1), of 80 2] s(3) by (simp add: ok_def) blast
qed

text \<open>
  Whatever the system answers, an \<open>Open\<close> that returns keeps the handle, the type, the
  blocking mode and the buffer, and when it returns true it reports success.
\<close>

theorem Open_keeps:
  assumes "Open os pAddr nPort s e = Returns (b, s', e')"
  shows "GetSocketDescriptor s' = GetSocketDescriptor s \<and> GetSocketType s' = GetSocketType s
    \<and> IsNonblocking s' = IsNonblocking s \<and> GetData s' = GetData s \<and> buffer_ok s' = buffer_ok s
    \<and> (\<not> b \<or> GetSocketError s' = SocketSuccess)"
  using Open_undisturbed [OF assms] buffer_ok_cong [of s' s]
  by (simp add: undisturbed_def same_object_def GetSocketDescriptor_def GetSocketType_def IsNonblocking_def GetData_def GetSocketError_def)


text \<open>
  C15. On a non-blocking stream socket whose connection is under way, \<open>Open\<close> waits with the
  connect timeout until the descriptor is ready, fetches the pending error, and returns true
  exactly when there is none, with the addresses fetched and a success code; otherwise it
  returns false with the pending error translated. A wait that fails counts as ready.
\<close>

theorem Open_waits_for_connection:
  assumes "IsSocketValid s" and "nPort \<noteq> 0" and "m_nSocketType s = SocketTypeTcp"
    and "IsNonblocking s" and "fd_in_range (m_socket s)"
    and "kernel os (Sys_gethostbyname p) (world e) = (r0, w0)" and "host r0 = Some he"
    and "ipv4_entry he a" and "a \<noteq> INADDR_NONE"
    and "kernel os (Sys_connect (m_socket s) (server_address a nPort)) (snd (clock os w0)) = (r1, w1)"
    and "ret r1 = -1" and "err r1 = Some EINPROGRESS"
    and "kernel os (select_call s (GetConnectTimeoutSec s) (GetConnectTimeoutUSec s)) w1 = (r2, w2)"
    and "i32 (ret r2) \<noteq> 0" and "ready r2 s"
    and "kernel os (so_error_call s) w2 = (r3, w3)" and "ret r3 = 0" and "data r3 = to_bytes32 n"
  shows "\<exists>s' e'. Open os (Some p) nPort s e = Returns (n = 0, s', e')
     \<and> GetSocketError s' = (if n = 0 then SocketSuccess else translate_errno (sint n))
     \<and> trace e' = trace e @ [Sys_gethostbyname p, Sys_connect (m_socket s) (server_address a nPort),
         select_call s (GetConnectTimeoutSec s) (GetConnectTimeoutUSec s), so_error_call s]
         @ (if n = 0 then [Sys_getpeername (m_socket s), Sys_getsockname (m_socket s)] else [])"
proof -
  let ?sec = "GetConnectTimeoutSec s" and ?usec = "GetConnectTimeoutUSec s"
  obtain s1 e1 where R: "resolve_server os p nPort s e = Returns (True, s1, e1)"
    "m_stServerSockaddr s1 = server_address a nPort" "m_socket s1 = m_socket s"
    "m_bIsBlocking s1 = m_bIsBlocking s" "m_stConnectTimeout s1 = m_stConnectTimeout s"
    "world e1 = w0" "trace e1 = trace e @ [Sys_gethostbyname p]"
    using resolve_server_found [OF assms(6-9), of nPort s] by blast
  define s2 where "s2 = fst (timer_start os s1 e1)"
  define e2 where "e2 = snd (timer_start os s1 e1)"
  define e3 where "e3 = snd (invoke os (Sys_connect (m_socket s) (server_address a nPort)) e2)"
  define s3 where "s3 = TranslateSocketError s2 e3"
  have s2: "m_socket s2 = m_socket s" "m_stServerSockaddr s2 = server_address a nPort"
    "world e2 = snd (clock os w0)"
    using R by (simp_all add: s2_def e2_def timer_start_eq)
  have e3: "errno e3 = EINPROGRESS" "world e3 = w1"
    "trace e3 = trace e @ [Sys_gethostbyname p, Sys_connect (m_socket s) (server_address a nPort)]"
    using assms(10-12) R(7) s2(3) by (simp_all add: e3_def snd_invoke set_errno_def)
      (simp add: e2_def timer_start_eq R)
  have s3: "m_socket s3 = m_socket s" "IsNonblocking s3" "GetSocketError s3 = SocketEinprogress"
    "GetConnectTimeoutSec s3 = ?sec" "GetConnectTimeoutUSec s3 = ?usec"
    using assms(4) R(4,5) e3(1) s2(1)
    by (simp_all add: s3_def TranslateSocketError_def SetSocketError_def GetSocketError_def
        IsNonblocking_def GetConnectTimeoutSec_def GetConnectTimeoutUSec_def translate_errno_def
        s2_def timer_start_eq)
  have c: "select_call s3 ?sec ?usec = select_call s ?sec ?usec" "so_error_call s3 = so_error_call s"
    "ready r2 s3 = ready r2 s"
    by (simp_all add: select_call_def so_error_call_def ready_def stored_sets_def s3(1) cong: option.case_cong)
  obtain s4 e4 where W: "Select os ?sec ?usec s3 e3 = Returns (n = 0, s4, e4)"
    "trace e4 = trace e3 @ [select_call s ?sec ?usec, so_error_call s]"
    "GetSocketError s4 = translate_errno (sint n)"
    using Select_pending [of s3 os ?sec ?usec e3 r2 w2 r3 w3] assms(5,13-18) e3(2)
    by (auto simp: c s3(1) Let_def)
  have s4: "m_socket s4 = m_socket s" using Select_keeps [OF W(1)] s3(1) by simp
  obtain s5 e5 where te: "timer_end os s4 e4 = (s5, e5)" by fastforce
  have s5: "m_socket s5 = m_socket s" "trace e5 = trace e4" "GetSocketError s5 = GetSocketError s4"
    using te by (auto simp: timer_end_eq s4 GetSocketError_def)
  have "ConnectTCP os p nPort s e = Returns (n = 0, s5, e5)"
    using assms(10,11) s2 s3 W(1)
    by (simp add: ConnectTCP_def R(1) Let_def split_beta fst_invoke s2_def [symmetric] e2_def [symmetric]
        e3_def [symmetric] s3_def [symmetric] te)
  then have O: "Open os (Some p) nPort s e =
    (if n = 0 then Returns (True, fst (store_addresses os s5 e5), snd (store_addresses os s5 e5))
     else Returns (False, s5, e5))"
    using assms(1-3) by (simp add: Open_def Let_def split_beta)
  show ?thesis
  proof (cases "n = 0")
    case True
    then show ?thesis using O s5 W(2) e3(3)
      by (intro exI [of _ "fst (store_addresses os s5 e5)"] exI [of _ "snd (store_addresses os s5 e5)"])
         (simp add: GetSocketError_def)
  next
    case False
    then show ?thesis using O s5 W(2,3) e3(3) by simp
  qed
qed

theorem Open_waits_for_connection_witness:
  "\<exists>s' e'. Open scripted (Some ''localhost'') 9 ((demo_active SocketTypeTcp 7)\<lparr>m_bIsBlocking := False\<rparr>)
      (start_env [(ok 0)\<lparr>host := Some loopback\<rparr>, fail EINPROGRESS,
                  (ok 1)\<lparr>fdsets := Some ({}, {7}, {})\<rparr>, (ok 0)\<lparr>data := to_bytes32 111\<rparr>]) = Returns (False, s', e')
     \<and> GetSocketError s' = SocketConnectionRefused"
proof -
  let ?s = "(demo_active SocketTypeTcp 7)\<lparr>m_bIsBlocking := False\<rparr>"
  let ?r0 = "(ok 0)\<lparr>host := Some loopback\<rparr>" and ?r1 = "fail EINPROGRESS"
    and ?r2 = "(ok 1)\<lparr>fdsets := Some ({}, {7 :: int}, {})\<rparr>" and ?r3 = "(ok 0)\<lparr>data := to_bytes32 111\<rparr>"
  have l: "lawful ?r0 = ?r0" "lawful ?r1 = ?r1" "lawful ?r2 = ?r2" "lawful ?r3 = ?r3"
    by (simp_all add: lawful_def in_int_def ok_def fail_def)
  have k: "kernel scripted c (world (start_env [?r0, ?r1, ?r2, ?r3])) = (?r0, [?r1, ?r2, ?r3])"
    "kernel scripted c (snd (clock scripted [?r1, ?r2, ?r3])) = (?r1, [?r2, ?r3])"
    "kernel scripted c [?r2, ?r3] = (?r2, [?r3])"
    "kernel scripted c [?r3] = (?r3, [])" for c
    by (simp_all add: l)
  have "IsSocketValid ?s" "IsNonblocking ?s" "fd_in_range (m_socket ?s)" "ready ?r2 ?s"
    by (simp_all add: IsSocketValid_iff IsNonblocking_def fd_in_range_def ready_def stored_sets_def)
  note h = this
  show ?thesis
    using Open_waits_for_connection [OF h(1) _ _ h(2,3) k(1) _ loopback_ipv4 _ k(2) _ _ k(3) _ h(4) k(4), of 9 111]
    by (simp add: ok_def fail_def translate_errno_def) blast
qed

end
