(* ===== verification/Passive_Socket.thy ===== *)
theory Passive_Socket imports Active_Socket begin

text \<open>
  The class \<open>CPassiveSocket\<close>: binding to an address, listening, accepting connections
  and joining a multicast group. \<open>Accept\<close> creates a \<open>CActiveSocket\<close>.
\<close>

record cpassive = csocket +
  m_stMulticastRequest :: ip_mreq

definition CPassiveSocket :: "CSocketType \<Rightarrow> cpassive \<Rightarrow> cpassive" where
  "CPassiveSocket nType raw = CSimpleSocket nType raw"

definition CPassiveSocket_destroy :: "'w os \<Rightarrow> cpassive \<Rightarrow> 'w env \<Rightarrow> cpassive \<times> 'w env" where
  "CPassiveSocket_destroy os s e =
     (let (b, s1, e1) = Close os s e in (CSimpleSocket_destroy s1, e1))"

section \<open>Binding\<close>

text \<open>
  The address to bind to: any interface for a null or empty string; otherwise the address
  that \<open>inet_addr\<close> reads, and the zero left by \<open>memset\<close> when it reads none.
\<close>

definition bind_address :: "'w os \<Rightarrow> string option \<Rightarrow> uint16 \<Rightarrow> sockaddr_in" where
  "bind_address os pAddr nPort =
     (let a0 = sockaddr_zero\<lparr>sin_family := ucast AF_INET, sin_port := htons nPort\<rparr>
      in case pAddr of
           None \<Rightarrow> a0\<lparr>sin_addr := htonl INADDR_ANY\<rparr>
         | Some p \<Rightarrow>
             (if length p = 0 then a0\<lparr>sin_addr := htonl INADDR_ANY\<rparr>
              else (let inAddr = inet_addr os p
                    in if inAddr \<noteq> INADDR_NONE then a0\<lparr>sin_addr := inAddr\<rparr> else a0)))"

definition BindMulticast ::
  "'w os \<Rightarrow> string option \<Rightarrow> string \<Rightarrow> uint16 \<Rightarrow> cpassive \<Rightarrow> 'w env \<Rightarrow> bool \<times> cpassive \<times> 'w env" where
  "BindMulticast os pInterface pGroup nPort s e =
     (let s1 = s\<lparr>m_stMulticastGroup := bind_address os pInterface nPort\<rparr>;
          (r, e1) = invoke os (Sys_bind (m_socket s1) (m_stMulticastGroup s1)) e;
          (bRetVal, s2, e2) =
            (if i32 (ret r) = 0 then
               (let s1' = s1\<lparr>m_stMulticastRequest :=
                              \<lparr>imr_multiaddr = inet_addr os pGroup,
                               imr_interface = sin_addr (m_stMulticastGroup s1)\<rparr>\<rparr>;
                    (r1, e1') = setsockopt os (m_socket s1') IPPROTO_IP IP_ADD_MEMBERSHIP
                                  (Opt_ip_mreq (m_stMulticastRequest s1')) e1;
                    b = (r1 = error_code SocketSuccess);
                    (s1'', e1'') = timer_end os s1' e1'
                in (b, s1'', e1''))
             else (False, s1, e1));
          (s3, e3) = timer_start os s2 e2;
          s4 = TranslateSocketError s3 e3
      in if bRetVal = False then (let (c, s5, e5) = Close os s4 e3 in (bRetVal, s5, e5))
         else (bRetVal, s4, e3))"

definition Listen ::
  "'w os \<Rightarrow> string option \<Rightarrow> uint16 \<Rightarrow> int32 \<Rightarrow> cpassive \<Rightarrow> 'w env \<Rightarrow> bool \<times> cpassive \<times> 'w env" where
  "Listen os pAddr nPort nConnectionBacklog s e =
     (let nReuse = IPTOS_LOWDELAY;
          (r1, e1) = setsockopt os (m_socket s) SOL_SOCKET SO_REUSEADDR (Opt_int nReuse) e;
          (r2, e2) = setsockopt os (m_socket s) IPPROTO_TCP IP_TOS (Opt_int nReuse) e1;
          s1 = s\<lparr>m_stServerSockaddr := bind_address os pAddr nPort\<rparr>;
          (s2, e3) = timer_start os s1 e2;
          (r4, e4) = invoke os (Sys_bind (m_socket s2) (m_stServerSockaddr s2)) e3;
          (bRetVal, e5) =
            (if i32 (ret r4) \<noteq> error_code SocketError then
               (if m_nSocketType s2 = SocketTypeTcp then
                  (let (r5, e5) = invoke os (Sys_listen (m_socket s2) nConnectionBacklog) e4
                   in (if i32 (ret r5) \<noteq> error_code SocketError then (True, e5) else (False, e5)))
                else (True, e4))
             else (False, e4));
          (s3, e6) = timer_end os s2 e5;
          s4 = TranslateSocketError s3 e6
      in if bRetVal = False then
           (let error = GetSocketError s4;
                (c, s5, e7) = Close os s4 e6
            in (bRetVal, SetSocketError error s5, e7))
         else (bRetVal, s4, e6))"

section \<open>Accepting\<close>

text \<open>
  The body of the loop of \<open>Accept\<close>, over the new client object, the listening object,
  the environment and the local \<open>socketErrno\<close>.
\<close>

type_synonym 'w accept_state = "cactive \<times> cpassive \<times> 'w env \<times> CSocketError"

definition accept_attempt :: "'w os \<Rightarrow> 'w accept_state \<Rightarrow> 'w accept_state outcome" where
  "accept_attempt os = (\<lambda>(p, s, e, socketErrno).
     let e0 = e\<lparr>errno := 0\<rparr>;
         (r, e1) = invoke os (Sys_accept (m_socket s)) e0;
         s1 = (case addr r of None \<Rightarrow> s | Some a \<Rightarrow> s\<lparr>m_stClientSockaddr := a\<rparr>);
         socket = i32 (ret r)
     in if socket \<noteq> -1 then
          (let p1 = TranslateSocketError (SetSocketHandle socket p) e1;
               socketErrno1 = GetSocketError p1;
               (r2, e2) = invoke os (Sys_getpeername (m_socket s1)) e1;
               p2 = p1\<lparr>m_stClientSockaddr := m_stClientSockaddr s1\<rparr>;
               (r3, e3) = invoke os (Sys_getsockname (m_socket s1)) e2;
               p3 = p2\<lparr>m_stServerSockaddr := (case addr r3 of None \<Rightarrow> sockaddr_zero | Some a \<Rightarrow> a)\<rparr>
           in Returns (p3, s1, e3, socketErrno1))
        else
          (let s2 = TranslateSocketError s1 e1
           in Returns (p, s2, e1, GetSocketError s2)))"

definition accept_interrupted :: "'w accept_state \<Rightarrow> bool" where
  "accept_interrupted x = (case x of (p, s, e, socketErrno) \<Rightarrow> socketErrno = SocketInterrupted)"

text \<open>\<open>raw\<close> is the heap memory that \<open>new CActiveSocket()\<close> constructs the client in.\<close>

definition Accept ::
  "'w os \<Rightarrow> cactive \<Rightarrow> cpassive \<Rightarrow> 'w env \<Rightarrow> (cactive option \<times> cpassive \<times> 'w env) outcome" where
  "Accept os raw s e =
     (if m_nSocketType s \<noteq> SocketTypeTcp
      then Returns (None, SetSocketError SocketProtocolError s, e)
      else
        (let pClientSocket = CActiveSocket SocketTypeTcp raw;
             (s1, e1) = timer_start os s e
         in obind (do_while (accept_attempt os) accept_interrupted (pClientSocket, s1, e1, SocketSuccess))
              (\<lambda>(p, s2, e2, socketErrno).
                 let (s3, e3) = timer_end os s2 e2
                 in if socketErrno \<noteq> SocketSuccess
                    then (let (d, e4) = CActiveSocket_destroy os p e3 in Returns (None, s3, e4))
                    else Returns (Some p, s3, e3))))"

section \<open>Sending\<close>

definition Passive_Send ::
  "'w os \<Rightarrow> byte list option \<Rightarrow> nat \<Rightarrow> cpassive \<Rightarrow> 'w env \<Rightarrow> (int32 \<times> cpassive \<times> 'w env) outcome" where
  "Passive_Send os pBuf bytesToSend s e =
     (let s0 = (SetSocketError SocketSuccess s)\<lparr>m_nBytesSent := 0\<rparr>
      in obind
        (case m_nSocketType s0 of
           SocketTypeUdp \<Rightarrow>
             (if IsSocketValid s0 \<and> 0 < bytesToSend \<and> pBuf \<noteq> None then
                (let (s1, e1) = timer_start os s0 e
                 in obind (read_buffer (the pBuf) bytesToSend) (\<lambda>bytes.
                    let (r, e2) = invoke os (Sys_sendto (m_socket s1) bytes 0 (m_stClientSockaddr s1)) e1;
                        s2 = s1\<lparr>m_nBytesSent := i32 (ret r)\<rparr>;
                        (s3, e3) = timer_end os s2 e2
                    in Returns (if m_nBytesSent s3 = error_code SocketError
                                then TranslateSocketError s3 e3 else s3, e3)))
              else Returns (s0, e))
         | SocketTypeTcp \<Rightarrow>
             obind (Send os pBuf bytesToSend s0 e) (\<lambda>(n, s1, e1). Returns (s1, e1))
         | _ \<Rightarrow> Returns (SetSocketError SocketProtocolError s0, e))
        (\<lambda>(s', e'). Returns (m_nBytesSent s', s', e')))"

lemma htonl_zero [simp]: "htonl 0 = 0"
  by (simp add: htonl_def byte_at_def)

section \<open>Properties of Listen and BindMulticast\<close>

abbreviation (input) reuse_call :: "'a csocket_scheme \<Rightarrow> syscall" where
  "reuse_call s \<equiv> Sys_setsockopt (m_socket s) SOL_SOCKET SO_REUSEADDR (Opt_int IPTOS_LOWDELAY)"

abbreviation (input) tos_call :: "'a csocket_scheme \<Rightarrow> syscall" where
  "tos_call s \<equiv> Sys_setsockopt (m_socket s) IPPROTO_TCP IP_TOS (Opt_int IPTOS_LOWDELAY)"

lemma bind_address_sel [simp]:
  "sin_family (bind_address os pAddr nPort) = 2" "sin_port (bind_address os pAddr nPort) = htons nPort"
  by (simp_all add: bind_address_def Let_def split: option.split)

text \<open>
  C32. \<open>Listen\<close> on a stream socket sets the two options whatever they answer, binds the
  socket to the port in network order and listens with the backlog given; it returns true
  when the system accepts both, and the error is then what the options left in \<open>errno\<close>.
\<close>

theorem Listen_binds_and_listens:
  assumes "m_nSocketType s = SocketTypeTcp"
    and "kernel os (reuse_call s) (world e) = (r1, w1)" and "kernel os (tos_call s) w1 = (r2, w2)"
    and "kernel os (Sys_bind (m_socket s) (bind_address os pAddr nPort)) (snd (clock os w2)) = (r3, w3)"
    and "ret r3 = 0" and "err r3 = None"
    and "kernel os (Sys_listen (m_socket s) backlog) w3 = (r4, w4)" and "ret r4 = 0" and "err r4 = None"
  shows "\<exists>s' e'. Listen os pAddr nPort backlog s e = (True, s', e')
     \<and> trace e' = trace e @ [reuse_call s, tos_call s,
          Sys_bind (m_socket s) (bind_address os pAddr nPort), Sys_listen (m_socket s) backlog]
     \<and> GetServerPort s' = nPort \<and> m_socket s' = m_socket s
     \<and> GetSocketError s' = translate_errno (set_errno r2 (set_errno r1 (errno e)))"
proof -
  let ?a = "bind_address os pAddr nPort"
  obtain e1 where i1: "invoke os (reuse_call s) e = (r1, e1)" "world e1 = w1"
    "errno e1 = set_errno r1 (errno e)" "trace e1 = trace e @ [reuse_call s]"
    using assms(2) by (rule invoke_step)
  from assms(3) have "kernel os (tos_call s) (world e1) = (r2, w2)" by (simp add: i1)
  then obtain e2 where i2: "invoke os (tos_call s) e1 = (r2, e2)" "world e2 = w2"
    "errno e2 = set_errno r2 (errno e1)" "trace e2 = trace e1 @ [tos_call s]"
    by (rule invoke_step)
  obtain s3 e3 where t: "timer_start os (s\<lparr>m_stServerSockaddr := ?a\<rparr>) e2 = (s3, e3)" by fastforce
  then have s3: "m_socket s3 = m_socket s" "m_stServerSockaddr s3 = ?a" "m_nSocketType s3 = SocketTypeTcp"
    "world e3 = snd (clock os w2)" "errno e3 = errno e2" "trace e3 = trace e2"
    using assms(1) i2 by (auto simp: timer_start_eq)
  from assms(4) have "kernel os (Sys_bind (m_socket s) ?a) (world e3) = (r3, w3)" by (simp add: s3)
  then obtain e4 where i4: "invoke os (Sys_bind (m_socket s) ?a) e3 = (r3, e4)" "world e4 = w3"
    "errno e4 = set_errno r3 (errno e3)" "trace e4 = trace e3 @ [Sys_bind (m_socket s) ?a]"
    by (rule invoke_step)
  from assms(7) have "kernel os (Sys_listen (m_socket s) backlog) (world e4) = (r4, w4)" by (simp add: i4)
  then obtain e5 where i5: "invoke os (Sys_listen (m_socket s) backlog) e4 = (r4, e5)"
    "errno e5 = set_errno r4 (errno e4)" "trace e5 = trace e4 @ [Sys_listen (m_socket s) backlog]"
    by (rule invoke_step)
  obtain s6 e6 where te: "timer_end os s3 e5 = (s6, e6)" by fastforce
  then have s6: "m_socket s6 = m_socket s" "m_stServerSockaddr s6 = ?a" "errno e6 = errno e5" "trace e6 = trace e5"
    using s3 by (auto simp: timer_end_eq)
  have "Listen os pAddr nPort backlog s e = (True, TranslateSocketError s6 e6, e6)"
    using assms(5,8)
    by (simp add: Listen_def setsockopt_def i1(1) i2(1) t s3(1-3) i4(1) i5(1) te)
  then show ?thesis
    using assms(6,9) i1 i2 s3 i4 i5 s6
    by (simp add: TranslateSocketError_def SetSocketError_def GetSocketError_def
        GetServerPort_def set_errno_def)
qed

text \<open>
  C33. When the port is taken, \<open>Listen\<close> returns false, closes the descriptor it had and
  reports the error of \<open>bind\<close>, not what \<open>Close\<close> leaves.
\<close>

theorem Listen_keeps_bind_error:
  assumes "kernel os (reuse_call s) (world e) = (r1, w1)" and "kernel os (tos_call s) w1 = (r2, w2)"
    and "kernel os (Sys_bind (m_socket s) (bind_address os pAddr nPort)) (snd (clock os w2)) = (r3, w3)"
    and "ret r3 = -1" and "err r3 = Some n"
  shows "\<exists>s' e'. Listen os pAddr nPort backlog s e = (False, s', e')
     \<and> GetSocketError s' = translate_errno n \<and> GetData s' = None
     \<and> trace e' = trace e @ [reuse_call s, tos_call s, Sys_bind (m_socket s) (bind_address os pAddr nPort)]
          @ (if IsSocketValid s then [Sys_close (m_socket s)] else [])"
proof -
  let ?a = "bind_address os pAddr nPort"
  obtain e1 where i1: "invoke os (reuse_call s) e = (r1, e1)" "world e1 = w1" "trace e1 = trace e @ [reuse_call s]"
    using assms(1) by (rule invoke_step)
  from assms(2) have "kernel os (tos_call s) (world e1) = (r2, w2)" by (simp add: i1)
  then obtain e2 where i2: "invoke os (tos_call s) e1 = (r2, e2)" "world e2 = w2"
    "trace e2 = trace e1 @ [tos_call s]"
    by (rule invoke_step)
  obtain s3 e3 where t: "timer_start os (s\<lparr>m_stServerSockaddr := ?a\<rparr>) e2 = (s3, e3)" by fastforce
  then have s3: "m_socket s3 = m_socket s" "m_stServerSockaddr s3 = ?a"
    "world e3 = snd (clock os w2)" "trace e3 = trace e2"
    using i2 by (auto simp: timer_start_eq)
  from assms(3) have "kernel os (Sys_bind (m_socket s) ?a) (world e3) = (r3, w3)" by (simp add: s3)
  then obtain e4 where i4: "invoke os (Sys_bind (m_socket s) ?a) e3 = (r3, e4)"
    "errno e4 = n" "trace e4 = trace e3 @ [Sys_bind (m_socket s) ?a]"
    using invoke_step [of os "Sys_bind (m_socket s) ?a" e3 r3 w3] assms(5) by (auto simp: set_errno_def)
  obtain s5 e5 where te: "timer_end os s3 e4 = (s5, e5)" by fastforce
  then have s5: "m_socket s5 = m_socket s" "errno e5 = n" "trace e5 = trace e4"
    using s3 i4 by (auto simp: timer_end_eq)
  have "Listen os pAddr nPort backlog s e =
    (let (c, s6, e6) = Close os (TranslateSocketError s5 e5) e5
     in (False, SetSocketError (translate_errno n) s6, e6))"
    using assms(4) s5(2)
    by (simp add: Listen_def setsockopt_def i1(1) i2(1) t s3(1,2) i4(1) te
        TranslateSocketError_def SetSocketError_def GetSocketError_def)
  then show ?thesis
    using i1(3) i2(3) s3(4) i4(3) s5
    by (simp add: Close_eq Let_def split_beta SetSocketError_def GetSocketError_def GetData_def
        TranslateSocketError_def IsSocketValid_iff)
qed

text \<open>
  C37. An address that \<open>inet_addr\<close> cannot read, a host name for one, is not refused: \<open>Listen\<close> does
  exactly what it does for a null address, and binds to every interface.
\<close>

theorem Listen_bad_address_binds_any:
  assumes "inet_addr os p = INADDR_NONE"
  shows "Listen os (Some p) nPort backlog s e = Listen os None nPort backlog s e
    \<and> sin_addr (bind_address os (Some p) nPort) = htonl INADDR_ANY"
proof -
  have "bind_address os (Some p) nPort = bind_address os None nPort"
    using assms by (simp add: bind_address_def Let_def sockaddr_zero_def htonl_zero)
  then show ?thesis by (simp add: Listen_def) (simp add: bind_address_def Let_def)
qed


text \<open>
  Joining a multicast group: \<open>BindMulticast\<close> binds to the interface and the port and joins
  the group on that interface, and returns true when the system accepts both. Its timer is
  started after the end time was taken, so it ends with no end time.
\<close>

theorem BindMulticast_joins:
  assumes "kernel os (Sys_bind (m_socket s) (bind_address os pInterface nPort)) (world e) = (r1, w1)"
    and "ret r1 = 0"
    and "kernel os (Sys_setsockopt (m_socket s) IPPROTO_IP IP_ADD_MEMBERSHIP
           (Opt_ip_mreq \<lparr>imr_multiaddr = inet_addr os pGroup,
                         imr_interface = sin_addr (bind_address os pInterface nPort)\<rparr>)) w1 = (r2, w2)"
    and "ret r2 = 0"
  shows "\<exists>s' e'. BindMulticast os pInterface pGroup nPort s e = (True, s', e')
     \<and> trace e' = trace e @ [Sys_bind (m_socket s) (bind_address os pInterface nPort),
          Sys_setsockopt (m_socket s) IPPROTO_IP IP_ADD_MEMBERSHIP
           (Opt_ip_mreq \<lparr>imr_multiaddr = inet_addr os pGroup,
                         imr_interface = sin_addr (bind_address os pInterface nPort)\<rparr>)]
     \<and> m_stMulticastGroup s' = bind_address os pInterface nPort \<and> m_socket s' = m_socket s
     \<and> GetEndTime (m_timer s') = timeval_zero"
  using assms
  by (simp add: BindMulticast_def setsockopt_def Let_def split_beta fst_invoke snd_invoke timer_start_eq
      timer_end_eq TranslateSocketError_def SetSocketError_def GetEndTime_def)

section \<open>Properties of Accept\<close>

interpretation accept: retry_loop "accept_attempt os" accept_interrupted "\<lambda>x. snd (snd (snd x))"
  for os :: "'w os"
  by unfold_locales (simp_all add: accept_attempt_def accept_interrupted_def Let_def split_beta)

text \<open>A pass that a signal interrupts, and one that gets a connection.\<close>

lemma fail_sel [simp]:
  "ret (fail n) = -1" "err (fail n) = Some n" "data (fail n) = []" "addr (fail n) = None"
  "fdsets (fail n) = None"
  by (simp_all add: fail_def ok_def)

lemma accept_attempt_interrupted:
  assumes "kernel os (Sys_accept (m_socket s)) (world e) = (fail EINTR, w)"
  shows "\<exists>s1 e1. accept_attempt os (p, s, e, x) = Returns (p, s1, e1, SocketInterrupted)
    \<and> m_socket s1 = m_socket s \<and> m_stClientSockaddr s1 = m_stClientSockaddr s
    \<and> world e1 = w \<and> trace e1 = trace e @ [Sys_accept (m_socket s)]"
  using assms
  by (simp add: accept_attempt_def Let_def split_beta fst_invoke snd_invoke set_errno_def
      TranslateSocketError_def SetSocketError_def GetSocketError_def translate_errno_def)

lemma accept_attempt_connected:
  assumes "kernel os (Sys_accept (m_socket s)) (world e) = (r, w)" and "i32 (ret r) \<noteq> -1"
    and "err r = None" and "addr r = Some peer"
  shows "\<exists>p1 s1 e1. accept_attempt os (p, s, e, x) = Returns (p1, s1, e1, SocketSuccess)
    \<and> m_socket p1 = i32 (ret r) \<and> m_stClientSockaddr p1 = peer \<and> m_stClientSockaddr s1 = peer
    \<and> GetSocketError p1 = SocketSuccess \<and> m_nSocketType p1 = m_nSocketType p
    \<and> m_socket s1 = m_socket s
    \<and> trace e1 = trace e @ [Sys_accept (m_socket s), Sys_getpeername (m_socket s), Sys_getsockname (m_socket s)]"
  using assms
  by (simp add: accept_attempt_def Let_def split_beta fst_invoke snd_invoke set_errno_def
      TranslateSocketError_def SetSocketError_def GetSocketError_def SetSocketHandle_def translate_errno_def)

text \<open>Any number of interrupted passes.\<close>

lemma accept_retries:
  assumes "world e = w 0"
    and "\<And>i. i < k \<Longrightarrow> kernel os (Sys_accept (m_socket s)) (w i) = (fail EINTR, w (Suc i))"
  shows "\<exists>s1 e1 y. do_while (accept_attempt os) accept_interrupted (p, s, e, x)
      = do_while (accept_attempt os) accept_interrupted (p, s1, e1, y)
    \<and> m_socket s1 = m_socket s \<and> world e1 = w k \<and> trace e1 = trace e @ replicate k (Sys_accept (m_socket s))"
  using assms
proof (induction k)
  case 0
  then show ?case by auto
next
  case (Suc k)
  then obtain s1 e1 y where IH: "do_while (accept_attempt os) accept_interrupted (p, s, e, x)
      = do_while (accept_attempt os) accept_interrupted (p, s1, e1, y)"
    "m_socket s1 = m_socket s" "world e1 = w k" "trace e1 = trace e @ replicate k (Sys_accept (m_socket s))"
    by auto
  have "kernel os (Sys_accept (m_socket s1)) (world e1) = (fail EINTR, w (Suc k))"
    using Suc.prems(2) [of k] IH by simp
  from accept_attempt_interrupted [OF this, of p y] obtain s2 e2 where
    s2: "accept_attempt os (p, s1, e1, y) = Returns (p, s2, e2, SocketInterrupted)"
    "m_socket s2 = m_socket s1" "world e2 = w (Suc k)" "trace e2 = trace e1 @ [Sys_accept (m_socket s1)]"
    by blast
  have "do_while (accept_attempt os) accept_interrupted (p, s1, e1, y)
      = do_while (accept_attempt os) accept_interrupted (p, s2, e2, SocketInterrupted)"
    by (rule accept.repeats) (simp_all add: s2)
  then show ?case using IH s2(2-4) by (auto simp: replicate_append_same)
qed

lemma CActiveSocket_type [simp]:
  "m_nSocketType (CActiveSocket t raw) = t" "m_pBuffer (CActiveSocket t raw) = None"
  by (cases t; simp add: CActiveSocket_def CSimpleSocket_def SetConnectTimeout_def Let_def)+

text \<open>
  C2. \<open>Accept\<close> on a stream socket calls again after every interruption, however many there are,
  and then returns a client of stream type with the descriptor of the connection, the
  address of the peer and a success code.
\<close>

theorem Accept_retries:
  assumes "m_nSocketType s = SocketTypeTcp" and "snd (clock os (world e)) = w 0"
    and "\<And>i. i < k \<Longrightarrow> kernel os (Sys_accept (m_socket s)) (w i) = (fail EINTR, w (Suc i))"
    and "kernel os (Sys_accept (m_socket s)) (w k) = (r, v)"
    and "i32 (ret r) \<noteq> -1" and "err r = None" and "addr r = Some peer"
  shows "\<exists>p s' e'. Accept os raw s e = Returns (Some p, s', e')
     \<and> m_socket p = i32 (ret r) \<and> GetSocketType p = SocketTypeTcp \<and> GetSocketError p = SocketSuccess
     \<and> m_stClientSockaddr p = peer \<and> m_stClientSockaddr s' = peer \<and> m_socket s' = m_socket s
     \<and> trace e' = trace e @ replicate (Suc k) (Sys_accept (m_socket s))
          @ [Sys_getpeername (m_socket s), Sys_getsockname (m_socket s)]"
proof -
  obtain s1 e1 where st: "timer_start os s e = (s1, e1)" by fastforce
  then have s1: "m_socket s1 = m_socket s" "world e1 = w 0" "trace e1 = trace e"
    using assms(2) by (auto simp: timer_start_eq)
  let ?p = "CActiveSocket SocketTypeTcp raw"
  obtain s2 e2 y where L: "do_while (accept_attempt os) accept_interrupted (?p, s1, e1, SocketSuccess)
      = do_while (accept_attempt os) accept_interrupted (?p, s2, e2, y)"
    "m_socket s2 = m_socket s" "world e2 = w k" "trace e2 = trace e @ replicate k (Sys_accept (m_socket s))"
    using accept_retries [of e1 w k os s1 ?p SocketSuccess] assms(3) s1 by auto
  have "kernel os (Sys_accept (m_socket s2)) (world e2) = (r, v)" using assms(4) L by simp
  from accept_attempt_connected [OF this assms(5-7), of ?p y] obtain p3 s3 e3 where
    A: "accept_attempt os (?p, s2, e2, y) = Returns (p3, s3, e3, SocketSuccess)"
    "m_socket p3 = i32 (ret r)" "m_stClientSockaddr p3 = peer" "m_stClientSockaddr s3 = peer"
    "GetSocketError p3 = SocketSuccess" "m_nSocketType p3 = SocketTypeTcp" "m_socket s3 = m_socket s"
    "trace e3 = trace e2 @ [Sys_accept (m_socket s), Sys_getpeername (m_socket s), Sys_getsockname (m_socket s)]"
    using L(2) by auto
  have "do_while (accept_attempt os) accept_interrupted (?p, s1, e1, SocketSuccess) = Returns (p3, s3, e3, SocketSuccess)"
    unfolding L(1) by (rule accept.settles [OF A(1)]) simp
  then show ?thesis
    using assms(1) A(2-8) L(4)
    by (simp add: Accept_def st timer_end_eq GetSocketType_def replicate_append_same [symmetric])
qed


definition demo_passive :: "CSocketType \<Rightarrow> SOCKET \<Rightarrow> cpassive" where
  "demo_passive t fd = SetSocketHandle fd (CPassiveSocket t
     (csocket.extend raw_socket (cpassive.fields \<lparr>imr_multiaddr = 0, imr_interface = 0\<rparr>)))"

lemma demo_passive_sel [simp]:
  "m_socket (demo_passive t fd) = fd" "m_nSocketType (demo_passive t fd) = t"
  "m_socketErrno (demo_passive t fd) = SocketInvalidSocket" "m_pBuffer (demo_passive t fd) = None"
  "m_stClientSockaddr (demo_passive t fd) = sockaddr_zero"
  by (cases t; simp add: demo_passive_def CPassiveSocket_def SetSocketHandle_def CSimpleSocket_def
      SetConnectTimeout_def Let_def csocket.defs cpassive.defs raw_socket_def)+

definition raw_active :: cactive where
  "raw_active = csocket.extend raw_socket (cactive.fields None)"

theorem Listen_binds_and_listens_witness:
  "\<exists>s' e'. Listen scripted None 6789 5 (demo_passive SocketTypeTcp 3) (start_env [ok 0, fail ENOPROTOOPT, ok 0, ok 0])
      = (True, s', e')
     \<and> GetServerPort s' = 6789 \<and> GetSocketError s' = translate_errno ENOPROTOOPT"
proof -
  have k: "kernel scripted c (world (start_env [ok 0, fail ENOPROTOOPT, ok 0, ok 0])) = (ok 0, [fail ENOPROTOOPT, ok 0, ok 0])"
    "kernel scripted c [fail ENOPROTOOPT, ok 0, ok 0] = (fail ENOPROTOOPT, [ok 0, ok 0])"
    "kernel scripted c (snd (clock scripted [ok 0, ok 0])) = (ok 0, [ok 0])"
    "kernel scripted c [ok 0] = (ok 0, [])" for c
    by simp_all
  show ?thesis
    using Listen_binds_and_listens [where s = "demo_passive SocketTypeTcp 3", OF _ k(1,2,3) _ _ k(4)]
    by (simp add: ok_def set_errno_def) blast
qed

theorem Listen_keeps_bind_error_witness:
  "\<exists>s' e'. Listen scripted (Some ''127.0.0.1'') 80 5 (demo_passive SocketTypeTcp 3)
        (start_env [ok 0, ok 0, fail EADDRINUSE, ok 0]) = (False, s', e')
     \<and> GetSocketError s' = translate_errno EADDRINUSE"
proof -
  have k: "kernel scripted c (world (start_env [ok 0, ok 0, fail EADDRINUSE, ok 0])) = (ok 0, [ok 0, fail EADDRINUSE, ok 0])"
    "kernel scripted c [ok 0, fail EADDRINUSE, ok 0] = (ok 0, [fail EADDRINUSE, ok 0])"
    "kernel scripted c (snd (clock scripted [fail EADDRINUSE, ok 0])) = (fail EADDRINUSE, [ok 0])" for c
    by simp_all
  show ?thesis
    using Listen_keeps_bind_error [where s = "demo_passive SocketTypeTcp 3", OF k]
    by simp blast
qed

theorem Listen_bad_address_binds_any_witness:
  "Listen scripted (Some ''localhost'') 6789 5 (demo_passive SocketTypeTcp 3) (start_env [])
     = Listen scripted None 6789 5 (demo_passive SocketTypeTcp 3) (start_env [])"
  using Listen_bad_address_binds_any [of scripted "''localhost''"] by (simp add: dotted_quads_def)

theorem BindMulticast_joins_witness:
  "\<exists>s' e'. BindMulticast scripted None ''127.0.0.1'' 6000 (demo_passive SocketTypeUdp 3) (start_env [ok 0, ok 0])
      = (True, s', e') \<and> GetEndTime (m_timer s') = timeval_zero"
proof -
  have k: "kernel scripted c (world (start_env [ok 0, ok 0])) = (ok 0, [ok 0])"
    "kernel scripted c [ok 0] = (ok 0, [])" for c by simp_all
  show ?thesis
    using BindMulticast_joins [where s = "demo_passive SocketTypeUdp 3", OF k(1) _ k(2)]
    by (simp add: ok_def) blast
qed

theorem Accept_retries_witness:
  "\<exists>p s' e'. Accept scripted raw_active (demo_passive SocketTypeTcp 3)
       (start_env [fail EINTR, fail EINTR, (ok 8)\<lparr>addr := Some (server_address 0x0100007F 40000)\<rparr>])
      = Returns (Some p, s', e')
     \<and> m_socket p = 8 \<and> GetSocketError p = SocketSuccess"
proof -
  let ?a = "server_address 0x0100007F 40000"
  let ?r = "(ok 8)\<lparr>addr := Some ?a\<rparr>"
  define w where "w = (\<lambda>i. drop i [fail EINTR, fail EINTR, ?r])"
  have l: "lawful ?r = ?r" by (simp add: lawful_def in_int_def ok_def)
  have "kernel scripted c (w i) = (fail EINTR, w (Suc i))" if "i < 2" for c i
    using that by (auto simp: w_def less_2_cases_iff)
  moreover have "kernel scripted c (w 2) = (?r, [])" for c by (simp add: w_def l)
  moreover have "snd (clock scripted (world (start_env [fail EINTR, fail EINTR, ?r]))) = w 0" by (simp add: w_def)
  ultimately show ?thesis
    using Accept_retries [of "demo_passive SocketTypeTcp 3" scripted "start_env [fail EINTR, fail EINTR, ?r]" w 2 ?r "[]" ?a raw_active]
    by (simp add: ok_def) blast
qed

lemma accept_pass:
  assumes "accept_reports os" and "accept_attempt os (p, s, e, x) = Returns (p', s', e', y)"
  shows "m_socket s' = m_socket s \<and> m_nSocketType p' = m_nSocketType p \<and> m_pBuffer p' = m_pBuffer p \<and>
    (if y = SocketSuccess
     then IsSocketValid p' \<and> GetSocketError p' = SocketSuccess
          \<and> m_stClientSockaddr p' = m_stClientSockaddr s' \<and> GetSocketError s' = GetSocketError s
     else GetSocketError s' = y)"
proof -
  let ?c = "Sys_accept (m_socket s)"
  let ?r = "fst (kernel os ?c (world e))"
  have law: "reports_errors ?r" by (rule accept_reportsD [OF assms(1)])
  note m1 = reports_errors_minus_1 [OF law]
  have ag: "(translate_errno (set_errno ?r 0) = SocketSuccess) = (ret ?r \<noteq> -1)"
    by (simp add: linux.success_iff reports_errors_errno [OF law])
  show ?thesis
  proof (cases "ret ?r = -1")
    case True
    with m1 ag assms(2) show ?thesis
      by (cases "addr ?r")
         (auto simp: accept_attempt_def Let_def split_beta fst_invoke snd_invoke
           TranslateSocketError_def SetSocketError_def GetSocketError_def)
  next
    case False
    with m1 ag assms(2) show ?thesis
      by (cases "addr ?r")
         (auto simp: accept_attempt_def Let_def split_beta fst_invoke snd_invoke IsSocketValid_iff
           TranslateSocketError_def SetSocketError_def GetSocketError_def SetSocketHandle_def)
  qed
qed

lemma Accept_outcome:
  assumes "accept_reports os" and "GetSocketType s = SocketTypeTcp" and "Accept os raw s e = Returns (c, s', e')"
  shows "m_socket s' = m_socket s \<and>
    (case c of
       None \<Rightarrow> GetSocketError s' \<notin> {SocketSuccess, SocketInterrupted}
     | Some p \<Rightarrow> IsSocketValid p \<and> buffer_ok p \<and> GetSocketError p = SocketSuccess \<and> GetSocketType p = SocketTypeTcp
         \<and> m_stClientSockaddr p = m_stClientSockaddr s'
         \<and> GetSocketError s' \<in> {GetSocketError s, SocketInterrupted})"
proof -
  obtain s1 e1 where st: "timer_start os s e = (s1, e1)" by fastforce
  then have s1: "m_socket s1 = m_socket s" "GetSocketError s1 = GetSocketError s"
    by (auto simp: timer_start_eq GetSocketError_def)
  let ?start = "(CActiveSocket SocketTypeTcp raw, s1, e1, SocketSuccess)"
  obtain p s2 e2 y where L: "do_while (accept_attempt os) accept_interrupted ?start = Returns (p, s2, e2, y)"
    and fin: "m_socket s' = m_socket s2" "GetSocketError s' = GetSocketError s2"
      "m_stClientSockaddr s' = m_stClientSockaddr s2" "c = (if y = SocketSuccess then Some p else None)"
    using assms(2,3)
    by (auto simp: Accept_def st Let_def split_beta obind_eq_Returns timer_end_eq GetSocketType_def
        GetSocketError_def split: if_splits)
  let ?Q = "\<lambda>(p, s2, e2, y). m_socket s2 = m_socket s \<and> m_nSocketType p = SocketTypeTcp \<and> m_pBuffer p = None \<and>
    (if y = SocketSuccess
     then IsSocketValid p \<and> GetSocketError p = SocketSuccess
          \<and> m_stClientSockaddr p = m_stClientSockaddr s2
          \<and> GetSocketError s2 \<in> {GetSocketError s, SocketInterrupted}
     else GetSocketError s2 = y)"
  let ?P = "\<lambda>(p, s2, e2, y). m_socket s2 = m_socket s \<and> m_nSocketType p = SocketTypeTcp \<and> m_pBuffer p = None
     \<and> GetSocketError s2 \<in> {GetSocketError s, SocketInterrupted}"
  have "?Q (p, s2, e2, y) \<and> \<not> accept_interrupted (p, s2, e2, y)"
  proof (rule do_while_rule [OF L, where P = ?P and Q = ?Q])
    show "?P ?start" using s1 by simp
    show "?Q y" if "?P x" "accept_attempt os x = Returns y" for x y
      using that accept_pass [OF assms(1)] by (cases x; cases y) (fastforce split: if_splits)
    show "?P y" if "?Q y" "accept_interrupted y" for y
      using that by (cases y) (auto simp: accept_interrupted_def)
  qed
  then show ?thesis
    using fin by (auto simp: accept_interrupted_def GetSocketType_def split: if_splits)
qed



section \<open>Sending from the passive socket\<close>

lemma Passive_Send_once:
  assumes "m_nSocketType s = SocketTypeUdp" and "IsSocketValid s" and "0 < n" and "n \<le> length buf"
    and "kernel os (Sys_sendto (m_socket s) (take n buf) 0 (m_stClientSockaddr s)) (snd (clock os (world e))) = (r, w)"
  shows "\<exists>s' e'. Passive_Send os (Some buf) n s e = Returns (i32 (ret r), s', e')
     \<and> trace e' = trace e @ [Sys_sendto (m_socket s) (take n buf) 0 (m_stClientSockaddr s)]
     \<and> GetBytesSent s' = i32 (ret r)
     \<and> GetSocketError s' = (if i32 (ret r) = -1 then translate_errno (set_errno r (errno e)) else SocketSuccess)"
  using assms
  by (simp add: Passive_Send_def read_buffer_def IsSocketValid_iff Let_def split_beta fst_invoke snd_invoke
      timer_start_eq timer_end_eq TranslateSocketError_def SetSocketError_def GetSocketError_def GetBytesSent_def)

text \<open>
  On a datagram socket the passive \<open>Send\<close> makes one call, to the address of the last sender,
  and sets an error only if it fails: it neither retries nor reports an \<open>errno\<close> from before.
\<close>

theorem Passive_Send_replies:
  assumes "m_nSocketType s = SocketTypeUdp" and "IsSocketValid s" and "0 < n" and "n \<le> length buf"
    and "kernel os (Sys_sendto (m_socket s) (take n buf) 0 (m_stClientSockaddr s)) (snd (clock os (world e))) = (r, w)"
  shows "\<exists>s' e'. Passive_Send os (Some buf) n s e = Returns (i32 (ret r), s', e')
     \<and> trace e' = trace e @ [Sys_sendto (m_socket s) (take n buf) 0 (m_stClientSockaddr s)]
     \<and> GetBytesSent s' = i32 (ret r)
     \<and> GetSocketError s' = (if i32 (ret r) = -1 then translate_errno (set_errno r (errno e)) else SocketSuccess)"
  using assms by (rule Passive_Send_once)

theorem Passive_Send_replies_witness:
  "\<exists>s' e'. Passive_Send scripted (Some [1, 2]) 2 (demo_passive SocketTypeUdp 3) ((start_env [ok 2])\<lparr>errno := EINTR\<rparr>)
      = Returns (2, s', e')
     \<and> GetSocketError s' = SocketSuccess"
proof -
  have k: "kernel scripted c (snd (clock scripted (world ((start_env [ok 2])\<lparr>errno := EINTR\<rparr>)))) = (ok 2, [])" for c
    by simp
  show ?thesis
    using Passive_Send_replies [OF _ _ _ _ k, of "demo_passive SocketTypeUdp 3" 2 "[1, 2]"]
    by (simp add: IsSocketValid_iff ok_def) blast
qed

end
