(* ===== verification/Socket_Receive.thy ===== *)
theory Socket_Receive imports Socket_Transfer begin

text \<open>
  What \<open>Receive\<close> does: the buffer it fills, the call it makes, what a failure and an
  interruption lead to, and what every run of its loop keeps.
\<close>


section \<open>Running Receive\<close>

text \<open>
  The call that one pass of \<open>Receive\<close> makes, the member that takes the sender's address,
  the loop body, and what follows the loop.
\<close>

definition receive_call :: "'a csocket_scheme \<Rightarrow> int32 \<Rightarrow> syscall" where
  "receive_call s n =
     (if m_nSocketType s = SocketTypeTcp then Sys_recv (m_socket s) n (m_nFlags s)
      else Sys_recvfrom (m_socket s) n 0)"

definition store_sender :: "reply \<Rightarrow> 'a csocket_scheme \<Rightarrow> 'a csocket_scheme" where
  "store_sender r s =
     (case addr r of
        None \<Rightarrow> s
      | Some a \<Rightarrow> if m_nSocketType s = SocketTypeTcp then s
                  else if GetMulticast s then s\<lparr>m_stMulticastGroup := a\<rparr>
                  else s\<lparr>m_stClientSockaddr := a\<rparr>)"

definition receive_body ::
  "'w os \<Rightarrow> int32 \<Rightarrow> 'b csocket_scheme \<Rightarrow> ('a, 'w) receive_state \<Rightarrow> ('a, 'w) receive_state outcome" where
  "receive_body os n s =
     (if m_nSocketType s = SocketTypeTcp then recv_attempt os n
      else if GetMulticast s then recvfrom_multicast_attempt os n else recvfrom_attempt os n)"

definition receive_finish ::
  "'w os \<Rightarrow> byte list option \<Rightarrow> ('a, 'w) receive_state \<Rightarrow>
     (int32 \<times> byte list option \<times> 'a csocket_scheme \<times> 'w env) outcome" where
  "receive_finish os pBuffer x =
     (let (s4, e4, buf) = x;
          s5 = (if pBuffer = None then s4\<lparr>m_pBuffer := Some buf\<rparr> else s4);
          (s6, e6) = timer_end os s5 e4;
          s7 = TranslateSocketError s6 e6;
          s8 = (if m_nBytesReceived s7 = -1 then s7\<lparr>m_pBuffer := None\<rparr> else s7)
      in Returns (m_nBytesReceived s8, (if pBuffer = None then None else Some buf), s8, e6))"

definition work_buffer :: "byte list option \<Rightarrow> 'a csocket_scheme \<Rightarrow> byte list" where
  "work_buffer pBuffer s = (case pBuffer of None \<Rightarrow> the (m_pBuffer s) | Some b \<Rightarrow> b)"

lemma buffer_None_cond: "(if m_pBuffer s \<noteq> None then s\<lparr>m_pBuffer := None\<rparr> else s) = s\<lparr>m_pBuffer := None\<rparr>"
  by (simp add: buffer_None_id)

lemma if_conj_buffer:
  "(if c \<and> m_pBuffer s \<noteq> None then s\<lparr>m_pBuffer := None\<rparr> else s) = (if c then s\<lparr>m_pBuffer := None\<rparr> else s)"
  by (simp add: buffer_None_id)

lemma prepare_buffer_keeps:
  assumes "prepare_buffer os n s = Returns s1"
  shows "m_nSocketType s1 = m_nSocketType s \<and> GetMulticast s1 = GetMulticast s \<and> m_socket s1 = m_socket s
    \<and> m_nFlags s1 = m_nFlags s \<and> m_nBytesReceived s1 = m_nBytesReceived s
    \<and> m_stClientSockaddr s1 = m_stClientSockaddr s"
  using assms by (auto simp: prepare_buffer_def Let_def GetMulticast_def split: if_splits)

definition receive_begin ::
  "'w os \<Rightarrow> int32 \<Rightarrow> byte list option \<Rightarrow> 'a csocket_scheme \<Rightarrow> 'a csocket_scheme outcome" where
  "receive_begin os n pBuffer s =
     (let s0 = s\<lparr>m_nBytesReceived := 0\<rparr> in if pBuffer = None then prepare_buffer os n s0 else Returns s0)"

definition receive_start ::
  "'w os \<Rightarrow> byte list option \<Rightarrow> 'a csocket_scheme \<Rightarrow> 'w env \<Rightarrow> ('a, 'w) receive_state" where
  "receive_start os pBuffer s e =
     (let (s1, e1) = timer_start os (SetSocketError SocketSuccess s) e in (s1, e1, work_buffer pBuffer s))"

lemma receive_begin_keeps:
  assumes "receive_begin os n pBuffer s = Returns s1"
  shows "m_nSocketType s1 = m_nSocketType s \<and> GetMulticast s1 = GetMulticast s \<and> m_socket s1 = m_socket s
    \<and> m_nFlags s1 = m_nFlags s \<and> m_nBytesReceived s1 = 0
    \<and> m_stClientSockaddr s1 = m_stClientSockaddr s"
  using assms prepare_buffer_keeps [of os n "s\<lparr>m_nBytesReceived := 0\<rparr>" s1]
  by (auto simp: receive_begin_def GetMulticast_def Let_def split: if_splits)

text \<open>The loop, which the types other than stream and datagram skip.\<close>

definition receive_run ::
  "'w os \<Rightarrow> int32 \<Rightarrow> 'b csocket_scheme \<Rightarrow> ('a, 'w) receive_state \<Rightarrow> ('a, 'w) receive_state outcome" where
  "receive_run os n s x =
     (if m_nSocketType s \<in> {SocketTypeTcp, SocketTypeUdp}
      then do_while (receive_body os n s) interrupted x else Returns x)"

lemma Receive_valid:
  assumes "IsSocketValid s"
  shows "Receive os n pBuffer s e =
    obind (receive_begin os n pBuffer s) (\<lambda>s1.
    obind (receive_run os n s (receive_start os pBuffer s1 e)) (receive_finish os pBuffer))"
proof -
  have v: "IsSocketValid (s\<lparr>m_nBytesReceived := 0\<rparr>)" using assms(1) by (simp add: IsSocketValid_iff)
  have w: "(case pBuffer of None \<Rightarrow> the (m_pBuffer s1) | Some b \<Rightarrow> b) = work_buffer pBuffer s1" for s1 :: "'a csocket_scheme"
    by (simp add: work_buffer_def)
  have f: "(\<lambda>(s4, e4, buf).
       let s5 = (if pBuffer = None then s4\<lparr>m_pBuffer := Some buf\<rparr> else s4);
           (s6, e6) = timer_end os s5 e4;
           s7 = TranslateSocketError s6 e6;
           s8 = (if m_nBytesReceived s7 = error_code SocketError \<and> m_pBuffer s7 \<noteq> None
                 then s7\<lparr>m_pBuffer := None\<rparr> else s7)
       in Returns (m_nBytesReceived s8, (if pBuffer = None then None else Some buf), s8, e6))
     = receive_finish os pBuffer"
    by (rule ext) (simp add: receive_finish_def if_conj_buffer split_beta Let_def)
  show ?thesis
    unfolding Receive_def f w
    using receive_begin_keeps [of os n pBuffer s]
    by (cases "m_nSocketType s") (auto simp: v receive_run_def Let_def receive_begin_def [symmetric, unfolded Let_def] receive_start_def receive_body_def
        timer_start_eq SetSocketError_def GetMulticast_def intro!: obind_cong_Returns)
qed

lemma Receive_loop:
  assumes "IsSocketValid s" and "m_nSocketType s \<in> {SocketTypeTcp, SocketTypeUdp}"
  shows "Receive os n pBuffer s e =
    obind (receive_begin os n pBuffer s) (\<lambda>s1.
    obind (do_while (receive_body os n s) interrupted (receive_start os pBuffer s1 e))
      (receive_finish os pBuffer))"
  using Receive_valid [OF assms(1)] assms(2) by (simp add: receive_run_def)

text \<open>What no pass of the loop changes.\<close>

definition receive_frame :: "('a, 'w) receive_state \<Rightarrow> ('a, 'w) receive_state \<Rightarrow> bool" where
  "receive_frame = (\<lambda>(s, e, buf) (t, e', buf').
     m_socket t = m_socket s \<and> m_nSocketType t = m_nSocketType s \<and> m_bIsBlocking t = m_bIsBlocking s
     \<and> m_pBuffer t = m_pBuffer s \<and> m_nBufferSize t = m_nBufferSize s \<and> length buf' = length buf)"

lemma receive_frame_refl [simp]: "receive_frame x x"
  by (simp add: receive_frame_def split_beta)

lemma receive_frame_trans: "receive_frame x y \<Longrightarrow> receive_frame y z \<Longrightarrow> receive_frame x z"
  by (simp add: receive_frame_def split_beta)

lemma attempt_frame:
  "recv_attempt os n x = Returns y \<Longrightarrow> receive_frame x y"
  "recvfrom_attempt os n x = Returns y \<Longrightarrow> receive_frame x y"
  "recvfrom_multicast_attempt os n x = Returns y \<Longrightarrow> receive_frame x y"
  by (cases x; auto simp: recv_attempt_def recvfrom_attempt_def recvfrom_multicast_attempt_def
      receive_frame_def obind_eq_Returns TranslateSocketError_def SetSocketError_def Let_def
      split_beta dest: store_at_length split: option.splits)+

lemma receive_pass_frame: "receive_body os n s x = Returns y \<Longrightarrow> receive_frame x y"
  by (auto simp: receive_body_def split: if_splits intro: attempt_frame)

lemma receive_run_frame:
  assumes "receive_run os n s x = Returns y"
  shows "receive_frame x y"
proof (cases "m_nSocketType s \<in> {SocketTypeTcp, SocketTypeUdp}")
  case True
  then have w: "do_while (receive_body os n s) interrupted x = Returns y"
    using assms by (simp add: receive_run_def)
  have "receive_frame x y \<and> \<not> interrupted y"
    by (rule do_while_rule [OF w, of "receive_frame x"])
       (auto intro: receive_frame_trans receive_pass_frame)
  then show ?thesis ..
next
  case False
  then show ?thesis using assms by (simp add: receive_run_def)
qed

lemma receive_body_once:
  assumes "m_nSocketType s \<in> {SocketTypeTcp, SocketTypeUdp}"
    and "m_nSocketType x = m_nSocketType s" "GetMulticast x = GetMulticast s" "m_nBytesReceived x = 0"
    and "kernel os (receive_call x n) (world e) = (r, w)" and "length (data r) \<le> length buf"
  shows "receive_body os n s (x, e, buf) =
    (let e1 = snd (invoke os (receive_call x n) e)
     in Returns (TranslateSocketError ((store_sender r x)\<lparr>m_nBytesReceived := i32 (ret r)\<rparr>) e1, e1,
                 data r @ drop (length (data r)) buf))"
proof (cases "m_nSocketType s = SocketTypeTcp")
  case True
  then show ?thesis using assms
    by (cases "addr r")
       (simp_all add: receive_body_def recv_attempt_def receive_call_def store_sender_def
         fst_invoke split_beta Let_def store_at_0)
next
  case False
  then show ?thesis using assms
    by (cases "addr r")
       (simp_all add: receive_body_def recvfrom_attempt_def recvfrom_multicast_attempt_def
         receive_call_def store_sender_def fst_invoke split_beta Let_def store_at_0)
qed

lemma receive_settles:
  assumes "receive_body os n s x = Returns y" and "errno (fst (snd y)) \<noteq> EINTR"
  shows "do_while (receive_body os n s) interrupted x = Returns y"
  using assms recv.settles_unless_EINTR recvfrom.settles_unless_EINTR recvmulti.settles_unless_EINTR
  by (cases "m_nSocketType s = SocketTypeTcp"; cases "GetMulticast s") (simp_all add: receive_body_def)

lemma store_sender_sel [simp]:
  "m_socket (store_sender r s) = m_socket s" "m_pBuffer (store_sender r s) = m_pBuffer s"
  "m_nBufferSize (store_sender r s) = m_nBufferSize s"
  "m_nSocketType (store_sender r s) = m_nSocketType s"
  by (cases "addr r"; simp add: store_sender_def)+

text \<open>
  A \<open>Receive\<close> whose first call is not interrupted, after its buffer has been prepared.
\<close>

lemma Receive_once:
  assumes "IsSocketValid s" and ty: "m_nSocketType s \<in> {SocketTypeTcp, SocketTypeUdp}"
    and begun: "receive_begin os n pBuffer s = Returns s1"
    and call: "kernel os (receive_call s n) (snd (clock os (world e))) = (r, w)"
    and "set_errno r (errno e) \<noteq> EINTR"
    and fits: "length (data r) \<le> length (work_buffer pBuffer s1)"
  shows "\<exists>s' e'. let buf = data r @ drop (length (data r)) (work_buffer pBuffer s1) in
     Receive os n pBuffer s e = Returns (i32 (ret r), (if pBuffer = None then None else Some buf), s', e')
     \<and> trace e' = trace e @ [receive_call s n]
     \<and> GetBytesReceived s' = i32 (ret r)
     \<and> GetSocketError s' = translate_errno (set_errno r (errno e))
     \<and> m_pBuffer s' = (if i32 (ret r) = -1 then None
                       else if pBuffer = None then Some buf else m_pBuffer s1)
     \<and> m_nBufferSize s' = m_nBufferSize s1
     \<and> m_socket s' = m_socket s \<and> m_nSocketType s' = m_nSocketType s
     \<and> m_stClientSockaddr s' = m_stClientSockaddr (store_sender r s)
     \<and> errno e' = set_errno r (errno e) \<and> world e' = snd (clock os w)"
proof -
  note k = receive_begin_keeps [OF begun]
  obtain x e0 where st: "receive_start os pBuffer s1 e = (x, e0, work_buffer pBuffer s1)"
    by (simp add: receive_start_def split_beta)
  then have x: "m_nSocketType x = m_nSocketType s" "GetMulticast x = GetMulticast s"
    "m_nBytesReceived x = 0" "receive_call x n = receive_call s n"
    "m_pBuffer x = m_pBuffer s1" "m_nBufferSize x = m_nBufferSize s1" "m_socket x = m_socket s"
    "m_stClientSockaddr x = m_stClientSockaddr s"
    and e0: "world e0 = snd (clock os (world e))" "errno e0 = errno e" "trace e0 = trace e"
    using k by (auto simp: receive_start_def timer_start_eq SetSocketError_def GetMulticast_def
        receive_call_def)
  define e1 where "e1 = snd (invoke os (receive_call s n) e0)"
  define y where "y = (TranslateSocketError ((store_sender r x)\<lparr>m_nBytesReceived := i32 (ret r)\<rparr>) e1, e1,
      data r @ drop (length (data r)) (work_buffer pBuffer s1))"
  have e1: "errno e1 = set_errno r (errno e)" "trace e1 = trace e @ [receive_call s n]" "world e1 = w"
    using call e0 by (simp_all add: e1_def snd_invoke)
  have peer: "m_stClientSockaddr (store_sender r x) = m_stClientSockaddr (store_sender r s)"
    using x by (simp add: store_sender_def split: option.splits)
  have "receive_body os n s (x, e0, work_buffer pBuffer s1) = Returns y"
    using receive_body_once [OF ty x(1-3) _ fits, of os n e0 w] call x(4) e0(1)
    by (simp add: y_def e1_def Let_def)
  moreover have "errno (fst (snd y)) \<noteq> EINTR" using assms(5) e1 by (simp add: y_def)
  ultimately have "do_while (receive_body os n s) interrupted (receive_start os pBuffer s1 e) = Returns y"
    unfolding st by (rule receive_settles)
  then have R: "Receive os n pBuffer s e = receive_finish os pBuffer y"
    by (simp add: Receive_loop [OF assms(1,2)] begun)
  show ?thesis
    unfolding R receive_finish_def y_def
    by (cases pBuffer; cases "i32 (ret r) = -1")
       (simp_all add: timer_end_eq TranslateSocketError_def SetSocketError_def GetBytesReceived_def
         GetSocketError_def e1 x peer)
qed

lemma receive_begin_internal:
  assumes "buffer_ok s" and "0 \<le> sint n"
  shows "\<exists>s1 b. receive_begin os n None s = Returns s1 \<and> m_pBuffer s1 = Some b
     \<and> length b = nat (sint n) \<and> m_nBufferSize s1 = n"
  using assms
  by (cases "m_pBuffer s"; cases "m_nBufferSize s = n")
     (auto simp: receive_begin_def prepare_buffer_def Let_def buffer_ok_def)

text \<open>The same with a null pointer, in terms of the buffer that \<open>GetData\<close> returns.\<close>

lemma Receive_internal:
  assumes "IsSocketValid s" and "m_nSocketType s \<in> {SocketTypeTcp, SocketTypeUdp}"
    and "buffer_ok s" and "0 \<le> sint n"
    and "kernel os (receive_call s n) (snd (clock os (world e))) = (r, w)"
    and "length (data r) \<le> nat (sint n)" and "set_errno r (errno e) \<noteq> EINTR"
  shows "\<exists>s' e' b. Receive os n None s e = Returns (i32 (ret r), None, s', e')
     \<and> trace e' = trace e @ [receive_call s n]
     \<and> GetBytesReceived s' = i32 (ret r)
     \<and> GetSocketError s' = translate_errno (set_errno r (errno e))
     \<and> buffer_ok s' \<and> GetData s' = (if i32 (ret r) = -1 then None else Some b)
     \<and> length b = nat (sint n) \<and> take (length (data r)) b = data r
     \<and> m_socket s' = m_socket s \<and> m_nSocketType s' = m_nSocketType s
     \<and> m_stClientSockaddr s' = m_stClientSockaddr (store_sender r s)
     \<and> errno e' = set_errno r (errno e) \<and> world e' = snd (clock os w)"
proof -
  obtain s1 b where s1: "receive_begin os n None s = Returns s1" "m_pBuffer s1 = Some b"
    "length b = nat (sint n)" "m_nBufferSize s1 = n"
    using receive_begin_internal [OF assms(3,4), of os] by blast
  let ?b = "data r @ drop (length (data r)) b"
  have fits: "length (data r) \<le> length (work_buffer None s1)"
    using s1 assms(6) by (simp add: work_buffer_def)
  obtain s' e' where
    R: "Receive os n None s e = Returns (i32 (ret r), None, s', e')"
    "trace e' = trace e @ [receive_call s n]" "GetBytesReceived s' = i32 (ret r)"
    "GetSocketError s' = translate_errno (set_errno r (errno e))"
    "m_pBuffer s' = (if i32 (ret r) = -1 then None else Some ?b)"
    "m_nBufferSize s' = n" "m_socket s' = m_socket s" "m_nSocketType s' = m_nSocketType s"
    "m_stClientSockaddr s' = m_stClientSockaddr (store_sender r s)"
    "errno e' = set_errno r (errno e)" "world e' = snd (clock os w)"
    using Receive_once [OF assms(1,2) s1(1) assms(5,7) fits] s1(2,4) by (auto simp: Let_def work_buffer_def)
  have len: "length ?b = nat (sint n)" using s1(3) assms(6) by simp
  have "buffer_ok s'"
    using R(5,6) len assms(4) by (cases "i32 (ret r) = -1") (simp_all add: buffer_ok_def)
  with R len show ?thesis by (intro exI [of _ s'] exI [of _ e'] exI [of _ ?b]) (simp add: GetData_def)
qed

section \<open>Properties of Receive\<close>

text \<open>
  C8. \<open>Receive\<close> with a null pointer and a count that is not negative, on a valid stream or datagram socket, when
  neither its call leaves an interruption (\<open>EINTR\<close>) in \<open>errno\<close> nor an earlier call left one that
  it does not replace, and the call stores no more bytes than were asked for: it makes one call, returns and records the result and translates \<open>errno\<close>.
  On success the internal buffer holds the data, is exactly as long as was asked for, and
  \<open>GetData\<close> returns it; on failure the buffer is freed.
\<close>

theorem Receive_fills_internal_buffer:
  assumes "IsSocketValid s" and "m_nSocketType s \<in> {SocketTypeTcp, SocketTypeUdp}"
    and "buffer_ok s" and "0 \<le> sint n"
    and "kernel os (receive_call s n) (snd (clock os (world e))) = (r, w)"
    and "length (data r) \<le> nat (sint n)" and "set_errno r (errno e) \<noteq> EINTR"
  shows "\<exists>s' e'. Receive os n None s e = Returns (i32 (ret r), None, s', e')
     \<and> trace e' = trace e @ [receive_call s n]
     \<and> GetBytesReceived s' = i32 (ret r)
     \<and> GetSocketError s' = translate_errno (set_errno r (errno e))
     \<and> buffer_ok s'
     \<and> (if i32 (ret r) = -1 then GetData s' = None
        else \<exists>b. GetData s' = Some b \<and> length b = nat (sint n) \<and> take (length (data r)) b = data r)"
  using Receive_internal [OF assms] by (auto split: if_splits)

theorem Receive_fills_internal_buffer_witness:
  "\<exists>s' e'. Receive scripted 4 None (demo_socket SocketTypeTcp 7) (start_env [(ok 2)\<lparr>data := [104, 105]\<rparr>])
      = Returns (2, None, s', e')
    \<and> trace e' = [Sys_recv 7 4 0] \<and> GetSocketError s' = SocketSuccess \<and> buffer_ok s'
    \<and> (\<exists>b. GetData s' = Some b \<and> length b = 4 \<and> take 2 b = [104, 105])"
proof -
  let ?r = "(ok 2)\<lparr>data := [104, 105 :: byte]\<rparr>"
  have f: "m_nFlags (demo_socket SocketTypeTcp 7) = 0"
    by (simp add: demo_socket_def SetSocketHandle_def CSimpleSocket_def SetConnectTimeout_def Let_def)
  have "kernel scripted (receive_call (demo_socket SocketTypeTcp 7) 4)
      (snd (clock scripted (world (start_env [?r])))) = (?r, [])"
    by (simp add: lawful_def in_int_def ok_def)
  from Receive_fills_internal_buffer [OF _ _ _ _ this] obtain s' e' where
    "Receive scripted 4 None (demo_socket SocketTypeTcp 7) (start_env [?r]) = Returns (2, None, s', e')"
    "trace e' = [Sys_recv 7 4 0]" "GetSocketError s' = SocketSuccess" "buffer_ok s'"
    "\<exists>b. GetData s' = Some b \<and> length b = 4 \<and> take 2 b = [104, 105]"
    by (auto simp: IsSocketValid_iff receive_call_def translate_errno_def f ok_def set_errno_def) (simp add: numeral_2_eq_2)
  then show ?thesis by blast
qed

text \<open>
  \<open>Receive\<close> into the caller's array that is long enough: the data is stored at its
  start and the rest of it is left alone; the internal buffer is left alone on success and
  freed on failure.
\<close>

theorem Receive_fills_callers_buffer:
  assumes "IsSocketValid s" and "m_nSocketType s \<in> {SocketTypeTcp, SocketTypeUdp}"
    and "kernel os (receive_call s n) (snd (clock os (world e))) = (r, w)"
    and "length (data r) \<le> length buf" and "set_errno r (errno e) \<noteq> EINTR"
  shows "\<exists>s' e'. Receive os n (Some buf) s e
       = Returns (i32 (ret r), Some (data r @ drop (length (data r)) buf), s', e')
     \<and> trace e' = trace e @ [receive_call s n]
     \<and> GetBytesReceived s' = i32 (ret r)
     \<and> GetSocketError s' = translate_errno (set_errno r (errno e))
     \<and> GetData s' = (if i32 (ret r) = -1 then None else GetData s)"
proof -
  have begun: "receive_begin os n (Some buf) s = Returns (s\<lparr>m_nBytesReceived := 0\<rparr>)"
    by (simp add: receive_begin_def)
  show ?thesis
    using Receive_once [OF assms(1,2) begun assms(3,5)] assms(4)
    by (cases "i32 (ret r) = -1") (simp_all add: Let_def work_buffer_def GetData_def, blast+)
qed

theorem Receive_fills_callers_buffer_witness:
  "\<exists>s' e'. Receive scripted 3 (Some [1, 2, 3]) (demo_socket SocketTypeUdp 7)
        (start_env [(ok 1)\<lparr>data := [104]\<rparr>])
      = Returns (1, Some [104, 2, 3], s', e')
    \<and> trace e' = [Sys_recvfrom 7 3 0] \<and> GetSocketError s' = SocketSuccess \<and> GetData s' = None"
proof -
  let ?r = "(ok 1)\<lparr>data := [104 :: byte]\<rparr>"
  have "kernel scripted (receive_call (demo_socket SocketTypeUdp 7) 3)
      (snd (clock scripted (world (start_env [?r])))) = (?r, [])"
    by (simp add: lawful_def in_int_def ok_def)
  from Receive_fills_callers_buffer [OF _ _ this, of "[1, 2, 3]"] show ?thesis
    by (simp add: IsSocketValid_iff receive_call_def translate_errno_def ok_def set_errno_def GetData_def) blast
qed

text \<open>
  On an invalid handle \<open>Receive\<close> returns zero, as for a connection that the peer has
  closed, without a call and without setting the error.
\<close>

theorem Receive_on_invalid_handle:
  "Receive os n pBuffer (s\<lparr>m_socket := INVALID_SOCKET\<rparr>) e
     = Returns (0, pBuffer, s\<lparr>m_socket := INVALID_SOCKET, m_nBytesReceived := 0\<rparr>, e)"
  by (simp add: Receive_def IsSocketValid_iff Let_def)

text \<open>
  C14. On a stream socket, when a signal interrupts the first \<open>recv\<close>, the loop calls again
  with the pointer advanced by the result -1 of the failed call: the second \<open>recv\<close> is given
  the address one byte before the buffer, whichever buffer it is and whatever it answers.
\<close>

theorem interrupted_Receive_overruns:
  assumes "IsSocketValid s" and "m_nSocketType s = SocketTypeTcp"
    and "receive_begin os n pBuffer s = Returns s1"
    and "kernel os (receive_call s n) (snd (clock os (world e))) = ((fail EINTR), w)"
  shows "Receive os n pBuffer s e = Faults PointerOutOfBounds"
proof -
  note k = receive_begin_keeps [OF assms(3)]
  let ?b = "work_buffer pBuffer s1"
  obtain x e0 where st: "receive_start os pBuffer s1 e = (x, e0, ?b)"
    by (simp add: receive_start_def split_beta)
  then have x: "m_nSocketType x = m_nSocketType s" "GetMulticast x = GetMulticast s"
    "m_nBytesReceived x = 0" "receive_call x n = receive_call s n"
    and e0: "world e0 = snd (clock os (world e))"
    using k by (auto simp: receive_start_def timer_start_eq SetSocketError_def GetMulticast_def
        receive_call_def)
  have d: "data (fail EINTR) = []" "ret (fail EINTR) = -1" "addr (fail EINTR) = None" "err (fail EINTR) = Some EINTR"
    by (simp_all add: fail_def ok_def)
  define e1 where "e1 = snd (invoke os (receive_call s n) e0)"
  define y where "y = (TranslateSocketError (x\<lparr>m_nBytesReceived := -1\<rparr>) e1, e1, ?b)"
  have ty: "m_nSocketType s \<in> {SocketTypeTcp, SocketTypeUdp}" using assms(2) by simp
  have b: "receive_body os n s = recv_attempt os n" using assms(2) by (simp add: receive_body_def)
  have "recv_attempt os n (x, e0, ?b) = Returns y"
    using receive_body_once [OF ty x(1-3), of os n e0 "fail EINTR" w ?b] assms(4) x(4) e0
    by (simp add: y_def e1_def Let_def d b store_sender_def)
  moreover have "m_socketErrno (fst y) = SocketInterrupted"
    using assms(4) e0
    by (simp add: y_def TranslateSocketError_def SetSocketError_def e1_def snd_invoke
        set_errno_def d translate_errno_def)
  ultimately have "do_while (recv_attempt os n) interrupted (x, e0, ?b)
      = do_while (recv_attempt os n) interrupted y"
    by (rule recv.repeats)
  moreover have "recv_attempt os n y = Faults PointerOutOfBounds"
    by (simp add: recv_attempt_def y_def split_beta TranslateSocketError_def SetSocketError_def
        store_at_negative Let_def)
  ultimately show ?thesis
    by (simp add: Receive_loop [OF assms(1) ty] assms(3) st b do_while_fault)
qed

theorem interrupted_Receive_overruns_witness:
  "Receive scripted 16 None (demo_socket SocketTypeTcp 7) (start_env [fail EINTR, ok 5])
     = Faults PointerOutOfBounds"
proof -
  have "buffer_ok (demo_socket SocketTypeTcp 7)" by simp
  from receive_begin_internal [OF this, of 16 scripted] obtain s1
    where "receive_begin scripted 16 None (demo_socket SocketTypeTcp 7) = Returns s1" by auto
  from interrupted_Receive_overruns [OF _ _ this] show ?thesis
    by (simp add: IsSocketValid_iff)
qed
lemma receive_begin_buffer:
  assumes "receive_begin os n pBuffer s = Returns s1" and "buffer_ok s"
  shows "buffer_ok s1 \<and> m_bIsBlocking s1 = m_bIsBlocking s
    \<and> (pBuffer = None \<longrightarrow> (\<exists>b. m_pBuffer s1 = Some b \<and> 0 \<le> sint (m_nBufferSize s1)
         \<and> length b = nat (sint (m_nBufferSize s1))))"
  using assms
  by (cases "m_pBuffer s"; cases pBuffer)
     (auto simp: receive_begin_def prepare_buffer_def Let_def buffer_ok_def split: if_splits)

lemma receive_finish_sel:
  assumes "receive_finish os pBuffer (s4, e4, buf) = Returns (k, pBuffer', s', e')"
  shows "m_socket s' = m_socket s4 \<and> m_nSocketType s' = m_nSocketType s4 \<and> m_bIsBlocking s' = m_bIsBlocking s4
    \<and> m_nBufferSize s' = m_nBufferSize s4
    \<and> m_pBuffer s' = (if m_nBytesReceived s4 = -1 then None else if pBuffer = None then Some buf else m_pBuffer s4)
    \<and> pBuffer' = (if pBuffer = None then None else Some buf)
    \<and> k = m_nBytesReceived s4 \<and> m_nBytesReceived s' = m_nBytesReceived s4 \<and> m_socketErrno s' \<noteq> SocketError"
  using assms
  by (cases "m_nBytesReceived s4 = -1"; cases pBuffer)
     (auto simp: receive_finish_def timer_end_eq TranslateSocketError_def SetSocketError_def Let_def)

lemma Receive_frame:
  assumes "buffer_ok s" and "Receive os n pBuffer s e = Returns (k, pBuffer', s', e')"
  shows "buffer_ok s' \<and> m_socket s' = m_socket s \<and> GetSocketType s' = GetSocketType s
     \<and> IsNonblocking s' = IsNonblocking s
     \<and> map_option length pBuffer' = map_option length pBuffer
     \<and> k = GetBytesReceived s' \<and> (GetData s' = None) \<ge> (k = -1)
     \<and> (GetSocketError s' = GetSocketError s \<or> GetSocketError s' \<noteq> SocketError)"
proof (cases "IsSocketValid s")
  case True
  from assms(2) obtain s1 y where s1: "receive_begin os n pBuffer s = Returns s1"
    and run: "receive_run os n s (receive_start os pBuffer s1 e) = Returns y"
    and fin: "receive_finish os pBuffer y = Returns (k, pBuffer', s', e')"
    by (auto simp: Receive_valid [OF True] obind_eq_Returns)
  obtain s4 e4 buf where y: "y = (s4, e4, buf)" by (cases y)
  note b = receive_begin_buffer [OF s1 assms(1)] and kp = receive_begin_keeps [OF s1]
  from receive_run_frame [OF run] have f: "m_socket s4 = m_socket s1" "m_nSocketType s4 = m_nSocketType s1"
    "m_bIsBlocking s4 = m_bIsBlocking s1" "m_pBuffer s4 = m_pBuffer s1" "m_nBufferSize s4 = m_nBufferSize s1"
    "length buf = length (work_buffer pBuffer s1)"
    by (simp_all add: y receive_frame_def receive_start_def timer_start_eq SetSocketError_def)
  note r = receive_finish_sel [OF fin [unfolded y]]
  have "buffer_ok s'"
  proof (cases "m_nBytesReceived s4 = -1")
    case True
    then show ?thesis using r by simp
  next
    case False
    then show ?thesis using r f b
      by (cases pBuffer) (auto simp: buffer_ok_def work_buffer_def split: option.splits)
  qed
  then show ?thesis
    using r f b kp
    by (cases pBuffer)
       (simp_all add: GetBytesReceived_def GetSocketError_def GetData_def GetSocketType_def IsNonblocking_def work_buffer_def)
next
  case False
  then have "Receive os n pBuffer s e = Returns (0, pBuffer, s\<lparr>m_nBytesReceived := 0\<rparr>, e)"
    by (simp add: Receive_def IsSocketValid_iff)
  then show ?thesis
    using assms buffer_ok_cong [of "s\<lparr>m_nBytesReceived := 0\<rparr>" s]
    by (auto simp: GetBytesReceived_def GetSocketType_def IsNonblocking_def GetSocketError_def)
qed

text \<open>
  C36. However often the loop repeats and whatever the system answers, a \<open>Receive\<close> that
  returns keeps the handle, the type and the blocking mode, keeps the internal buffer as
  long as its recorded size, gives the caller's array back with its length, returns the
  count it records, and has freed the buffer if that count is -1.
\<close>

theorem Receive_keeps:
  assumes "buffer_ok s" and "Receive os n pBuffer s e = Returns (k, pBuffer', s', e')"
  shows "buffer_ok s' \<and> m_socket s' = m_socket s \<and> GetSocketType s' = GetSocketType s
     \<and> IsNonblocking s' = IsNonblocking s
     \<and> map_option length pBuffer' = map_option length pBuffer
     \<and> k = GetBytesReceived s' \<and> (GetData s' = None) \<ge> (k = -1)"
  using Receive_frame [OF assms] by blast

theorem Receive_keeps_witness:
  "\<exists>s' e'. Receive scripted 4 None (demo_socket SocketTypeTcp 7) (start_env [fail ECONNRESET])
        = Returns (-1, None, s', e')
    \<and> GetData s' = None \<and> m_socket s' = 7"
proof -
  have b: "buffer_ok (demo_socket SocketTypeTcp 7)" by simp
  have k: "kernel scripted (receive_call (demo_socket SocketTypeTcp 7) 4)
      (snd (clock scripted (world (start_env [fail ECONNRESET])))) = (fail ECONNRESET, [])"
    by simp
  have d: "set_errno (fail ECONNRESET) (errno (start_env [fail ECONNRESET])) \<noteq> EINTR"
    "length (data (fail ECONNRESET)) \<le> m" "ret (fail ECONNRESET) = -1" for m
    by (simp_all add: set_errno_def fail_def ok_def)
  obtain s1 where s1: "receive_begin scripted 4 None (demo_socket SocketTypeTcp 7) = Returns s1"
    using receive_begin_internal [OF b, of 4 scripted] by auto
  from Receive_once [OF _ _ s1 k d(1,2)] obtain s' e' where
    R: "Receive scripted 4 None (demo_socket SocketTypeTcp 7) (start_env [fail ECONNRESET]) = Returns (-1, None, s', e')"
    by (auto simp: IsSocketValid_iff d Let_def)
  from Receive_keeps [OF b R] R show ?thesis by auto
qed

end
