(* ===== verification/Bulk_Transfer.thy ===== *)
theory Bulk_Transfer imports Socket_Receive begin

text \<open>
  The operations that move more than one buffer: \<open>SendFile\<close>, whose loop is bounded and
  counted here, \<open>Flush\<close> and \<open>Writev\<close>.
\<close>

section \<open>SendFile\<close>

text \<open>The bytes asked for by the reads and handed to the sends of a sequence of calls.\<close>

fun bytes_read :: "syscall list \<Rightarrow> int" where
  "bytes_read [] = 0"
| "bytes_read (c # cs) = (case c of Sys_read fd n \<Rightarrow> sint n | _ \<Rightarrow> 0) + bytes_read cs"

fun bytes_sent :: "syscall list \<Rightarrow> int" where
  "bytes_sent [] = 0"
| "bytes_sent (c # cs) = (case c of Sys_send fd b f \<Rightarrow> int (length b) | _ \<Rightarrow> 0) + bytes_sent cs"

lemma bytes_append:
  "bytes_read (xs @ ys) = bytes_read xs + bytes_read ys"
  "bytes_sent (xs @ ys) = bytes_sent xs + bytes_sent ys"
  by (induction xs) simp_all

text \<open>A read that returns \<open>n\<close> has stored \<open>n\<close> bytes.\<close>

definition reads_fill :: "'w os \<Rightarrow> bool" where
  "reads_fill os \<longleftrightarrow>
     (\<forall>fd n w. int (length (data (fst (kernel os (Sys_read fd n) w))))
               = max 0 (ret (fst (kernel os (Sys_read fd n) w))))"

lemma sendfile_loop_block:
  "sendfile_loop os nOutFd nInFd n out e =
     (if sint out < sint n then
        (if 2 ^ 31 \<le> sint n - sint out then Faults SignedOverflow
         else
           (let k = block_size n out;
                (r1, e1) = invoke os (Sys_read nInFd k) e
            in if i32 (ret r1) \<noteq> k then Returns (None, e1)
               else
                 (let (r2, e2) = invoke os (Sys_send nOutFd (take (nat (sint k)) (data r1)) 0) e1
                  in if i32 (ret r2) \<noteq> k then Returns (None, e2)
                     else sendfile_loop os nOutFd nInFd n (out + k) e2)))
      else Returns (Some out, e))"
  by (subst sendfile_loop.simps) (simp only: block_size_def [symmetric])

lemma int_results_i32:
  "int_results os \<Longrightarrow> \<not> wide_result c \<Longrightarrow> sint (i32 (ret (fst (kernel os c w)))) = ret (fst (kernel os c w))"
  by (rule sint_i32) (simp_all add: int_results_def)

text \<open>
  The loop, from a count \<open>out\<close> not above \<open>n\<close> and near enough to it: it returns, early or
  with \<open>n\<close>, and in the second case has read and sent the \<open>n - out\<close> bytes between them.
\<close>

lemma sendfile_loop_result:
  assumes "int_results os" and "reads_fill os"
    and "sint out \<le> sint n" and "sint n - sint out < 2 ^ 31"
  shows "\<exists>m e' t. sendfile_loop os nOutFd nInFd n out e = Returns (m, e') \<and> trace e' = trace e @ t
     \<and> (m = None \<or> m = Some n \<and> bytes_read t = sint n - sint out \<and> bytes_sent t = sint n - sint out)"
  using assms(3,4)
proof (induction "nat (sint n - sint out)" arbitrary: out e rule: less_induct)
  case less
  show ?case
  proof (cases "sint out < sint n")
    case False
    then have "out = n" using less.prems by (intro signed_word_eqI) simp
    then show ?thesis by (auto simp: sendfile_loop_block [of _ _ _ n n])
  next
    case True
    define k where "k = block_size n out"
    define c1 where "c1 = Sys_read nInFd k"
    define r1 where "r1 = fst (kernel os c1 (world e))"
    define e1 where "e1 = snd (invoke os c1 e)"
    define c2 where "c2 = Sys_send nOutFd (take (nat (sint k)) (data r1)) 0"
    define r2 where "r2 = fst (kernel os c2 (world e1))"
    define e2 where "e2 = snd (invoke os c2 e1)"
    have k: "sint k = min (sint n - sint out) 8192" "sint (out + k) = sint out + sint k"
      using sint_block_size [OF True less.prems(2)] sint_next_block [OF True less.prems(2)]
      by (simp_all add: k_def)
    have loop: "sendfile_loop os nOutFd nInFd n out e =
      (if i32 (ret r1) \<noteq> k then Returns (None, e1)
       else if i32 (ret r2) \<noteq> k then Returns (None, e2)
       else sendfile_loop os nOutFd nInFd n (out + k) e2)"
      using True less.prems(2)
      by (subst sendfile_loop_block)
         (simp add: Let_def split_beta k_def c1_def r1_def e1_def c2_def r2_def e2_def fst_invoke)
    have tr: "trace e1 = trace e @ [c1]" "trace e2 = trace e @ [c1, c2]"
      by (simp_all add: e1_def e2_def)
    show ?thesis
    proof (cases "i32 (ret r1) = k \<and> i32 (ret r2) = k")
      case False
      then show ?thesis using tr by (auto simp: loop)
    next
      case both: True
      have "sint (i32 (ret r1)) = ret r1"
        unfolding r1_def by (rule int_results_i32 [OF assms(1)]) (simp add: c1_def)
      then have "ret r1 = sint k" using both by simp
      then have len: "int (length (data r1)) = sint k"
        using assms(2) k(1) True unfolding reads_fill_def r1_def c1_def by auto
      have b: "bytes_read [c1, c2] = sint k" "bytes_sent [c1, c2] = sint k"
        using len by (simp_all add: c1_def c2_def)
      have "nat (sint n - sint (out + k)) < nat (sint n - sint out)" "sint (out + k) \<le> sint n"
        "sint n - sint (out + k) < 2 ^ 31"
        using True less.prems(2) k by auto
      from less.hyps [OF this, of e2] obtain m e' t where
        IH: "sendfile_loop os nOutFd nInFd n (out + k) e2 = Returns (m, e')" "trace e' = trace e2 @ t"
        "m = None \<or> m = Some n \<and> bytes_read t = sint n - sint (out + k) \<and> bytes_sent t = sint n - sint (out + k)"
        by blast
      show ?thesis
      proof (intro exI conjI)
        show "sendfile_loop os nOutFd nInFd n out e = Returns (m, e')" using both IH(1) by (simp add: loop)
        show "trace e' = trace e @ ([c1, c2] @ t)" using IH(2) tr by simp
        show "m = None \<or> m = Some n \<and> bytes_read ([c1, c2] @ t) = sint n - sint out
              \<and> bytes_sent ([c1, c2] @ t) = sint n - sint out"
          using IH(3) b k(2) by (auto simp only: bytes_append)
      qed
    qed
  qed
qed

text \<open>
  \<open>SendFile\<close> returns for every count below the largest \<open>int\<close>: with -1 and the
  offset unchanged, or with the count. In the second case it has read and sent one byte more
  than the count, because its counter starts at -1.
\<close>

theorem SendFile_sends_one_more:
  assumes "int_results os" and "reads_fill os" and "0 \<le> sint nCount" and "sint nCount < 2 ^ 31 - 1"
  shows "\<exists>r off s' e' t. SendFile os nOutFd nInFd pOffset nCount s e = Returns (r, off, s', e')
     \<and> trace e' = trace e @ Sys_lseek nInFd pOffset SEEK_SET # t
     \<and> (r = -1 \<and> off = pOffset \<and> s' = s
        \<or> r = nCount \<and> off = pOffset + scast nCount
          \<and> bytes_read t = sint nCount + 1 \<and> bytes_sent t = sint nCount + 1
          \<and> GetSocketError s' = translate_errno (errno e'))"
proof -
  let ?c = "Sys_lseek nInFd pOffset SEEK_SET"
  define e1 where "e1 = snd (invoke os ?c e)"
  have tr: "trace e1 = trace e @ [?c]" by (simp add: e1_def)
  have S: "SendFile os nOutFd nInFd pOffset nCount s e =
    (if ret (fst (kernel os ?c (world e))) = -1 then Returns (-1, pOffset, s, e1)
     else obind (sendfile_loop os nOutFd nInFd nCount (-1) e1) (\<lambda>(n, e2).
             case n of
               None \<Rightarrow> Returns (-1, pOffset, s, e2)
             | Some n' \<Rightarrow> Returns (n', pOffset + scast n', TranslateSocketError s e2, e2)))"
    by (simp add: SendFile_def Let_def split_beta e1_def fst_invoke)
  have "sint (-1 :: int32) \<le> sint nCount" "sint nCount - sint (-1 :: int32) < 2 ^ 31"
    using assms(3,4) by simp_all
  from sendfile_loop_result [OF assms(1,2) this, of nOutFd nInFd e1] obtain m e' t where
    L: "sendfile_loop os nOutFd nInFd nCount (-1) e1 = Returns (m, e')" "trace e' = trace e1 @ t"
    "m = None \<or> m = Some nCount \<and> bytes_read t = sint nCount + 1 \<and> bytes_sent t = sint nCount + 1"
    by auto
  show ?thesis
  proof (cases "ret (fst (kernel os ?c (world e))) = -1")
    case True
    then show ?thesis using tr by (simp add: S)
  next
    case False
    then show ?thesis using tr L
      by (cases m) (simp_all add: S GetSocketError_def TranslateSocketError_def SetSocketError_def)
  qed
qed

text \<open>A kernel with a file that never ends and a connection that takes everything.\<close>

definition file_os :: "unit os" where
  "file_os =
     \<lparr>kernel = (\<lambda>c w. (case c of
         Sys_lseek fd off wh \<Rightarrow> ok 0
       | Sys_read fd n \<Rightarrow> (ok (max 0 (sint n)))\<lparr>data := replicate (nat (sint n)) 0\<rparr>
       | Sys_send fd b f \<Rightarrow> ok (min (int (length b)) (2 ^ 31 - 1))
       | _ \<Rightarrow> fail EINVAL, ())),
      clock = (\<lambda>w. (timeval_zero, w)), inet_addr = (\<lambda>p. 0), inet_ntoa = (\<lambda>a. []), uninit = (\<lambda>i. 0)\<rparr>"

lemma file_os_results: "int_results file_os"
proof -
  have "- (2 ^ 31) \<le> ret (fst (kernel file_os c w)) \<and> ret (fst (kernel file_os c w)) < 2 ^ 31" for c w
    by (cases c) (use sint_range in \<open>simp_all add: file_os_def ok_def fail_def\<close>)
  then show ?thesis by (simp add: int_results_def)
qed

lemma file_os_reads: "reads_fill file_os"
  by (simp add: reads_fill_def file_os_def ok_def)

theorem SendFile_sends_one_more_witness:
  "\<exists>s' e'. SendFile file_os 5 6 0 3 (demo_socket SocketTypeTcp 7)
        \<lparr>errno = 0, h_errno = 0, world = (), trace = []\<rparr> = Returns (3, 3, s', e')
     \<and> bytes_sent (trace e') = 4"
proof -
  let ?e = "\<lparr>errno = 0, h_errno = 0, world = (), trace = []\<rparr> :: unit env"
  let ?S = "SendFile file_os 5 6 0 3 (demo_socket SocketTypeTcp 7) ?e"
  obtain r off s' e' t where R: "?S = Returns (r, off, s', e')" "trace e' = Sys_lseek 6 0 0 # t"
    "r = -1 \<or> off = 3 \<and> r = 3 \<and> bytes_sent t = 4"
    using SendFile_sends_one_more [OF file_os_results file_os_reads, of 3 5 6 0 "demo_socket SocketTypeTcp 7" ?e]
    by auto
  have "block_size 3 (-1) = 4" by (simp add: block_size_def)
  then have "case ?S of Returns (r, _) \<Rightarrow> r = 3 | _ \<Rightarrow> False"
    by (simp add: SendFile_def sendfile_loop_block [of _ _ _ "3" "-1"] sendfile_loop_block [of _ _ _ 3 3]
        file_os_def ok_def invoke_def set_errno_def)
  then have "r = 3" by (simp add: R(1))
  with R show ?thesis by auto
qed

section \<open>Flush and Writev\<close>

text \<open>
  The documented answer of \<open>getsockopt\<close> to a length pointer outside the process, on any descriptor: it
  fails, with \<open>EFAULT\<close>, or with \<open>EBADF\<close>, \<open>ENOTSOCK\<close> or \<open>ENOPROTOOPT\<close> where it looks at the descriptor or
  the option first.
\<close>

definition wild_length_faults :: "'w os \<Rightarrow> bool" where
  "wild_length_faults os \<longleftrightarrow>
     (\<forall>fd l n k w. ret (fst (kernel os (Sys_getsockopt fd l n (WildPointer k)) w)) = -1
        \<and> (\<exists>m. err (fst (kernel os (Sys_getsockopt fd l n (WildPointer k)) w)) = Some m \<and> m \<noteq> 0))"

lemma Flush_eq:
  assumes "wild_length_faults os"
  shows "Flush os send s e =
    Returns (False, s, snd (invoke os (Sys_getsockopt (m_socket s) IPPROTO_TCP TCP_NODELAY (WildPointer 4)) e))"
proof -
  have "ret (fst (kernel os (Sys_getsockopt (m_socket s) 6 1 (WildPointer 4)) (world e))) = -1"
    using assms unfolding wild_length_faults_def by blast
  then show ?thesis by (simp add: Flush_def Let_def split_beta fst_invoke)
qed

text \<open>
  \<open>Flush\<close> passes the integer 4 as the pointer to the length, so the first call fails
  with \<open>EFAULT\<close>, or for its descriptor: it returns false, sends nothing, leaves the option alone and
  reports no error in the object.
\<close>

theorem Flush_never_flushes:
  assumes "wild_length_faults os"
  shows "\<exists>e'. Flush os send s e = Returns (False, s, e') \<and> errno e' \<noteq> 0
     \<and> trace e' = trace e @ [Sys_getsockopt (m_socket s) IPPROTO_TCP TCP_NODELAY (WildPointer 4)]"
proof -
  have "\<exists>m. err (fst (kernel os (Sys_getsockopt (m_socket s) 6 1 (WildPointer 4)) (world e))) = Some m \<and> m \<noteq> 0"
    using assms unfolding wild_length_faults_def by blast
  then show ?thesis by (auto simp: Flush_eq [OF assms] snd_invoke set_errno_def)
qed

text \<open>A connection that takes everything, on a system that checks the pointers it is given.\<close>

definition stream_os :: "nat os" where
  "stream_os =
     \<lparr>kernel = (\<lambda>c w. case c of
         Sys_send fd b f \<Rightarrow> (ok (int (length b)), w + length b)
       | _ \<Rightarrow> (fail EFAULT, w)),
      clock = (\<lambda>w. (timeval_zero, w)), inet_addr = (\<lambda>p. 0), inet_ntoa = (\<lambda>a. []), uninit = (\<lambda>i. 0)\<rparr>"

lemma stream_os_wild: "wild_length_faults stream_os"
  by (simp add: wild_length_faults_def stream_os_def fail_def ok_def)

theorem Flush_never_flushes_witness:
  "\<exists>e'. Flush stream_os (Send stream_os) (demo_socket SocketTypeTcp 7)
          \<lparr>errno = 0, h_errno = 0, world = 0, trace = []\<rparr> = Returns (False, demo_socket SocketTypeTcp 7, e')
        \<and> errno e' \<noteq> 0"
  using Flush_never_flushes [OF stream_os_wild, of "Send stream_os" "demo_socket SocketTypeTcp 7"
      "\<lparr>errno = 0, h_errno = 0, world = 0, trace = []\<rparr>"] by auto

text \<open>A stream that takes every byte it is given.\<close>

definition takes_all :: "'w os \<Rightarrow> SOCKET \<Rightarrow> bool" where
  "takes_all os fd \<longleftrightarrow>
     (\<forall>b w. ret (fst (kernel os (Sys_send fd b 0) w)) = int (length b)
          \<and> err (fst (kernel os (Sys_send fd b 0) w)) = None)"

definition iov_ok :: "iovec \<Rightarrow> bool" where
  "iov_ok v \<longleftrightarrow> (case iov_base v of None \<Rightarrow> False | Some b \<Rightarrow> iov_len v \<le> length b)"

definition iov_calls :: "SOCKET \<Rightarrow> iovec list \<Rightarrow> syscall list" where
  "iov_calls fd vs = map (\<lambda>v. Sys_send fd (take (iov_len v) (the (iov_base v))) 0)
                       (filter (\<lambda>v. 0 < iov_len v) vs)"

lemma Send_iovec:
  assumes "takes_all os (m_socket s)" and "m_nSocketType s = SocketTypeTcp" and "IsSocketValid s"
    and "errno e \<noteq> EINTR" and "iov_ok v"
  shows "\<exists>s' e'. Send os (iov_base v) (iov_len v) s e = Returns (i32 (int (iov_len v)), s', e')
     \<and> trace e' = trace e @ iov_calls (m_socket s) [v]
     \<and> m_socket s' = m_socket s \<and> m_nSocketType s' = SocketTypeTcp \<and> errno e' = errno e"
proof -
  obtain b where b: "iov_base v = Some b" "iov_len v \<le> length b"
    using assms(5) by (cases "iov_base v") (auto simp: iov_ok_def)
  show ?thesis
  proof (cases "0 < iov_len v")
    case True
    let ?c = "send_call s (take (iov_len v) b)" and ?w = "snd (clock os (world e))"
    have c: "?c = Sys_send (m_socket s) (take (iov_len v) b) 0"
      using assms(2) by (simp add: send_call_def)
    have k: "ret (fst (kernel os ?c ?w)) = int (iov_len v)" "err (fst (kernel os ?c ?w)) = None"
      using assms(1) b(2) unfolding takes_all_def c by auto
    have d: "sends_data (Some b) (iov_len v) s"
      using True assms(2,3) by (simp add: sends_data_def)
    have n: "set_errno (fst (kernel os ?c ?w)) (errno e) \<noteq> EINTR"
      using k(2) assms(4) by (simp add: set_errno_def)
    obtain s' e' where R: "Send os (Some b) (iov_len v) s e = Returns (i32 (int (iov_len v)), s', e')"
      "trace e' = trace e @ [?c]" "m_socket s' = m_socket s" "m_nSocketType s' = m_nSocketType s"
      "errno e' = errno e"
      using Send_once [OF d b(2) prod.collapse [symmetric] n] k by (auto simp: set_errno_def)
    then show ?thesis using True assms(2) by (simp add: b iov_calls_def c)
  next
    case False
    then have "\<not> sends_data (iov_base v) (iov_len v) s" by (simp add: sends_data_def)
    with False assms(2) show ?thesis
      by (simp add: Send_idle iov_calls_def SetSocketError_def)
  qed
qed

lemma iov_calls_Cons: "iov_calls fd (v # vs) = iov_calls fd [v] @ iov_calls fd vs"
  by (simp add: iov_calls_def)

lemma writev_loop_sends:
  assumes "takes_all os (m_socket s)" and "m_nSocketType s = SocketTypeTcp" and "IsSocketValid s"
    and "errno e \<noteq> EINTR" and "list_all iov_ok vs"
    and "m + sum_list (map iov_len vs) < 2 ^ 31"
  shows "\<exists>s' e'. writev_loop (Send os) vs i (i32 (int m)) s e
        = Returns (i + length vs, i32 (int (m + sum_list (map iov_len vs))), s', e')
     \<and> trace e' = trace e @ iov_calls (m_socket s) vs \<and> m_socket s' = m_socket s"
  using assms
proof (induction vs arbitrary: i m s e)
  case Nil
  then show ?case by (simp add: iov_calls_def)
next
  case (Cons v vs)
  obtain s1 e1 where S: "Send os (iov_base v) (iov_len v) s e = Returns (i32 (int (iov_len v)), s1, e1)"
    "trace e1 = trace e @ iov_calls (m_socket s) [v]"
    "m_socket s1 = m_socket s" "m_nSocketType s1 = SocketTypeTcp" "errno e1 = errno e"
    using Send_iovec [of os s e v] Cons.prems by auto
  have v: "sint (i32 (int (iov_len v))) = int (iov_len v)" "sint (i32 (int m)) = int m"
    by (rule sint_i32; use Cons.prems(6) in simp)+
  have no_error: "i32 (int (iov_len v)) \<noteq> -1"
    using v(1) by (metis sint_n1 of_nat_less_0_iff neg_less_0_iff_less zero_less_one)
  have step: "i32 (int m) + i32 (int (iov_len v)) = i32 (int (m + iov_len v))" by simp
  obtain s' e' where "writev_loop (Send os) vs (Suc i) (i32 (int (m + iov_len v))) s1 e1
      = Returns (Suc i + length vs, i32 (int (m + iov_len v + sum_list (map iov_len vs))), s', e')"
    "trace e' = trace e1 @ iov_calls (m_socket s1) vs" "m_socket s' = m_socket s1"
    using Cons.IH [of s1 e1 "m + iov_len v" "Suc i"] Cons.prems S(3-5)
    by (auto simp: IsSocketValid_iff add.assoc)
  then show ?case
    using S v no_error Cons.prems(6)
    by (simp add: step [simplified] iov_calls_Cons [of _ v vs] add.assoc)
qed

text \<open>
  C31. On a valid stream socket whose connection takes every byte it is given, and with no interruption
  left in \<open>errno\<close> from before, \<open>Writev\<close> of a vector that is not empty, whose elements lie in their
  buffers and whose lengths sum to less than \<open>2 ^ 31\<close>, sends the elements one by one and in order, skipping the
  empty ones, and returns that sum; then it calls \<open>Flush\<close>, whose one call, a \<open>getsockopt\<close> with
  the integer 4 for the pointer to the length, fails, on a system that checks such pointers, so that it does nothing more.
\<close>

theorem Writev_sends_in_order:
  assumes "takes_all os (m_socket s)" and "wild_length_faults os"
    and "m_nSocketType s = SocketTypeTcp" and "IsSocketValid s" and "errno e \<noteq> EINTR"
    and "list_all iov_ok vs" and "vs \<noteq> []" and "sum_list (map iov_len vs) < 2 ^ 31"
  shows "\<exists>s' e'. Writev os (Send os) vs s e = Returns (i32 (int (sum_list (map iov_len vs))), s', e')
     \<and> trace e' = trace e @ iov_calls (m_socket s) vs
         @ [Sys_getsockopt (m_socket s) IPPROTO_TCP TCP_NODELAY (WildPointer 4)]"
proof -
  from writev_loop_sends [OF assms(1,3-6), of 0 0] assms(8) obtain s1 e1 where
    "writev_loop (Send os) vs 0 0 s e = Returns (length vs, i32 (int (sum_list (map iov_len vs))), s1, e1)"
    "trace e1 = trace e @ iov_calls (m_socket s) vs" "m_socket s1 = m_socket s" by auto
  then show ?thesis using assms(7) by (simp add: Writev_def Flush_eq [OF assms(2)])
qed

theorem Writev_sends_in_order_witness:
  "\<exists>s' e'. Writev stream_os (Send stream_os)
        [\<lparr>iov_base = Some [1, 2], iov_len = 2\<rparr>, \<lparr>iov_base = Some [], iov_len = 0\<rparr>,
         \<lparr>iov_base = Some [3, 4, 5], iov_len = 1\<rparr>] (demo_socket SocketTypeTcp 7)
        \<lparr>errno = 0, h_errno = 0, world = 0, trace = []\<rparr> = Returns (3, s', e')
     \<and> trace e' = [Sys_send 7 [1, 2] 0, Sys_send 7 [3] 0, Sys_getsockopt 7 6 1 (WildPointer 4)]"
proof -
  have "takes_all stream_os (m_socket (demo_socket SocketTypeTcp 7))"
    by (simp add: takes_all_def stream_os_def ok_def)
  from Writev_sends_in_order [OF this stream_os_wild, of "\<lparr>errno = 0, h_errno = 0, world = 0, trace = []\<rparr>"
      "[\<lparr>iov_base = Some [1, 2], iov_len = 2\<rparr>, \<lparr>iov_base = Some [], iov_len = 0\<rparr>,
         \<lparr>iov_base = Some [3, 4, 5], iov_len = 1\<rparr>]"]
  show ?thesis by (simp add: IsSocketValid_iff iov_ok_def iov_calls_def)
qed

end
