(* ===== verification/Socket_Lifecycle.thy ===== *)
theory Socket_Lifecycle imports Active_Socket Bulk_Transfer begin

text \<open>
  A client object over its whole life: the public operations of \<open>CActiveSocket\<close> as the steps
  of a transition system, what every step keeps, and what therefore holds of every object
  that a program can reach from the constructor.
\<close>

section \<open>Invariants of a transition system\<close>

text \<open>The contract of an invariant: it holds at the start and every step keeps it.\<close>

locale invariant_system =
  fixes start :: "'s \<Rightarrow> bool" and step :: "'s \<Rightarrow> 's \<Rightarrow> bool" and inv :: "'s \<Rightarrow> bool"
  assumes at_start: "start x \<Longrightarrow> inv x"
    and kept: "step x y \<Longrightarrow> inv x \<Longrightarrow> inv y"
begin

lemma always:
  assumes "step\<^sup>*\<^sup>* x y" and "start x"
  shows "inv y"
  using assms by (induction rule: rtranclp_induct) (auto intro: at_start kept)

lemma always_from:
  assumes "step\<^sup>*\<^sup>* x y" and "inv x"
  shows "inv y"
  using assms by (induction rule: rtranclp_induct) (auto intro: kept)

end

section \<open>What each operation leaves alone\<close>

text \<open>
  The operations other than \<open>Initialize\<close>, \<open>Close\<close> and \<open>Receive\<close>: the type, the handle and
  the internal buffer stay, the error is left alone or becomes one that is not the value
  reserved for results, and no descriptor is opened or closed.
\<close>

definition steady ::
  "'a csocket_scheme \<times> 'w env \<Rightarrow> 'a csocket_scheme \<times> 'w env \<Rightarrow> bool" where
  "steady x y \<longleftrightarrow>
     m_nSocketType (fst y) = m_nSocketType (fst x) \<and> m_socket (fst y) = m_socket (fst x)
     \<and> m_pBuffer (fst y) = m_pBuffer (fst x) \<and> m_nBufferSize (fst y) = m_nBufferSize (fst x)
     \<and> (m_socketErrno (fst y) = m_socketErrno (fst x) \<or> m_socketErrno (fst y) \<noteq> SocketError)
     \<and> calm (snd x) (snd y)"

lemma steady_refl [simp]: "steady x x"
  by (simp add: steady_def)

lemma steady_trans: "steady x y \<Longrightarrow> steady y z \<Longrightarrow> steady x z"
  unfolding steady_def using calm_trans by metis

lemmas steady_unfold = steady_def SetSocketError_def TranslateSocketError_def Let_def split_beta
  timer_start_eq timer_end_eq setsockopt_def

lemma steady_Shutdown: "steady (s, e) (snd (Shutdown os m s e))"
  by (simp add: Shutdown_def steady_unfold calm_call)

lemma steady_options:
  "steady (s, e) (snd (BindInterface os i s e))" "steady (s, e) (snd (SetMulticast os b ttl s e))"
  "steady (s, e) (snd (SetSocketDscp os d s e))" "steady (s, e) (snd (GetSocketDscp os s e))"
  "steady (s, e) (snd (GetWindowSize os n s e))" "steady (s, e) (snd (SetWindowSize os n z s e))"
  "steady (s, e) (snd (DisableNagleAlgoritm os s e))" "steady (s, e) (snd (EnableNagleAlgoritm os s e))"
  "steady (s, e) (snd (SetOptionReuseAddr os s e))" "steady (s, e) (snd (SetOptionLinger os b u s e))"
  "steady (s, e) (snd (SetReceiveTimeout os x y s e))" "steady (s, e) (snd (SetSendTimeout os x y s e))"
  "steady (s, e) (SetConnectTimeout x y s, e)"
  by (simp_all add: BindInterface_def SetMulticast_def SetSocketDscp_def GetSocketDscp_def
      GetWindowSize_def SetWindowSize_def DisableNagleAlgoritm_def EnableNagleAlgoritm_def
      SetOptionReuseAddr_def SetOptionLinger_def SetReceiveTimeout_def SetSendTimeout_def
      SetConnectTimeout_def steady_unfold calm_call split: option.split)

lemma steady_blocking:
  "steady (s, e) (snd (SetNonblocking os s e))" "steady (s, e) (snd (SetBlocking os s e))"
  by (simp_all add: SetNonblocking_def SetBlocking_def steady_unfold calm_call)

lemma steady_pass:
  "send_attempt os bytes x = Returns y \<Longrightarrow> steady x y"
  "sendto_attempt os bytes x = Returns y \<Longrightarrow> steady x y"
  by (auto simp: send_attempt_def sendto_attempt_def steady_unfold calm_call)

lemma steady_loop:
  assumes "do_while (send_body os t bytes) interrupted x = Returns y"
  shows "steady x y"
proof (cases "t = SocketTypeTcp")
  case True
  then have "do_while (send_attempt os bytes) interrupted x = Returns y"
    using assms by (simp add: send_body_def)
  then show ?thesis
    by (rule send.keeps [where P = "steady x"]) (auto intro: steady_trans steady_pass)
next
  case False
  then have "do_while (sendto_attempt os bytes) interrupted x = Returns y"
    using assms by (simp add: send_body_def)
  then show ?thesis
    by (rule sendto.keeps [where P = "steady x"]) (auto intro: steady_trans steady_pass)
qed

lemma Send_overread:
  assumes "sends_data (Some buf) n s" and "length buf < n"
  shows "Send os (Some buf) n s e = Faults PointerOutOfBounds"
  using assms
  by (cases "m_nSocketType s")
     (auto simp: Send_def sends_data_def read_buffer_def IsSocketValid_iff SetSocketError_def Let_def split_beta)

lemma steady_Send:
  assumes "Send os pBuf n s e = Returns (k, y)"
  shows "steady (s, e) y"
proof (cases "sends_data pBuf n s")
  case False
  then show ?thesis using assms by (auto simp: Send_idle steady_unfold)
next
  case True
  then obtain buf where b: "pBuf = Some buf" by (auto simp: sends_data_def)
  have le: "n \<le> length buf"
    using Send_overread [of buf n s os e] True assms by (force simp: b not_le [symmetric])
  obtain s2 e2 where D: "do_while (send_body os (m_nSocketType s) (take n buf)) interrupted (send_start os s e) = Returns (s2, e2)"
    and y: "y = timer_end os s2 e2"
    using assms Send_loop [OF True [unfolded b] le, of os e] by (auto simp: b obind_eq_Returns Let_def split_beta)
  have "steady (send_start os s e) (s2, e2)" using D by (rule steady_loop)
  then show ?thesis by (auto simp: y send_start_def steady_unfold)
qed

lemma steady_Send_vector: "steady (s, e) (snd (Send_vector os v n s e))"
  by (simp add: Send_vector_def steady_unfold calm_call)

lemma steady_undisturbed: "undisturbed x y \<Longrightarrow> steady x y"
  by (simp add: undisturbed_def same_object_def steady_def)

text \<open>
  The contract of the virtual \<open>Send\<close>, which \<open>Flush\<close> and \<open>Writev\<close> call: whichever class's it
  is, it leaves those members alone, and then so do they.
\<close>

locale steady_sender =
  fixes send :: "('a, 'w) send_method"
  assumes send_steady: "send p n s e = Returns (k, y) \<Longrightarrow> steady (s, e) y"
begin

lemma steady_Flush:
  assumes flush: "Flush os send s e = Returns (b, y)"
  shows "steady (s, e) y"
proof -
  define e1 where "e1 = snd (invoke os (Sys_getsockopt (m_socket s) 6 1 (WildPointer 4)) e)"
  define e2 where "e2 = snd (invoke os (Sys_setsockopt (m_socket s) 6 1 (Opt_int 1)) e1)"
  have c: "calm e e1" "calm e e2" by (simp_all add: e1_def e2_def calm_call)
  show ?thesis
  proof (cases "i32 (ret (fst (invoke os (Sys_getsockopt (m_socket s) 6 1 (WildPointer 4)) e))) = 0")
    case False
    then have "y = (s, e1)" using flush by (simp add: Flush_def Let_def split_beta e1_def)
    then show ?thesis using c by (simp add: steady_def)
  next
    case True
    define m where "m = (if i32 (ret (fst (invoke os (Sys_setsockopt (m_socket s) 6 1 (Opt_int 1)) e1))) = 0 then
        obind (send (Some [0]) 0 s e2) (\<lambda>(n, s3, e3). Returns (n \<noteq> error_code SocketError, TranslateSocketError s3 e3, e3))
      else Returns (False, s, e2))"
    obtain v where "obind m (\<lambda>(b, s4, e4).
        let (r5, e5) = setsockopt os (m_socket s4) 6 1 (Opt_int v) e4 in Returns (b, s4, e5)) = Returns (b, y)"
      using flush True unfolding m_def e2_def e1_def
      by (simp add: Flush_def setsockopt_def Let_def split_beta split del: if_split)
    then obtain d s4 e4 where m: "m = Returns (d, s4, e4)"
      and y: "y = (s4, snd (invoke os (Sys_setsockopt (m_socket s4) 6 1 (Opt_int v)) e4))"
      by (auto simp: obind_eq_Returns setsockopt_def Let_def split_beta)
    have "steady (s, e2) (s4, e4)"
    proof (cases "i32 (ret (fst (invoke os (Sys_setsockopt (m_socket s) 6 1 (Opt_int 1)) e1))) = 0")
      case False
      then show ?thesis using m by (simp add: m_def)
    next
      case True
      then obtain k s3 where S: "send (Some [0]) 0 s e2 = Returns (k, s3, e4)"
        and s4: "s4 = TranslateSocketError s3 e4"
        using m by (auto simp: m_def obind_eq_Returns)
      from send_steady [OF S] show ?thesis
        by (simp add: s4 steady_def TranslateSocketError_def SetSocketError_def)
    qed
    then show ?thesis
      using c(2) unfolding y steady_def by (auto intro: calm_call calm_trans)
  qed
qed

lemma steady_writev_loop:
  "writev_loop send vs i m s e = Returns (k, n, y) \<Longrightarrow> steady (s, e) y"
proof (induction vs arbitrary: i m s e)
  case Nil
  then show ?case by simp
next
  case (Cons v vs)
  from Cons.prems obtain q s1 e1 where S: "send (iov_base v) (iov_len v) s e = Returns (q, s1, e1)"
    by (auto simp: obind_eq_Returns)
  have 1: "steady (s, e) (s1, e1)" using S by (rule send_steady)
  show ?case
    using Cons.prems 1 Cons.IH [of "Suc i" "m + q" s1 e1]
    by (auto simp: S split: if_splits intro: steady_trans)
qed

lemma steady_Writev:
  assumes writev: "Writev os send vs s e = Returns (k, y)"
  shows "steady (s, e) y"
proof -
  obtain i n s1 e1 where L: "writev_loop send vs 0 0 s e = Returns (i, n, s1, e1)"
    using writev by (auto simp: Writev_def obind_eq_Returns)
  note 1 = steady_writev_loop [OF L]
  show ?thesis
  proof (cases "0 < i")
    case True
    then obtain b s2 e2 where "Flush os send s1 e1 = Returns (b, s2, e2)" "y = (s2, e2)"
      using writev by (auto simp: Writev_def L obind_eq_Returns)
    then show ?thesis using 1 steady_Flush steady_trans by blast
  next
    case False
    then show ?thesis using writev 1 by (simp add: Writev_def L)
  qed
qed

end

lemma calm_sendfile_loop:
  "sendfile_loop os o1 i1 n out e = Returns (m, e') \<Longrightarrow> calm e e'"
proof (induction os o1 i1 n out e arbitrary: m e' rule: sendfile_loop.induct)
  case (1 os nOutFd nInFd nCount nOutCount e)
  let ?k = "block_size nCount nOutCount"
  obtain r1 e1 where i1: "invoke os (Sys_read nInFd ?k) e = (r1, e1)" by fastforce
  obtain r2 e2 where i2: "invoke os (Sys_send nOutFd (take (nat (sint ?k)) (data r1)) 0) e1 = (r2, e2)" by fastforce
  have c: "calm e e1" "calm e e2"
    using calm_call [of e e "Sys_read nInFd ?k" os]
      calm_call [of e e1 "Sys_send nOutFd (take (nat (sint ?k)) (data r1)) 0" os]
    by (simp_all add: i1 i2)
  show ?case
  proof (cases "sint nOutCount < sint nCount \<and> \<not> 2 ^ 31 \<le> sint nCount - sint nOutCount
      \<and> i32 (ret r1) = ?k \<and> i32 (ret r2) = ?k")
    case True
    then have "sendfile_loop os nOutFd nInFd nCount (nOutCount + ?k) e2 = Returns (m, e')"
      using "1.prems" by (subst (asm) sendfile_loop_block) (simp add: i1 i2)
    then have "calm e2 e'"
      using True by (intro "1.IH" [OF _ _ _ refl i1 [symmetric] _ refl i2 [symmetric]]) (simp_all add: block_size_def)
    then show ?thesis using c(2) calm_trans by blast
  next
    case False
    then show ?thesis
      using "1.prems" c by (subst (asm) sendfile_loop_block) (auto simp: i1 i2 Let_def split: if_splits)
  qed
qed

lemma steady_SendFile:
  assumes "SendFile os o1 i1 off n s e = Returns (k, off', y)"
  shows "steady (s, e) y"
proof -
  obtain r e1 where i: "invoke os (Sys_lseek i1 off 0) e = (r, e1)" by fastforce
  have c: "calm e e1" using calm_call [of e e "Sys_lseek i1 off 0" os] by (simp add: i)
  show ?thesis
  proof (cases "ret r = -1")
    case True
    then show ?thesis using assms c by (auto simp: SendFile_def i steady_def)
  next
    case False
    then obtain m e2 where L: "sendfile_loop os o1 i1 n (-1) e1 = Returns (m, e2)"
      and y: "(case m of None \<Rightarrow> Returns (-1, off, s, e2)
        | Some n' \<Rightarrow> Returns (n', off + scast n', TranslateSocketError s e2, e2)) = Returns (k, off', y)"
      using assms by (auto simp: SendFile_def i obind_eq_Returns)
    have "calm e e2" using calm_trans [OF c calm_sendfile_loop [OF L]] .
    then show ?thesis
      using y by (cases m) (auto simp: steady_def TranslateSocketError_def SetSocketError_def)
  qed
qed

lemma calm_receive_pass:
  "receive_body os n s x = Returns y \<Longrightarrow> calm (fst (snd x)) (fst (snd y))"
  by (cases x) (auto simp: receive_body_def recv_attempt_def recvfrom_attempt_def
      recvfrom_multicast_attempt_def obind_eq_Returns Let_def split_beta calm_call split: if_splits)

lemma calm_Receive:
  assumes "Receive os n pBuffer s e = Returns (k, pBuffer', s', e')"
  shows "calm e e'"
proof (cases "IsSocketValid s")
  case False
  then show ?thesis using assms by (simp add: Receive_def IsSocketValid_iff Let_def)
next
  case True
  from assms obtain s1 y where run: "receive_run os n s (receive_start os pBuffer s1 e) = Returns y"
    and fin: "receive_finish os pBuffer y = Returns (k, pBuffer', s', e')"
    by (auto simp: Receive_valid [OF True] obind_eq_Returns)
  have start: "calm e (fst (snd (receive_start os pBuffer s1 e)))"
    by (simp add: receive_start_def timer_start_eq)
  have "calm e (fst (snd y))"
  proof (cases "m_nSocketType s \<in> {SocketTypeTcp, SocketTypeUdp}")
    case True
    then have "do_while (receive_body os n s) interrupted (receive_start os pBuffer s1 e) = Returns y"
      using run by (simp add: receive_run_def)
    from do_while_rule [OF this, of "\<lambda>z. calm e (fst (snd z))" "\<lambda>z. calm e (fst (snd z))"] start
    show ?thesis using calm_receive_pass calm_trans by blast
  next
    case False
    then show ?thesis using run start by (simp add: receive_run_def)
  qed
  then show ?thesis
    using fin by (cases y) (auto simp: receive_finish_def timer_end_eq Let_def)
qed

section \<open>The operations as one function\<close>

text \<open>The public operations that every socket has, and the state each leads to, if it returns.\<close>

datatype socket_op =
    OpInitialize
  | OpClose
  | OpShutdown CShutdownMode
  | OpSend "byte list option" nat
  | OpSendVector "byte list list" int32
  | OpReceive int32 "byte list option"
  | OpSelect int32 int32
  | OpFlush
  | OpWritev "iovec list"
  | OpSendFile int32 int32 int64 int32
  | OpSetBlocking
  | OpSetNonblocking
  | OpSetMulticast bool uint8
  | OpBindInterface "string option"
  | OpSetDscp int32
  | OpGetDscp
  | OpSetWindow int32 uint32
  | OpGetWindow int32
  | OpDisableNagle
  | OpEnableNagle
  | OpReuseAddr
  | OpLinger bool uint16
  | OpReceiveTimeout int32 int32
  | OpSendTimeout int32 int32
  | OpConnectTimeout int32 int32

fun run_base ::
  "'w os \<Rightarrow> ('a, 'w) send_method \<Rightarrow> socket_op \<Rightarrow> 'a csocket_scheme \<times> 'w env \<Rightarrow>
     ('a csocket_scheme \<times> 'w env) outcome" where
  "run_base os send OpInitialize (s, e) = Returns (snd (Initialize os s e))"
| "run_base os send OpClose (s, e) = Returns (snd (Close os s e))"
| "run_base os send (OpShutdown m) (s, e) = Returns (snd (Shutdown os m s e))"
| "run_base os send (OpSend p n) (s, e) = obind (send p n s e) (\<lambda>(k, x). Returns x)"
| "run_base os send (OpSendVector v n) (s, e) = Returns (snd (Send_vector os v n s e))"
| "run_base os send (OpReceive n p) (s, e) = obind (Receive os n p s e) (\<lambda>(k, p', x). Returns x)"
| "run_base os send (OpSelect a b) (s, e) = obind (Select os a b s e) (\<lambda>(c, x). Returns x)"
| "run_base os send OpFlush (s, e) = obind (Flush os send s e) (\<lambda>(b, x). Returns x)"
| "run_base os send (OpWritev v) (s, e) = obind (Writev os send v s e) (\<lambda>(k, x). Returns x)"
| "run_base os send (OpSendFile a b off n) (s, e) =
     obind (SendFile os a b off n s e) (\<lambda>(k, off', x). Returns x)"
| "run_base os send OpSetBlocking (s, e) = Returns (snd (SetBlocking os s e))"
| "run_base os send OpSetNonblocking (s, e) = Returns (snd (SetNonblocking os s e))"
| "run_base os send (OpSetMulticast b t) (s, e) = Returns (snd (SetMulticast os b t s e))"
| "run_base os send (OpBindInterface i) (s, e) = Returns (snd (BindInterface os i s e))"
| "run_base os send (OpSetDscp d) (s, e) = Returns (snd (SetSocketDscp os d s e))"
| "run_base os send OpGetDscp (s, e) = Returns (snd (GetSocketDscp os s e))"
| "run_base os send (OpSetWindow n z) (s, e) = Returns (snd (SetWindowSize os n z s e))"
| "run_base os send (OpGetWindow n) (s, e) = Returns (snd (GetWindowSize os n s e))"
| "run_base os send OpDisableNagle (s, e) = Returns (snd (DisableNagleAlgoritm os s e))"
| "run_base os send OpEnableNagle (s, e) = Returns (snd (EnableNagleAlgoritm os s e))"
| "run_base os send OpReuseAddr (s, e) = Returns (snd (SetOptionReuseAddr os s e))"
| "run_base os send (OpLinger b t) (s, e) = Returns (snd (SetOptionLinger os b t s e))"
| "run_base os send (OpReceiveTimeout a b) (s, e) = Returns (snd (SetReceiveTimeout os a b s e))"
| "run_base os send (OpSendTimeout a b) (s, e) = Returns (snd (SetSendTimeout os a b s e))"
| "run_base os send (OpConnectTimeout a b) (s, e) = Returns (SetConnectTimeout a b s, e)"

context steady_sender begin

lemma run_base_steady:
  assumes "run_base os send op (s, e) = Returns y"
    and "op \<notin> {OpInitialize, OpClose}" and "\<And>n p. op \<noteq> OpReceive n p"
  shows "steady (s, e) y"
proof (cases op)
  case (OpSelect a b)
  then show ?thesis using assms(1) by (auto simp: obind_eq_Returns intro: steady_undisturbed Select_undisturbed)
qed (use assms in \<open>auto simp: obind_eq_Returns
      intro: steady_Shutdown steady_options steady_blocking send_steady steady_Send_vector
        steady_Flush steady_Writev steady_SendFile\<close>)

end

interpretation active_sender: steady_sender "Send os" for os :: "'w os"
  by unfold_locales (rule steady_Send)

section \<open>The invariant of the object\<close>

text \<open>
  The object is well formed: its buffer is as long as recorded, its type is the one it was
  constructed with, and its error is not the value reserved for results.
\<close>

definition object_ok :: "CSocketType \<Rightarrow> 'a csocket_scheme \<times> 'w env \<Rightarrow> bool" where
  "object_ok t x \<longleftrightarrow>
     buffer_ok (fst x) \<and> GetSocketType (fst x) = t \<and> GetSocketError (fst x) \<noteq> SocketError"

lemma steady_ok:
  assumes "steady x y" and "object_ok t x"
  shows "object_ok t y"
  using assms buffer_ok_cong [of "fst y" "fst x"]
  by (auto simp: steady_def object_ok_def GetSocketType_def GetSocketError_def)

lemma Initialize_sel [simp]:
  "m_nSocketType (fst (snd (Initialize os s e))) = m_nSocketType s"
  "m_pBuffer (fst (snd (Initialize os s e))) = m_pBuffer s"
  "m_nBufferSize (fst (snd (Initialize os s e))) = m_nBufferSize s"
  "m_socketErrno (fst (snd (Initialize os s e))) \<noteq> SocketError"
  by (simp_all add: Initialize_def timer_start_eq timer_end_eq Let_def split_beta
      TranslateSocketError_def SetSocketError_def)

lemma Close_sel [simp]:
  "m_nSocketType (fst (snd (Close os s e))) = m_nSocketType s"
  "m_pBuffer (fst (snd (Close os s e))) = None"
  "m_socketErrno (fst (snd (Close os s e))) \<noteq> SocketError"
  by (simp_all add: Close_eq Let_def split_beta TranslateSocketError_def SetSocketError_def)

context steady_sender begin

lemma run_base_ok:
  assumes run: "run_base os send op x = Returns y" and ok: "object_ok t x"
  shows "object_ok t y"
proof -
  obtain s e where x: "x = (s, e)" by (cases x)
  consider "op = OpInitialize" | "op = OpClose" | n p where "op = OpReceive n p"
    | "op \<notin> {OpInitialize, OpClose}" "\<And>n p. op \<noteq> OpReceive n p" by (cases op) auto
  then show ?thesis
  proof cases
    case 1
    have "buffer_ok (fst (snd (Initialize os s e))) = buffer_ok s" by (rule buffer_ok_cong) simp_all
    with 1 run ok show ?thesis
      by (auto simp: x object_ok_def GetSocketType_def GetSocketError_def)
  next
    case 2
    with run ok show ?thesis by (auto simp: x object_ok_def GetSocketType_def GetSocketError_def)
  next
    case (3 n p)
    then obtain k p' s' e' where R: "Receive os n p s e = Returns (k, p', s', e')" and y: "y = (s', e')"
      using run by (auto simp: x obind_eq_Returns)
    have "buffer_ok s" using ok by (simp add: x object_ok_def)
    from Receive_frame [OF this R] ok show ?thesis by (auto simp: x y object_ok_def)
  next
    case 4
    then have "steady (s, e) y" using run_base_steady [of os op s e y] run by (simp add: x)
    then show ?thesis using ok unfolding x by (rule steady_ok)
  qed
qed

end

section \<open>The invariant of the descriptor\<close>

text \<open>
  Reading a sequence of calls: whether a descriptor is open at the end, and whether every
  \<open>close\<close> comes while one is open. \<open>b\<close> says whether one is open at the beginning.
\<close>

fun is_open :: "bool \<Rightarrow> syscall list \<Rightarrow> bool" where
  "is_open b [] = b"
| "is_open b (c # cs) =
     is_open (case c of Sys_socket d t p \<Rightarrow> True | Sys_close fd \<Rightarrow> False | _ \<Rightarrow> b) cs"

fun closes_open :: "bool \<Rightarrow> syscall list \<Rightarrow> bool" where
  "closes_open b [] = True"
| "closes_open b (c # cs) =
     (case c of
        Sys_socket d t p \<Rightarrow> closes_open True cs
      | Sys_close fd \<Rightarrow> b \<and> closes_open False cs
      | _ \<Rightarrow> closes_open b cs)"

lemma is_open_append [simp]: "is_open b (xs @ ys) = is_open (is_open b xs) ys"
  by (induction xs arbitrary: b) simp_all

lemma closes_open_append [simp]:
  "closes_open b (xs @ ys) \<longleftrightarrow> closes_open b xs \<and> closes_open (is_open b xs) ys"
  by (induction xs arbitrary: b) (simp_all split: syscall.split)

lemma calm_calls: "\<not> list_ex life_call cs \<Longrightarrow> is_open b cs = b \<and> closes_open b cs"
  by (induction cs) (auto split: syscall.split)

lemma calm_open:
  assumes "calm e e'"
  shows "is_open b (trace e') = is_open b (trace e) \<and> closes_open b (trace e') = closes_open b (trace e)"
  using assms calm_calls by (auto simp: calm_def)

definition handle_ok :: "'a csocket_scheme \<times> 'w env \<Rightarrow> bool" where
  "handle_ok x \<longleftrightarrow> closes_open False (trace (snd x))
     \<and> (m_socket (fst x) = -1 \<or> is_open False (trace (snd x)))"

text \<open>A kernel that always closes.\<close>

definition close_succeeds :: "'w os \<Rightarrow> bool" where
  "close_succeeds os \<longleftrightarrow> (\<forall>fd w. i32 (ret (fst (kernel os (Sys_close fd) w))) \<noteq> -1)"

lemma Initialize_handle:
  "handle_ok (s, e) \<Longrightarrow> handle_ok (snd (Initialize os s e))"
  by (simp add: handle_ok_def Initialize_def timer_start_eq timer_end_eq Let_def split_beta
      TranslateSocketError_def SetSocketError_def)

lemma Close_handle:
  assumes "close_succeeds os" and "handle_ok (s, e)"
  shows "handle_ok (snd (Close os s e))"
proof (cases "m_socket s = -1")
  case True
  then show ?thesis using assms(2)
    by (simp add: handle_ok_def Close_eq TranslateSocketError_def SetSocketError_def)
next
  case False
  have "i32 (ret (fst (kernel os (Sys_close (m_socket s)) (world e)))) \<noteq> -1"
    using assms(1) unfolding close_succeeds_def by blast
  with False assms(2) show ?thesis
    by (simp add: handle_ok_def Close_eq Let_def split_beta fst_invoke TranslateSocketError_def SetSocketError_def)
qed

lemma calm_handle:
  assumes "calm e e'" and "m_socket s' = m_socket s" and "handle_ok (s, e)"
  shows "handle_ok (s', e')"
  using calm_open [OF assms(1), of False] assms(2,3) by (simp add: handle_ok_def)

text \<open>Every operation but \<open>Initialize\<close> and \<open>Close\<close>.\<close>

context steady_sender begin

lemma run_base_calm:
  assumes run: "run_base os send op (s, e) = Returns (s', e')" and "op \<notin> {OpInitialize, OpClose}" and "buffer_ok s"
  shows "m_socket s' = m_socket s \<and> calm e e'"
proof (cases "\<exists>n p. op = OpReceive n p")
  case True
  then obtain n p k p' where R: "Receive os n p s e = Returns (k, p', s', e')"
    using run by (auto simp: obind_eq_Returns)
  show ?thesis using Receive_frame [OF assms(3) R] calm_Receive [OF R] by simp
next
  case False
  then have "steady (s, e) (s', e')"
    using run assms(2) by (intro run_base_steady [of os op]) auto
  then show ?thesis by (simp add: steady_def)
qed

lemma run_base_handle:
  assumes "close_succeeds os" and run: "run_base os send op x = Returns y"
    and ok: "handle_ok x" and "buffer_ok (fst x)"
  shows "handle_ok y"
proof -
  obtain s e s' e' where xy: "x = (s, e)" "y = (s', e')" by (cases x; cases y)
  consider "op = OpInitialize" | "op = OpClose" | "op \<notin> {OpInitialize, OpClose}" by (cases op) auto
  then show ?thesis
  proof cases
    case 1
    then show ?thesis using run ok Initialize_handle [of s e os] by (auto simp: xy)
  next
    case 2
    then show ?thesis using assms(1) run ok Close_handle [of os s e] by (auto simp: xy)
  next
    case 3
    then have "m_socket s' = m_socket s \<and> calm e e'"
      using run_base_calm [of os op s e s' e'] run assms(4) by (simp add: xy)
    then show ?thesis using ok calm_handle [of e e' s' s] by (simp add: xy)
  qed
qed

end

section \<open>The client as a transition system\<close>

text \<open>\<open>CActiveSocket\<close> adds \<open>Open\<close> and inherits the rest, \<open>Send\<close> included.\<close>

datatype client_op = OpOpen "string option" uint16 | Inherited socket_op

type_synonym 'w client = "cactive \<times> 'w env"

fun run_op :: "'w os \<Rightarrow> client_op \<Rightarrow> 'w client \<Rightarrow> 'w client outcome" where
  "run_op os (OpOpen p n) (s, e) = obind (Open os p n s e) (\<lambda>(b, x). Returns x)"
| "run_op os (Inherited op) x = run_base os (Send os) op x"

inductive client_step :: "'w os \<Rightarrow> 'w client \<Rightarrow> 'w client \<Rightarrow> bool" for os :: "'w os" where
  operate: "run_op os op x = Returns y \<Longrightarrow> client_step os x y"

inductive_cases client_stepE: "client_step os x y"

definition constructed :: "CSocketType \<Rightarrow> 'w client \<Rightarrow> bool" where
  "constructed t x \<longleftrightarrow> (\<exists>raw. fst x = CActiveSocket t raw)"

lemma constructed_ok: "constructed t x \<Longrightarrow> object_ok t x"
  by (cases t) (auto simp: constructed_def object_ok_def CActiveSocket_def CSimpleSocket_def
      SetConnectTimeout_def GetSocketType_def GetSocketError_def buffer_ok_def Let_def)

lemma constructed_handle: "constructed t x \<Longrightarrow> m_socket (fst x) = -1"
  by (cases t) (auto simp: constructed_def CActiveSocket_def CSimpleSocket_def SetConnectTimeout_def Let_def)

lemma steady_Open: "Open os p n s e = Returns (b, y) \<Longrightarrow> steady (s, e) y"
  by (cases y) (auto intro: steady_undisturbed dest: Open_undisturbed)

lemma run_op_ok:
  assumes "run_op os op x = Returns y" and "object_ok t x"
  shows "object_ok t y"
proof (cases op)
  case (OpOpen p n)
  then show ?thesis
    using assms by (cases x) (auto simp: obind_eq_Returns intro: steady_ok [OF steady_Open])
next
  case (Inherited b)
  then show ?thesis using assms active_sender.run_base_ok [of os os b x y t] by simp
qed

lemma run_op_calm:
  assumes "run_op os op (s, e) = Returns (s', e')"
    and "op \<notin> {Inherited OpInitialize, Inherited OpClose}" and "buffer_ok s"
  shows "m_socket s' = m_socket s \<and> calm e e'"
proof (cases op)
  case (OpOpen p n)
  then obtain b where "Open os p n s e = Returns (b, s', e')" using assms(1) by (auto simp: obind_eq_Returns)
  from steady_Open [OF this] show ?thesis by (simp add: steady_def)
next
  case (Inherited b)
  then show ?thesis using assms active_sender.run_base_calm [of os os b s e s' e'] by simp
qed

lemma run_op_handle:
  assumes "close_succeeds os" and "run_op os op x = Returns y" and "handle_ok x" and "buffer_ok (fst x)"
  shows "handle_ok y"
proof (cases op)
  case (OpOpen p n)
  obtain s e s' e' where xy: "x = (s, e)" "y = (s', e')" by (cases x; cases y)
  have "m_socket s' = m_socket s \<and> calm e e'"
    using assms(2,4) by (intro run_op_calm [of os op]) (simp_all add: xy OpOpen)
  then show ?thesis using assms(3) calm_handle [of e e' s' s] by (simp add: xy)
next
  case (Inherited b)
  then show ?thesis using assms active_sender.run_base_handle [of os os b x y] by simp
qed

interpretation client: invariant_system "constructed t" "client_step os" "object_ok t"
  for os :: "'w os" and t
  by unfold_locales (auto intro: constructed_ok run_op_ok elim: client_stepE)

interpretation descriptor: invariant_system
  "\<lambda>x. constructed t x \<and> trace (snd x) = []" "client_step os"
  "\<lambda>x. object_ok t x \<and> (close_succeeds os \<longrightarrow> handle_ok x)" for os :: "'w os" and t
proof unfold_locales
  fix x :: "'w client" assume "constructed t x \<and> trace (snd x) = []"
  then show "object_ok t x \<and> (close_succeeds os \<longrightarrow> handle_ok x)"
    using constructed_ok [of t x] constructed_handle [of t x] by (simp add: handle_ok_def)
next
  fix x y :: "'w client"
  assume s: "client_step os x y" and i: "object_ok t x \<and> (close_succeeds os \<longrightarrow> handle_ok x)"
  from s obtain op where r: "run_op os op x = Returns y" by (rule client_stepE)
  have "object_ok t y" using r i by (blast intro: run_op_ok)
  moreover have "buffer_ok (fst x)" using i by (simp add: object_ok_def)
  ultimately show "object_ok t y \<and> (close_succeeds os \<longrightarrow> handle_ok y)"
    using r i run_op_handle [of os op x y] by blast
qed

section \<open>Properties of the object's life\<close>

text \<open>
  C9. Of every client object that a program can reach from the constructor by any sequence of
  the public operations, whatever the system answers: the internal buffer is as long as its
  recorded size, the type is the one it was constructed with, and the error is an error or
  success, never the value reserved for results.
\<close>

theorem client_always_well_formed:
  assumes "(client_step os)\<^sup>*\<^sup>* (CActiveSocket t raw, e) (s, e')"
  shows "buffer_ok s \<and> GetSocketType s = t \<and> GetSocketError s \<noteq> SocketError"
  using client.always [OF assms, of t] by (auto simp: constructed_def object_ok_def)

definition demo_client :: cactive where
  "demo_client = CActiveSocket SocketTypeUdp (csocket.extend raw_socket (cactive.fields None))"

theorem client_always_well_formed_witness:
  "buffer_ok (fst (snd (Initialize scripted demo_client (start_env [ok 7]))))
   \<and> GetSocketType (fst (snd (Initialize scripted demo_client (start_env [ok 7])))) = SocketTypeUdp"
proof -
  let ?r = "snd (Initialize scripted demo_client (start_env [ok 7]))"
  have "client_step scripted (demo_client, start_env [ok 7]) ?r"
    by (rule client_step.operate [of _ "Inherited OpInitialize"]) simp
  then have "(client_step scripted)\<^sup>*\<^sup>* (demo_client, start_env [ok 7]) (fst ?r, snd ?r)" by simp
  from client_always_well_formed [OF this [unfolded demo_client_def]] show ?thesis
    by (simp add: demo_client_def)
qed

text \<open>
  C30. Of the operations of a client, a \<open>CActiveSocket\<close> whose buffer is as long as recorded, only
  \<open>Initialize\<close> and \<open>Close\<close> touch the descriptor: every other operation of the client that returns, \<open>Open\<close> and the
  inherited ones, leaves the handle as it was and calls neither \<open>socket\<close> nor \<open>close\<close>, whatever it does and
  however often its loops run. (Of the listening socket's operations \<open>Listen\<close> and \<open>BindMulticast\<close> close after a failure, and \<open>Accept\<close>
  makes a new descriptor for the client that it returns.)
\<close>

theorem only_Initialize_and_Close_touch_descriptor:
  assumes "run_op os op (s, e) = Returns (s', e')" and "op \<notin> {Inherited OpInitialize, Inherited OpClose}" and "buffer_ok s"
  shows "GetSocketDescriptor s' = GetSocketDescriptor s
    \<and> (\<exists>cs. trace e' = trace e @ cs \<and> \<not> list_ex life_call cs)"
  using run_op_calm [OF assms] by (simp add: GetSocketDescriptor_def calm_def)

theorem only_Initialize_and_Close_touch_descriptor_witness:
  "\<exists>s' e'. run_op scripted (Inherited OpSetNonblocking) (SetSocketHandle 7 demo_client, start_env [ok 0, ok 0]) = Returns (s', e')
     \<and> GetSocketDescriptor s' = 7"
proof -
  obtain s' e' where R: "run_op scripted (Inherited OpSetNonblocking) (SetSocketHandle 7 demo_client, start_env [ok 0, ok 0])
      = Returns (s', e')"
    by (cases "snd (SetNonblocking scripted (SetSocketHandle 7 demo_client) (start_env [ok 0, ok 0]))") simp
  have "buffer_ok (SetSocketHandle 7 demo_client)"
    by (simp add: SetSocketHandle_def demo_client_def CActiveSocket_def CSimpleSocket_def SetConnectTimeout_def Let_def)
  from only_Initialize_and_Close_touch_descriptor [OF R _ this] R show ?thesis
    by (auto simp: GetSocketDescriptor_def SetSocketHandle_def)
qed

text \<open>
  C10. On a system that always closes, no run of a client closes a descriptor twice: every
  \<open>close\<close> call comes after a \<open>socket\<close> call with no \<open>close\<close> in between.
\<close>

theorem no_double_close:
  assumes "close_succeeds os" and "(client_step os)\<^sup>*\<^sup>* (CActiveSocket t raw, e) (s, e')" and "trace e = []"
  shows "closes_open False (trace e')"
  using descriptor.always [OF assms(2), of t] assms(1,3) by (auto simp: constructed_def handle_ok_def)

text \<open>A system that gives out descriptor 5 and closes it.\<close>

definition tame_os :: "unit os" where
  "tame_os =
     \<lparr>kernel = (\<lambda>c w. (case c of Sys_socket d t p \<Rightarrow> ok 5 | _ \<Rightarrow> ok 0, w)),
      clock = (\<lambda>w. (timeval_zero, w)), inet_addr = (\<lambda>p. 0), inet_ntoa = (\<lambda>a. []), uninit = (\<lambda>i. 0)\<rparr>"

theorem no_double_close_witness:
  "let e = \<lparr>errno = 0, h_errno = 0, world = (), trace = []\<rparr>;
       (b, s1, e1) = Initialize tame_os demo_client e; (b2, s2, e2) = Close tame_os s1 e1
   in closes_open False (trace e2)"
proof -
  let ?e = "\<lparr>errno = 0, h_errno = 0, world = (), trace = []\<rparr> :: unit env"
  obtain b s1 e1 where 1: "Initialize tame_os demo_client ?e = (b, s1, e1)" by (metis prod_cases3)
  obtain b2 s2 e2 where 2: "Close tame_os s1 e1 = (b2, s2, e2)" by (metis prod_cases3)
  have "close_succeeds tame_os" by (simp add: close_succeeds_def tame_os_def ok_def)
  moreover have "(client_step tame_os)\<^sup>*\<^sup>* (demo_client, ?e) (s2, e2)"
  proof (rule rtranclp_trans)
    have "client_step tame_os (demo_client, ?e) (s1, e1)"
      by (rule client_step.operate [of _ "Inherited OpInitialize"]) (simp add: 1)
    then show "(client_step tame_os)\<^sup>*\<^sup>* (demo_client, ?e) (s1, e1)" ..
    have "client_step tame_os (s1, e1) (s2, e2)"
      by (rule client_step.operate [of _ "Inherited OpClose"]) (simp add: 2)
    then show "(client_step tame_os)\<^sup>*\<^sup>* (s1, e1) (s2, e2)" ..
  qed
  ultimately have "closes_open False (trace e2)"
    unfolding demo_client_def by (rule no_double_close) simp
  then show ?thesis by (simp add: 1 2 Let_def)
qed

text \<open>
  The documented bound of \<open>recvfrom\<close>: it stores at most the number of bytes asked for.
\<close>

definition recvfrom_bounded :: "'w os \<Rightarrow> bool" where
  "recvfrom_bounded os \<longleftrightarrow>
     (\<forall>fd n f w. length (data (fst (kernel os (Sys_recvfrom fd n f) w))) \<le> nat (sint n))"

lemma recvfrom_pass_safe:
  assumes "recvfrom_bounded os" and "m_nSocketType s = SocketTypeUdp" and "nat (sint n) \<le> length (snd (snd x))"
  shows "receive_body os n s x \<noteq> Faults u"
proof -
  obtain t e buf where x: "x = (t, e, buf)" by (cases x)
  have "length (data (fst (kernel os (Sys_recvfrom (m_socket t) n 0) (world e)))) \<le> length buf"
    using assms(1,3) order_trans unfolding recvfrom_bounded_def x snd_conv by blast
  then show ?thesis
    using assms(2)
    by (simp add: x receive_body_def recvfrom_attempt_def recvfrom_multicast_attempt_def Let_def
        split_beta fst_invoke store_at_0)
qed

text \<open>
  C6. On every datagram client that a program can reach, \<open>Receive\<close> into the internal buffer
  with a count that is not negative never writes outside its buffer: it returns or waits,
  however often it is interrupted.
\<close>

theorem reachable_Receive_is_safe:
  assumes "(client_step os)\<^sup>*\<^sup>* (CActiveSocket SocketTypeUdp raw, e) (s, e')"
    and "recvfrom_bounded os" and "0 \<le> sint n"
  shows "Receive os n None s e' \<noteq> Faults u"
proof (cases "IsSocketValid s")
  case False
  then show ?thesis by (simp add: Receive_def IsSocketValid_iff Let_def)
next
  case True
  have ok: "buffer_ok s" "m_nSocketType s = SocketTypeUdp"
    using client.always [OF assms(1), of SocketTypeUdp] by (auto simp: constructed_def object_ok_def GetSocketType_def)
  obtain s1 b where s1: "receive_begin os n None s = Returns s1" "m_pBuffer s1 = Some b" "length b = nat (sint n)"
    using receive_begin_internal [OF ok(1) assms(3), of os] by blast
  have "do_while (receive_body os n s) interrupted (receive_start os None s1 e') \<noteq> Faults u"
  proof (rule do_while_safe [where P = "\<lambda>x. nat (sint n) \<le> length (snd (snd x))"])
    show "nat (sint n) \<le> length (snd (snd (receive_start os None s1 e')))"
      using s1 by (simp add: receive_start_def work_buffer_def timer_start_eq)
    show "receive_body os n s x \<noteq> Faults u \<and>
        (\<forall>y. receive_body os n s x = Returns y \<longrightarrow> nat (sint n) \<le> length (snd (snd y)))"
      if "nat (sint n) \<le> length (snd (snd x))" for x
      using recvfrom_pass_safe [OF assms(2) ok(2) that] receive_pass_frame [of os n s x] that
      by (auto simp: receive_frame_def split_beta)
  qed
  then show ?thesis
    using Receive_loop [of s os n None e'] True ok(2) s1(1)
    by (cases "do_while (receive_body os n s) interrupted (receive_start os None s1 e')")
       (auto simp: receive_finish_def split_beta Let_def)
qed

theorem reachable_Receive_is_safe_witness:
  "Receive tame_os 4 None (fst (snd (Initialize tame_os demo_client \<lparr>errno = 0, h_errno = 0, world = (), trace = []\<rparr>)))
     \<lparr>errno = 0, h_errno = 0, world = (), trace = [Sys_socket 2 2 0]\<rparr> \<noteq> Faults PointerOutOfBounds"
proof -
  let ?e = "\<lparr>errno = 0, h_errno = 0, world = (), trace = []\<rparr> :: unit env"
  let ?e' = "\<lparr>errno = 0, h_errno = 0, world = (), trace = [Sys_socket 2 2 0]\<rparr> :: unit env"
  obtain b s1 e1 where 1: "Initialize tame_os demo_client ?e = (b, s1, e1)" by (metis prod_cases3)
  have "e1 = ?e'"
    using 1 by (auto simp: Initialize_def Let_def split_beta timer_start_def timer_end_def SetStartTime_def SetEndTime_def
        gettimeofday_def invoke_def tame_os_def ok_def set_errno_def demo_client_def CActiveSocket_def CSimpleSocket_def
        SetConnectTimeout_def Timer_Initialize_def)
  moreover have "client_step tame_os (demo_client, ?e) (s1, e1)"
    by (rule client_step.operate [of _ "Inherited OpInitialize"]) (simp add: 1)
  ultimately have step: "(client_step tame_os)\<^sup>*\<^sup>* (demo_client, ?e) (s1, ?e')" by auto
  have "recvfrom_bounded tame_os" by (simp add: recvfrom_bounded_def tame_os_def ok_def)
  from reachable_Receive_is_safe [OF step [unfolded demo_client_def] this, of 4] show ?thesis by (simp add: 1)
qed

end
