(* ===== verification/Listener_Lifecycle.thy ===== *)
theory Listener_Lifecycle imports Passive_Socket Socket_Lifecycle begin

text \<open>
  A listening object over its whole life: the operations of \<open>CPassiveSocket\<close>, with its own \<open>Send\<close>
  behind the inherited \<open>Flush\<close> and \<open>Writev\<close>, as a transition system, and what holds of every
  object that a program can reach from the constructor.
\<close>

section \<open>What each operation leaves alone\<close>

lemma steady_Passive_Send:
  assumes "Passive_Send os p n s e = Returns (k, y)"
  shows "steady (s, e) y"
proof (cases "m_nSocketType s = SocketTypeTcp")
  case True
  let ?s0 = "(SetSocketError SocketSuccess s)\<lparr>m_nBytesSent := 0\<rparr>"
  obtain j where "Send os p n ?s0 e = Returns (j, y)"
    using assms True by (cases y) (auto simp: Passive_Send_def SetSocketError_def obind_eq_Returns)
  then have "steady (?s0, e) y" by (rule steady_Send)
  then show ?thesis by (auto simp: steady_def SetSocketError_def)
next
  case False
  then show ?thesis
    using assms
    by (cases "m_nSocketType s")
       (auto simp: Passive_Send_def obind_eq_Returns read_buffer_def steady_unfold calm_call split: if_splits)
qed

interpretation passive_sender: steady_sender "Passive_Send os" for os :: "'w os"
  by unfold_locales (rule steady_Passive_Send)

lemma steady_accept_pass:
  assumes "accept_attempt os (p, s, e, x) = Returns (p', s', e', x')"
  shows "steady (s, e) (s', e')"
proof -
  have c: "calm e (snd (invoke os (Sys_accept (m_socket s)) (e\<lparr>errno := 0\<rparr>)))"
    by (rule calm_call) simp_all
  show ?thesis
    using assms c
    by (cases "addr (fst (invoke os (Sys_accept (m_socket s)) (e\<lparr>errno := 0\<rparr>)))")
       (auto simp: accept_attempt_def steady_unfold calm_call split: if_splits)
qed

text \<open>
  A handle is answered by a history of calls if it is an answer of the system to the last \<open>socket\<close>
  call of that history.
\<close>

definition opening_call :: "syscall \<Rightarrow> bool" where
  "opening_call c \<longleftrightarrow> (case c of Sys_socket d t p \<Rightarrow> True | _ \<Rightarrow> False)"

definition answered :: "'w os \<Rightarrow> SOCKET \<Rightarrow> syscall list \<Rightarrow> bool" where
  "answered os fd cs \<longleftrightarrow>
     (\<exists>d t p w before after. cs = before @ Sys_socket d t p # after \<and> \<not> list_ex opening_call after
        \<and> fd = i32 (ret (fst (kernel os (Sys_socket d t p) w))))"

definition opens_none :: "'w env \<Rightarrow> 'w env \<Rightarrow> bool" where
  "opens_none e e' \<longleftrightarrow> (\<exists>cs. trace e' = trace e @ cs \<and> \<not> list_ex opening_call cs)"

lemma opens_none_refl [simp]: "opens_none e e"
  by (simp add: opens_none_def)

lemma opens_none_trans: "opens_none e e1 \<Longrightarrow> opens_none e1 e2 \<Longrightarrow> opens_none e e2"
  by (force simp: opens_none_def)

lemma opens_none_calm: "calm e e' \<Longrightarrow> opens_none e e'"
proof -
  have "opening_call c \<Longrightarrow> life_call c" for c by (cases c) (simp_all add: opening_call_def)
  then show "calm e e' \<Longrightarrow> opens_none e e'" by (fastforce simp: calm_def opens_none_def list_ex_iff)
qed

lemma opens_none_Close: "opens_none e (snd (snd (Close os s e)))"
  by (simp add: Close_eq Let_def split_beta opens_none_def opening_call_def)

lemma answered_more:
  assumes "answered os fd (trace e)" and "opens_none e e'"
  shows "answered os fd (trace e')"
proof -
  obtain d t p w as bs where "trace e = as @ Sys_socket d t p # bs" "\<not> list_ex opening_call bs"
    "fd = i32 (ret (fst (kernel os (Sys_socket d t p) w)))" using assms(1) unfolding answered_def by blast
  moreover obtain cs where "trace e' = trace e @ cs" "\<not> list_ex opening_call cs" using assms(2) unfolding opens_none_def by blast
  ultimately show ?thesis unfolding answered_def
    by (intro exI [of _ d] exI [of _ t] exI [of _ p] exI [of _ w] exI [of _ as] exI [of _ "bs @ cs"]) simp
qed

definition handle_answered :: "'w os \<Rightarrow> 'a csocket_scheme \<times> 'w env \<Rightarrow> bool" where
  "handle_answered os x \<longleftrightarrow> m_socket (fst x) = -1 \<or> answered os (m_socket (fst x)) (trace (snd x))"

lemma handle_answered_more:
  assumes "handle_answered os (s, e)" and "m_socket s' \<in> {m_socket s, -1}" and "opens_none e e'"
  shows "handle_answered os (s', e')"
  using assms(1,2) answered_more [of os "m_socket s", OF _ assms(3)] by (auto simp: handle_answered_def)

lemma Initialize_answered: "handle_answered os (snd (Initialize os s e))"
proof -
  let ?c = "Sys_socket (m_nSocketDomain s) (socket_type_code (m_nSocketType s)) 0"
  have "trace (snd (snd (Initialize os s e))) = trace e @ ?c # []"
    "m_socket (fst (snd (Initialize os s e))) = i32 (ret (fst (kernel os ?c (snd (clock os (world e))))))"
    by (simp_all add: Initialize_def run_simps)
  then have "answered os (m_socket (fst (snd (Initialize os s e)))) (trace (snd (snd (Initialize os s e))))"
    unfolding answered_def by (metis list_ex_iff empty_iff list.set(1))
  then show ?thesis by (simp add: handle_answered_def)
qed

lemma Close_answered:
  assumes "handle_answered os (s, e)"
  shows "handle_answered os (snd (Close os s e))"
proof -
  have "m_socket (fst (snd (Close os s e))) \<in> {m_socket s, -1}"
    by (simp add: Close_eq Let_def split_beta TranslateSocketError_def SetSocketError_def)
  from handle_answered_more [OF assms this opens_none_Close] show ?thesis by (simp add: handle_answered_def)
qed

text \<open>
  \<open>Accept\<close>, whatever it meets, leaves the listening object alone, and calls \<open>socket\<close> never; on a system
  where an \<open>accept\<close> that succeeds sets no error it also opens and closes no descriptor by \<open>socket\<close> and
  \<open>close\<close>, since the client object that it deletes after a failure has none.
\<close>

lemma steady_Accept:
  assumes "Accept os raw s e = Returns (c, s', e')"
  shows "\<exists>e1. steady (s, e) (s', e1) \<and> opens_none e e' \<and> (accept_reports os \<longrightarrow> calm e e')"
proof (cases "m_nSocketType s = SocketTypeTcp")
  case False
  then show ?thesis using assms by (auto simp: Accept_def steady_unfold intro: exI [of _ e])
next
  case True
  let ?p0 = "CActiveSocket SocketTypeTcp raw"
  obtain s1 e1 where t: "timer_start os s e = (s1, e1)" by fastforce
  have st: "steady (s, e) (s1, e1)" using t by (auto simp: steady_unfold)
  have "m_socket ?p0 = -1" by (rule constructed_handle [of SocketTypeTcp "(?p0, e)", simplified]) (auto simp: constructed_def)
  then obtain p s2 e2 y where L: "do_while (accept_attempt os) accept_interrupted (?p0, s1, e1, SocketSuccess) = Returns (p, s2, e2, y)"
    and res: "(let (s3, e3) = timer_end os s2 e2 in
       if y \<noteq> SocketSuccess then (let (d, e4) = CActiveSocket_destroy os p e3 in Returns (None, s3, e4))
       else Returns (Some p, s3, e3)) = Returns (c, s', e')"
    and p0: "m_socket ?p0 = -1"
    using assms True by (auto simp: Accept_def t obind_eq_Returns)
  let ?Q = "\<lambda>(p, s', e', y). steady (s, e) (s', e') \<and> (accept_reports os \<longrightarrow> y = SocketSuccess \<or> m_socket p = -1)"
  have "?Q (p, s2, e2, y) \<and> \<not> accept_interrupted (p, s2, e2, y)"
  proof (rule do_while_rule [OF L, where P = "\<lambda>(p, s', e', y). steady (s, e) (s', e') \<and> (accept_reports os \<longrightarrow> m_socket p = -1)"])
    show "case (?p0, s1, e1, SocketSuccess) of (p, s', e', y) \<Rightarrow> steady (s, e) (s', e') \<and> (accept_reports os \<longrightarrow> m_socket p = -1)"
      using st p0 by simp
  next
    fix x z
    assume P: "case x of (p, s', e', y) \<Rightarrow> steady (s, e) (s', e') \<and> (accept_reports os \<longrightarrow> m_socket p = -1)"
      and a: "accept_attempt os x = Returns z"
    obtain p1 t1 f1 y1 where x: "x = (p1, t1, f1, y1)" by (cases x)
    obtain p2 t2 f2 y2 where z: "z = (p2, t2, f2, y2)" by (cases z)
    have "steady (s, e) (t2, f2)" using P steady_accept_pass [OF a [unfolded x z]] steady_trans by (auto simp: x)
    moreover have "y2 = SocketSuccess \<or> p2 = p1" if law: "accept_reports os"
    proof -
      let ?r = "fst (kernel os (Sys_accept (m_socket t1)) (world (f1\<lparr>errno := 0\<rparr>)))"
      show ?thesis
      proof (cases "ret ?r = -1")
        case True
        then show ?thesis using a by (auto simp: x z accept_attempt_def fst_invoke Let_def split_beta split: if_splits)
      next
        case False
        with reports_errors_errno [OF accept_reportsD [OF law]] have "set_errno ?r 0 = 0" by simp
        then show ?thesis
          using a by (auto simp: x z accept_attempt_def fst_invoke Let_def split_beta snd_invoke
              TranslateSocketError_def SetSocketError_def GetSocketError_def translate_errno_def split: if_splits)
      qed
    qed
    ultimately show "?Q z" using P by (auto simp: x z)
  next
    fix z assume "?Q z" "accept_interrupted z"
    then show "case z of (p, s', e', y) \<Rightarrow> steady (s, e) (s', e') \<and> (accept_reports os \<longrightarrow> m_socket p = -1)"
      by (cases z) (auto simp: accept_interrupted_def)
  qed
  then have Q: "steady (s, e) (s2, e2)" "accept_reports os \<Longrightarrow> y = SocketSuccess \<or> m_socket p = -1" by auto
  obtain s3 e3 where t3: "timer_end os s2 e2 = (s3, e3)" by fastforce
  have st3: "steady (s, e) (s3, e3)" using t3 Q(1) by (auto simp: steady_unfold)
  have "calm e e'" if "accept_reports os"
    using res Q(2) [OF that] st3
    by (auto simp: t3 steady_def CActiveSocket_destroy_def Close_invalid Let_def split_beta split: if_splits)
  moreover have "opens_none e e'"
  proof -
    have "opens_none e e3" using st3 opens_none_calm by (auto simp: steady_def)
    moreover have "e' = e3 \<or> e' = snd (snd (Close os p e3))"
      using res by (auto simp: t3 CActiveSocket_destroy_def Let_def split_beta split: if_splits)
    ultimately show ?thesis using opens_none_trans opens_none_Close by blast
  qed
  moreover have "s' = s3" using res by (auto simp: t3 Let_def split_beta split: if_splits)
  ultimately show ?thesis using st3 by blast
qed

text \<open>\<open>Listen\<close> and \<open>BindMulticast\<close> close the object after a failure.\<close>

lemma Listen_result:
  "\<exists>s4 e4. steady (s, e) (s4, e4) \<and>
     (snd (Listen os a n b s e) = (s4, e4)
      \<or> snd (Listen os a n b s e) = (SetSocketError (m_socketErrno s4) (fst (snd (Close os s4 e4))), snd (snd (Close os s4 e4)))
        \<and> m_socketErrno s4 \<noteq> SocketError)"
proof -
  obtain r1 e1 where 1: "setsockopt os (m_socket s) 1 2 (Opt_int 16) e = (r1, e1)" by fastforce
  obtain r2 e2 where 2: "setsockopt os (m_socket s) 6 1 (Opt_int 16) e1 = (r2, e2)" by fastforce
  obtain s2 e3 where 3: "timer_start os (s\<lparr>m_stServerSockaddr := bind_address os a n\<rparr>) e2 = (s2, e3)" by fastforce
  obtain r4 e4 where 4: "invoke os (Sys_bind (m_socket s2) (m_stServerSockaddr s2)) e3 = (r4, e4)" by fastforce
  define m where "m = (if i32 (ret r4) \<noteq> -1 then
               (if m_nSocketType s2 = SocketTypeTcp then
                  (let (r5, e5) = invoke os (Sys_listen (m_socket s2) b) e4
                   in if i32 (ret r5) \<noteq> error_code SocketError then (True, e5) else (False, e5))
                else (True, e4))
             else (False, e4))"
  obtain ok e5 where 5: "m = (ok, e5)" by fastforce
  obtain s3 e6 where 6: "timer_end os s2 e5 = (s3, e6)" by fastforce
  let ?s4 = "TranslateSocketError s3 e6"
  have c4: "calm e e4"
    using 1 2 3 4 calm_call [of e e "Sys_setsockopt (m_socket s) 1 2 (Opt_int 16)" os]
      calm_call [of e e1 "Sys_setsockopt (m_socket s) 6 1 (Opt_int 16)" os]
      calm_call [of e e3 "Sys_bind (m_socket s2) (m_stServerSockaddr s2)" os]
    by (auto simp: setsockopt_def timer_start_eq Let_def split_beta)
  have "calm e e5"
    using 5 c4 by (auto simp: m_def Let_def split_beta calm_call split: if_splits)
  then have st: "steady (s, e) (?s4, e6)"
    using 3 6 by (auto simp: steady_unfold)
  have "snd (Listen os a n b s e) = (if \<not> ok then (SetSocketError (m_socketErrno ?s4) (fst (snd (Close os ?s4 e6))), snd (snd (Close os ?s4 e6)))
      else (?s4, e6))"
    by (cases "Close os ?s4 e6") (simp add: Listen_def 1 2 3 4 5 [unfolded m_def] 6 split del: if_split, simp add: Let_def GetSocketError_def)
  moreover have "m_socketErrno ?s4 \<noteq> SocketError" by (simp add: TranslateSocketError_def SetSocketError_def)
  ultimately show ?thesis using st by (cases ok) auto
qed

lemma BindMulticast_result:
  "\<exists>s4 e4. steady (s, e) (s4, e4) \<and>
     (snd (BindMulticast os i g n s e) = (s4, e4) \<or> snd (BindMulticast os i g n s e) = snd (Close os s4 e4))"
proof -
  let ?s1 = "s\<lparr>m_stMulticastGroup := bind_address os i n\<rparr>"
  obtain r e1 where 1: "invoke os (Sys_bind (m_socket s) (bind_address os i n)) e = (r, e1)" by fastforce
  define m where "m = (if i32 (ret r) = 0 then
               (let s1' = ?s1\<lparr>m_stMulticastRequest :=
                              \<lparr>imr_multiaddr = inet_addr os g, imr_interface = sin_addr (m_stMulticastGroup ?s1)\<rparr>\<rparr>;
                    (r1, e1') = setsockopt os (m_socket s1') 0 35 (Opt_ip_mreq (m_stMulticastRequest s1')) e1;
                    b = (r1 = error_code SocketSuccess);
                    (s1'', e1'') = timer_end os s1' e1'
                in (b, s1'', e1''))
             else (False, ?s1, e1))"
  obtain ok s2 e2 where 2: "m = (ok, s2, e2)" by (metis prod_cases3)
  obtain s3 e3 where 3: "timer_start os s2 e2 = (s3, e3)" by fastforce
  let ?s4 = "TranslateSocketError s3 e3"
  have c: "calm e e1" using 1 calm_call [of e e "Sys_bind (m_socket s) (bind_address os i n)" os] by simp
  have "steady (s, e) (s2, e2)"
    using 2 c by (auto simp: m_def steady_unfold calm_call split: if_splits)
  then have st: "steady (s, e) (?s4, e3)" using 3 by (auto simp: steady_unfold)
  have "BindMulticast os i g n s e = (case m of (bRetVal, s2, e2) \<Rightarrow> (case timer_start os s2 e2 of (s3, e3) \<Rightarrow>
      let s4 = TranslateSocketError s3 e3
      in if bRetVal = False then (let (c, s5, e5) = Close os s4 e3 in (bRetVal, s5, e5)) else (bRetVal, s4, e3)))"
    unfolding m_def by (simp add: BindMulticast_def 1 Let_def split del: if_split)
  then have "snd (BindMulticast os i g n s e) = (if ok then (?s4, e3) else snd (Close os ?s4 e3))"
    by (cases "Close os ?s4 e3") (simp add: 2 3 Let_def)
  with st show ?thesis by (cases ok) auto
qed

section \<open>The listener as a transition system\<close>

text \<open>
  What \<open>CPassiveSocket\<close> adds, and what it inherits, with its own \<open>Send\<close>. The raw memory of an
  accepted client is an argument of \<open>OpAccept\<close>; the client itself is not part of the state.
\<close>

datatype listener_op =
    OpListen "string option" uint16 int32
  | OpBindMulticast "string option" string uint16
  | OpAccept cactive
  | Passive socket_op

type_synonym 'w listener = "cpassive \<times> 'w env"

fun run_listener :: "'w os \<Rightarrow> listener_op \<Rightarrow> 'w listener \<Rightarrow> 'w listener outcome" where
  "run_listener os (OpListen a n b) (s, e) = Returns (snd (Listen os a n b s e))"
| "run_listener os (OpBindMulticast i g n) (s, e) = Returns (snd (BindMulticast os i g n s e))"
| "run_listener os (OpAccept raw) (s, e) = obind (Accept os raw s e) (\<lambda>(c, x). Returns x)"
| "run_listener os (Passive op) x = run_base os (Passive_Send os) op x"

inductive listener_step :: "'w os \<Rightarrow> 'w listener \<Rightarrow> 'w listener \<Rightarrow> bool" for os :: "'w os" where
  listens: "run_listener os op x = Returns y \<Longrightarrow> listener_step os x y"

inductive_cases listener_stepE: "listener_step os x y"

lemma Close_ok: "object_ok t (s, e) \<Longrightarrow> object_ok t (snd (Close os s e))"
  by (simp add: object_ok_def GetSocketType_def GetSocketError_def)

lemma object_ok_error: "object_ok t (s, e) \<Longrightarrow> x \<noteq> SocketError \<Longrightarrow> object_ok t (SetSocketError x s, e')"
  using buffer_ok_cong [of "SetSocketError x s" s]
  by (simp add: object_ok_def GetSocketType_def GetSocketError_def SetSocketError_def)

lemma run_listener_ok:
  assumes "run_listener os op x = Returns y" and "object_ok t x"
  shows "object_ok t y"
proof -
  obtain s e where x: "x = (s, e)" by (cases x)
  show ?thesis
  proof (cases op)
    case (OpListen a n b)
    obtain s4 e4 where L: "steady (s, e) (s4, e4)" "y = (s4, e4) \<or> y = (SetSocketError (m_socketErrno s4) (fst (snd (Close os s4 e4))), snd (snd (Close os s4 e4)))
        \<and> m_socketErrno s4 \<noteq> SocketError"
      using Listen_result [of s e os a n b] assms(1) by (auto simp: x OpListen)
    have "object_ok t (s4, e4)" using steady_ok [OF L(1)] assms(2) by (simp add: x)
    then show ?thesis using L(2) Close_ok [of t s4 e4 os] object_ok_error [of t "fst (snd (Close os s4 e4))" "snd (snd (Close os s4 e4))"] by auto
  next
    case (OpBindMulticast i g n)
    obtain s4 e4 where L: "steady (s, e) (s4, e4)" "y = (s4, e4) \<or> y = snd (Close os s4 e4)"
      using BindMulticast_result [of s e os i g n] assms(1) by (auto simp: x OpBindMulticast)
    have "object_ok t (s4, e4)" using steady_ok [OF L(1)] assms(2) by (simp add: x)
    then show ?thesis using L(2) Close_ok [of t s4 e4 os] by auto
  next
    case (OpAccept raw)
    obtain c s' e' where A: "Accept os raw s e = Returns (c, s', e')" "y = (s', e')"
      using assms(1) by (auto simp: x OpAccept obind_eq_Returns)
    obtain e1 where "steady (s, e) (s', e1)" using steady_Accept [OF A(1)] by blast
    from steady_ok [OF this] assms(2) show ?thesis by (simp add: x A(2) object_ok_def)
  next
    case (Passive b)
    then show ?thesis using assms passive_sender.run_base_ok [of os os b x y t] by simp
  qed
qed

lemma handle_ok_error: "handle_ok (SetSocketError x s, e) = handle_ok (s, e)"
  by (simp add: handle_ok_def SetSocketError_def)

lemma run_listener_handle:
  assumes "close_succeeds os" and "accept_reports os" and "run_listener os op x = Returns y"
    and "handle_ok x" and "buffer_ok (fst x)"
  shows "handle_ok y"
proof -
  obtain s e where x: "x = (s, e)" by (cases x)
  have steady_handle: "handle_ok (s', e')" if "steady (s, e) (s', e')" for s' e'
    using that assms(4) calm_handle [of e e' s' s] by (simp add: x steady_def)
  show ?thesis
  proof (cases op)
    case (OpListen a n b)
    obtain s4 e4 where L: "steady (s, e) (s4, e4)" "y = (s4, e4) \<or> y = (SetSocketError (m_socketErrno s4) (fst (snd (Close os s4 e4))), snd (snd (Close os s4 e4)))"
      using Listen_result [of s e os a n b] assms(3) by (auto simp: x OpListen)
    then show ?thesis using steady_handle [OF L(1)] Close_handle [OF assms(1), of s4 e4] by (auto simp: handle_ok_error)
  next
    case (OpBindMulticast i g n)
    obtain s4 e4 where L: "steady (s, e) (s4, e4)" "y = (s4, e4) \<or> y = snd (Close os s4 e4)"
      using BindMulticast_result [of s e os i g n] assms(3) by (auto simp: x OpBindMulticast)
    then show ?thesis using steady_handle [OF L(1)] Close_handle [OF assms(1), of s4 e4] by auto
  next
    case (OpAccept raw)
    obtain c s' e' where A: "Accept os raw s e = Returns (c, s', e')" "y = (s', e')"
      using assms(3) by (auto simp: x OpAccept obind_eq_Returns)
    obtain e1 where "steady (s, e) (s', e1)" "calm e e'" using steady_Accept [OF A(1)] assms(2) by blast
    then show ?thesis using assms(4) calm_handle [of e e' s' s] by (simp add: x A(2) steady_def)
  next
    case (Passive b)
    then show ?thesis using assms passive_sender.run_base_handle [of os os b x y] by simp
  qed
qed

text \<open>The handle comes from the system's \<open>socket\<close>, whatever happens to the object.\<close>

lemma run_listener_answered:
  assumes "run_listener os op x = Returns y" and "handle_answered os x" and "buffer_ok (fst x)"
  shows "handle_answered os y"
proof -
  obtain s e where x: "x = (s, e)" by (cases x)
  have steady_answered: "handle_answered os (s', e')" if "steady (s, e) (s', e1)" "opens_none e e'" for s' e1 e'
    using that assms(2) handle_answered_more [of os s e s' e'] by (simp add: x steady_def)
  have closed: "handle_answered os (s4, e4) \<Longrightarrow> handle_answered os (SetSocketError c (fst (snd (Close os s4 e4))), snd (snd (Close os s4 e4)))"
    for s4 e4 c using Close_answered [of os s4 e4] by (simp add: handle_answered_def SetSocketError_def)
  show ?thesis
  proof (cases op)
    case (OpListen a n b)
    obtain s4 e4 where L: "steady (s, e) (s4, e4)" "y = (s4, e4) \<or> y = (SetSocketError (m_socketErrno s4) (fst (snd (Close os s4 e4))), snd (snd (Close os s4 e4)))"
      using Listen_result [of s e os a n b] assms(1) by (auto simp: x OpListen)
    have "handle_answered os (s4, e4)" using L(1) by (intro steady_answered [OF L(1)] opens_none_calm) (simp add: steady_def)
    then show ?thesis using L(2) closed by blast
  next
    case (OpBindMulticast i g n)
    obtain s4 e4 where L: "steady (s, e) (s4, e4)" "y = (s4, e4) \<or> y = snd (Close os s4 e4)"
      using BindMulticast_result [of s e os i g n] assms(1) by (auto simp: x OpBindMulticast)
    have "handle_answered os (s4, e4)" using L(1) by (intro steady_answered [OF L(1)] opens_none_calm) (simp add: steady_def)
    then show ?thesis using L(2) Close_answered by blast
  next
    case (OpAccept raw)
    obtain c s' e' where A: "Accept os raw s e = Returns (c, s', e')" "y = (s', e')"
      using assms(1) by (auto simp: x OpAccept obind_eq_Returns)
    obtain e1 where "steady (s, e) (s', e1)" "opens_none e e'" using steady_Accept [OF A(1)] by blast
    then show ?thesis unfolding A(2) by (rule steady_answered)
  next
    case (Passive b)
    consider "b = OpInitialize" | "b = OpClose" | "b \<notin> {OpInitialize, OpClose}" by (cases b) auto
    then show ?thesis
    proof cases
      case 1
      then have "y = snd (Initialize os s e)" using assms(1) by (simp add: x Passive)
      then show ?thesis using Initialize_answered by simp
    next
      case 2
      then have "y = snd (Close os s e)" using assms(1) by (simp add: x Passive)
      then show ?thesis using Close_answered assms(2) by (simp add: x)
    next
      case 3
      obtain s' e' where y: "y = (s', e')" by (cases y)
      have "m_socket s' = m_socket s \<and> calm e e'"
        using passive_sender.run_base_calm [of os os b s e s' e'] 3 assms(1,3) by (simp add: x y Passive)
      then show ?thesis using handle_answered_more [of os s e s' e'] opens_none_calm [of e e'] assms(2) by (simp add: x y)
    qed
  qed
qed

definition listener_start :: "CSocketType \<Rightarrow> 'w listener \<Rightarrow> bool" where
  "listener_start t x \<longleftrightarrow> (\<exists>raw. fst x = CPassiveSocket t raw)"

lemma listener_start_ok: "listener_start t x \<Longrightarrow> object_ok t x \<and> handle_answered os x \<and> (trace (snd x) = [] \<longrightarrow> handle_ok x)"
  by (cases t) (auto simp: listener_start_def object_ok_def handle_ok_def handle_answered_def CPassiveSocket_def CSimpleSocket_def
      SetConnectTimeout_def GetSocketType_def GetSocketError_def buffer_ok_def Let_def)

interpretation listener: invariant_system "listener_start t" "listener_step os"
  "\<lambda>x. object_ok t x \<and> handle_answered os x" for os :: "'w os" and t
proof unfold_locales
  fix x :: "'w listener" assume "listener_start t x"
  then show "object_ok t x \<and> handle_answered os x" using listener_start_ok by blast
next
  fix x y :: "'w listener"
  assume s: "listener_step os x y" and i: "object_ok t x \<and> handle_answered os x"
  from s obtain op where r: "run_listener os op x = Returns y" by (rule listener_stepE)
  have "buffer_ok (fst x)" using i by (simp add: object_ok_def)
  then show "object_ok t y \<and> handle_answered os y"
    using i run_listener_ok [OF r] run_listener_answered [OF r] by blast
qed

text \<open>With the two assumptions on the system, and a history that begins with the object.\<close>

interpretation closing_listener: invariant_system
  "\<lambda>x. listener_start t x \<and> trace (snd x) = [] \<and> close_succeeds os \<and> accept_reports os" "listener_step os"
  "\<lambda>x. object_ok t x \<and> handle_ok x \<and> close_succeeds os \<and> accept_reports os" for os :: "'w os" and t
proof unfold_locales
  fix x :: "'w listener" assume "listener_start t x \<and> trace (snd x) = [] \<and> close_succeeds os \<and> accept_reports os"
  then show "object_ok t x \<and> handle_ok x \<and> close_succeeds os \<and> accept_reports os" using listener_start_ok by blast
next
  fix x y :: "'w listener"
  assume s: "listener_step os x y" and i: "object_ok t x \<and> handle_ok x \<and> close_succeeds os \<and> accept_reports os"
  from s obtain op where r: "run_listener os op x = Returns y" by (rule listener_stepE)
  have "buffer_ok (fst x)" using i by (simp add: object_ok_def)
  then show "object_ok t y \<and> handle_ok y \<and> close_succeeds os \<and> accept_reports os"
    using i run_listener_ok [OF r] run_listener_handle [OF _ _ r] by blast
qed

section \<open>Properties of the listener's life\<close>

text \<open>
  C11. Of every listening object that a program can reach from the constructor by any sequence of its
  operations, failed \<open>Listen\<close> and \<open>BindMulticast\<close> calls, which close the object, among them, and
  whatever the system answers: the buffer is as long as recorded, the type is the constructed one,
  the error is an error or success, and a valid handle is an answer of the system to the last \<open>socket\<close>
  call made. When the history begins with the object, on a system that always closes and whose \<open>accept\<close> stores an error
  in \<open>errno\<close> when it fails and only then, moreover, every \<open>close\<close> comes after a \<open>socket\<close> call that no
  \<open>close\<close> has followed yet, so that no descriptor of the object is closed twice, and while the handle is
  valid no \<open>close\<close> has followed the last \<open>socket\<close> call.
\<close>

theorem listener_always_well_formed:
  assumes "(listener_step os)\<^sup>*\<^sup>* (CPassiveSocket t raw, e) (s, e')"
  shows "buffer_ok s \<and> GetSocketType s = t \<and> GetSocketError s \<noteq> SocketError
    \<and> (IsSocketValid s \<longrightarrow> answered os (GetSocketDescriptor s) (trace e'))
    \<and> (trace e = [] \<and> close_succeeds os \<and> accept_reports os \<longrightarrow>
         closes_open False (trace e') \<and> (IsSocketValid s \<longrightarrow> is_open False (trace e')))"
proof -
  have start: "listener_start t (CPassiveSocket t raw, e)" by (auto simp: listener_start_def)
  have "closes_open False (trace e') \<and> (IsSocketValid s \<longrightarrow> is_open False (trace e'))"
    if "trace e = []" "close_succeeds os" "accept_reports os"
    using closing_listener.always [OF assms(1), of t] start that by (auto simp: handle_ok_def IsSocketValid_iff)
  with listener.always [OF assms(1) start] show ?thesis
    by (auto simp: object_ok_def handle_answered_def IsSocketValid_iff GetSocketDescriptor_def)
qed

text \<open>A system on which every port is taken.\<close>

definition taken_os :: "unit os" where
  "taken_os =
     \<lparr>kernel = (\<lambda>c w. (case c of Sys_socket d t p \<Rightarrow> ok 5 | Sys_bind fd a \<Rightarrow> fail EADDRINUSE | _ \<Rightarrow> ok 0, w)),
      clock = (\<lambda>w. (timeval_zero, w)), inet_addr = (\<lambda>p. 0), inet_ntoa = (\<lambda>a. []), uninit = (\<lambda>i. 0)\<rparr>"

definition raw_listener :: cpassive where
  "raw_listener = csocket.extend raw_socket (cpassive.fields \<lparr>imr_multiaddr = 0, imr_interface = 0\<rparr>)"

theorem listener_always_well_formed_witness:
  "let e = \<lparr>errno = 0, h_errno = 0, world = (), trace = []\<rparr>;
       (b, s1, e1) = Initialize taken_os (CPassiveSocket SocketTypeTcp raw_listener) e;
       (b2, s2, e2) = Listen taken_os None 80 5 s1 e1;
       (b3, s3, e3) = Close taken_os s2 e2
   in closes_open False (trace e3) \<and> GetSocketType s3 = SocketTypeTcp \<and> (IsSocketValid s1 \<longrightarrow> answered taken_os 5 (trace e1))"
proof -
  let ?e = "\<lparr>errno = 0, h_errno = 0, world = (), trace = []\<rparr> :: unit env"
  let ?s = "CPassiveSocket SocketTypeTcp raw_listener"
  obtain b s1 e1 where 1: "Initialize taken_os ?s ?e = (b, s1, e1)" by (metis prod_cases3)
  obtain b2 s2 e2 where 2: "Listen taken_os None 80 5 s1 e1 = (b2, s2, e2)" by (metis prod_cases3)
  obtain b3 s3 e3 where 3: "Close taken_os s2 e2 = (b3, s3, e3)" by (metis prod_cases3)
  have law: "close_succeeds taken_os" "accept_reports taken_os"
    by (auto simp: close_succeeds_def accept_reports_def reports_errors_def taken_os_def split: syscall.splits)
  have init: "listener_step taken_os (?s, ?e) (s1, e1)"
    by (rule listener_step.listens [of _ "Passive OpInitialize"]) (simp add: 1)
  moreover have "listener_step taken_os (s1, e1) (s2, e2)"
    by (rule listener_step.listens [of _ "OpListen None 80 5"]) (simp add: 2)
  moreover have "listener_step taken_os (s2, e2) (s3, e3)"
    by (rule listener_step.listens [of _ "Passive OpClose"]) (simp add: 3)
  ultimately have "(listener_step taken_os)\<^sup>*\<^sup>* (?s, ?e) (s3, e3)"
    by (meson rtranclp.rtrancl_into_rtrancl rtranclp.rtrancl_refl)
  then have s3: "closes_open False (trace e3)" "GetSocketType s3 = SocketTypeTcp"
    using listener_always_well_formed [of taken_os SocketTypeTcp raw_listener ?e s3 e3] law by simp_all
  have "GetSocketDescriptor s1 = 5"
    using 1 by (auto simp: GetSocketDescriptor_def Initialize_def run_simps taken_os_def)
  then have "IsSocketValid s1 \<longrightarrow> answered taken_os 5 (trace e1)"
    using listener_always_well_formed [of taken_os SocketTypeTcp raw_listener ?e s1 e1] r_into_rtranclp [of "listener_step taken_os", OF init]
    by auto
  with s3 show ?thesis by (simp add: 1 2 3 Let_def)
qed

end
