(* ===== verification/Example_Programs.thy ===== *)
theory Example_Programs imports Listener_Lifecycle begin

text \<open>
  The example programs of the repository, which compose the two classes: the echo server,
  the day-time client and the asynchronous receiver. Their printing and their \<open>sleep\<close> calls
  are left out; \<open>raw\<close> arguments are the memory that objects are constructed in.
\<close>

abbreviation (input) MAX_PACKET :: int32 where "MAX_PACKET \<equiv> 4096"

text \<open>An \<open>int32\<close> argument passed as a \<open>size_t\<close>.\<close>

definition to_size :: "int32 \<Rightarrow> nat" where
  "to_size n = unat (scast n :: 64 word)"

section \<open>EchoServer\<close>

text \<open>What the server does with a client that \<open>Accept\<close> returned, and one pass of its loop.\<close>

definition serve_client :: "'w os \<Rightarrow> cactive \<Rightarrow> 'w env \<Rightarrow> 'w env outcome" where
  "serve_client os pClient e =
     obind (Receive os MAX_PACKET None pClient e) (\<lambda>(n, b, p1, e1).
     obind
       (if n \<noteq> 0 then
          obind (Send os (GetData p1) (to_size (GetBytesReceived p1)) p1 e1) (\<lambda>(k, p2, e2).
            let (c, p3, e3) = Close os p2 e2 in Returns (p3, e3))
        else Returns (p1, e1))
       (\<lambda>(p4, e4). Returns (snd (CActiveSocket_destroy os p4 e4))))"

definition echo_pass ::
  "'w os \<Rightarrow> cactive \<Rightarrow> cpassive \<times> 'w env \<Rightarrow> (cpassive \<times> 'w env) outcome" where
  "echo_pass os raw = (\<lambda>(s, e).
     obind (Accept os raw s e) (\<lambda>(pClient, s1, e1).
       case pClient of
         None \<Rightarrow> Returns (s1, e1)
       | Some p \<Rightarrow> obind (serve_client os p e1) (\<lambda>e2. Returns (s1, e2))))"

definition EchoServer :: "'w os \<Rightarrow> cpassive \<Rightarrow> cactive \<Rightarrow> 'w env \<Rightarrow> (int32 \<times> 'w env) outcome" where
  "EchoServer os raw_server raw e =
     (let s = CPassiveSocket SocketTypeTcp raw_server;
          (b, s1, e1) = Initialize os s e;
          (listening, s2, e2) = Listen os (Some ''127.0.0.1'') 6789 30000 s1 e1
      in if \<not> listening then
           (let (s3, e3) = CPassiveSocket_destroy os s2 e2 in Returns (1, e3))
         else
           obind (if IsSocketValid s2
                  then do_while (echo_pass os raw) (\<lambda>(s, e). IsSocketValid s) (s2, e2)
                  else Returns (s2, e2))
             (\<lambda>(s3, e3).
                let (c, s4, e4) = Close os s3 e3;
                    (s5, e5) = CPassiveSocket_destroy os s4 e4
                in Returns (1, e5)))"

section \<open>QueryDayTime\<close>

text \<open>The result is the exit code and the text printed, if it comes to that.\<close>

definition QueryDayTime ::
  "'w os \<Rightarrow> cactive \<Rightarrow> 'w env \<Rightarrow> (int32 \<times> byte list option \<times> 'w env) outcome" where
  "QueryDayTime os raw e =
     (let s = CActiveSocket SocketTypeTcp raw;
          time = replicate 50 0;
          (b, s1, e1) = Initialize os s e
      in obind (Open os (Some ''time-C.timefreq.bldrdoc.gov'') 13 s1 e1) (\<lambda>(opened, s2, e2).
         obind
           (if opened then
              obind (Send os (Some [10, 0]) 1 s2 e2) (\<lambda>(k, s3, e3).
                if k \<noteq> 0 then
                  obind (Receive os 49 None s3 e3) (\<lambda>(n, b', s4, e4).
                  obind (case GetData s4 of
                           None \<Rightarrow> Faults NullCopy
                         | Some d \<Rightarrow> obind (read_buffer d 49) (store_at time 0)) (\<lambda>time1.
                    let (c, s5, e5) = Close os s4 e4 in Returns (Some time1, s5, e5)))
                else Returns (None, s3, e3))
            else Returns (None, s2, e2))
           (\<lambda>(printed, s6, e6).
              let (s7, e7) = CActiveSocket_destroy os s6 e6 in Returns (1, printed, e7))))"

section \<open>RecvAsync\<close>

text \<open>\<open>"Test Packet"\<close>.\<close>

definition TEST_PACKET :: "byte list" where
  "TEST_PACKET = [84, 101, 115, 116, 32, 80, 97, 99, 107, 101, 116]"

record thread_data =
  pszServerAddr :: "string option"
  nPort :: uint16 \<comment> \<open>a \<open>short int\<close>, converted where it is passed on\<close>
  nNumBytesToReceive :: int32
  nTotalPayloadSize :: int32

text \<open>What the main thread hands to the server thread: one byte at a time, the whole packet.\<close>

definition thData :: thread_data where
  "thData =
     \<lparr>pszServerAddr = Some ''127.0.0.1'', nPort = 6789, nNumBytesToReceive = 1,
      nTotalPayloadSize = i32 (int (length TEST_PACKET))\<rparr>"

text \<open>An \<open>int\<close> addition, which must not overflow.\<close>

definition int_add :: "int32 \<Rightarrow> int32 \<Rightarrow> int32 outcome" where
  "int_add a b =
     (if - (2 ^ 31) \<le> sint a + sint b \<and> sint a + sint b < 2 ^ 31 then Returns (a + b)
      else Faults SignedOverflow)"

text \<open>A pass of the server thread's loop, over the client, the environment and the count.\<close>

definition async_echo_pass ::
  "'w os \<Rightarrow> int32 \<Rightarrow> cactive \<times> 'w env \<times> int32 \<Rightarrow> (cactive \<times> 'w env \<times> int32) outcome" where
  "async_echo_pass os nNum = (\<lambda>(p, e, nBytesReceived).
     obind (Receive os nNum None p e) (\<lambda>(n, b, p1, e1).
     obind (int_add nBytesReceived n) (\<lambda>nBytesReceived1.
       if nBytesReceived1 \<noteq> 0 then
         obind (Send os (GetData p1) (to_size (GetBytesReceived p1)) p1 e1) (\<lambda>(k, p2, e2).
           Returns (p2, e2, nBytesReceived1))
       else Returns (p1, e1, nBytesReceived1))))"

definition CreateTCPEchoServer ::
  "'w os \<Rightarrow> cpassive \<Rightarrow> cactive \<Rightarrow> thread_data \<Rightarrow> 'w env \<Rightarrow> 'w env outcome" where
  "CreateTCPEchoServer os raw_server raw pData e =
     (let s = CPassiveSocket SocketTypeTcp raw_server;
          (b, s1, e1) = Initialize os s e;
          (l, s2, e2) = Listen os (pszServerAddr pData) (nPort pData) 30000 s1 e1
      in obind (Accept os raw s2 e2) (\<lambda>(pClient, s3, e3).
         obind
           (case pClient of
              None \<Rightarrow> Returns e3
            | Some p \<Rightarrow>
                obind
                  (if 0 \<noteq> nTotalPayloadSize pData
                   then do_while (async_echo_pass os (nNumBytesToReceive pData))
                          (\<lambda>(p, e, n). n \<noteq> nTotalPayloadSize pData) (p, e3, 0)
                   else Returns (p, e3, 0))
                  (\<lambda>(p', e', n). Returns (snd (CActiveSocket_destroy os p' e'))))
           (\<lambda>e4. let (c, s5, e5) = Close os s3 e4; (s6, e6) = CPassiveSocket_destroy os s5 e5
                 in Returns e6)))"

text \<open>
  A pass of the client's loop: the packets received are copied into \<open>result[1024]\<close>.
\<close>

definition async_client_pass ::
  "'w os \<Rightarrow> cactive \<times> 'w env \<times> int32 \<Rightarrow> (cactive \<times> 'w env \<times> int32) outcome" where
  "async_client_pass os = (\<lambda>(s, e, bytesReceived).
     obind (Receive os MAX_PACKET None s e) (\<lambda>(numBytes, b, s1, e1).
       if 0 < sint numBytes then
         obind (int_add bytesReceived numBytes) (\<lambda>bytesReceived1.
         obind (case GetData s1 of
                  None \<Rightarrow> Faults NullCopy
                | Some d \<Rightarrow> read_buffer d (nat (sint numBytes))) (\<lambda>packet.
           if 1024 < length packet then Faults StackOverrun
           else Returns (s1, e1, bytesReceived1)))
       else Returns (s1, e1, bytesReceived)))"

text \<open>The program's main thread, from the construction of its client on.\<close>

definition RecvAsync_client :: "'w os \<Rightarrow> cactive \<Rightarrow> 'w env \<Rightarrow> 'w env outcome" where
  "RecvAsync_client os raw e =
     (let client = CActiveSocket SocketTypeTcp raw;
          (b, s1, e1) = Initialize os client e;
          (b2, s2, e2) = SetNonblocking os s1 e1
      in obind (Open os (Some ''127.0.0.1'') 6789 s2 e2) (\<lambda>(opened, s3, e3).
         obind
           (if opened then
              obind (Send os (Some (TEST_PACKET @ [0])) (length TEST_PACKET) s3 e3) (\<lambda>(k, s4, e4).
                if k \<noteq> 0 then
                  obind (Select_forever os s4 e4) (\<lambda>(ready, s5, e5).
                  obind (do_while (async_client_pass os)
                           (\<lambda>(s, e, n). sint n \<noteq> int (length TEST_PACKET)) (s5, e5, 0))
                    (\<lambda>(s6, e6, n). Returns (s6, e6)))
                else Returns (s4, e4))
            else Returns (s3, e3))
           (\<lambda>(s7, e7). Returns (snd (CActiveSocket_destroy os s7 e7)))))"

section \<open>Properties of the example programs\<close>

lemma to_size_of_nat:
  assumes "n < 2 ^ 31"
  shows "to_size (i32 (int n)) = n"
proof -
  have s: "sint (i32 (int n)) = int n" by (rule sint_i32) (use assms in simp_all)
  have "scast (i32 (int n)) = (word_of_int (sint (i32 (int n))) :: 64 word)" by (rule scast_eq)
  also have "\<dots> = word_of_int (int n)" by (simp only: s)
  finally have "to_size (i32 (int n)) = unat (word_of_int (int n) :: 64 word)" by (simp add: to_size_def)
  also have "\<dots> = n" using assms by (simp add: unat_of_nat take_bit_nat_eq_self)
  finally show ?thesis .
qed

lemma serve_client_echoes:
  assumes "IsSocketValid p" and "m_nSocketType p = SocketTypeTcp" and "buffer_ok p" and "errno e \<noteq> EINTR"
    and "kernel os (Sys_recv (m_socket p) MAX_PACKET (m_nFlags p)) (snd (clock os (world e))) = (r, w)"
    and "ret r = int (length (data r))" and "err r = None" and "data r \<noteq> []" and "length (data r) \<le> 4096"
    and "takes_all os (m_socket p)" and "close_succeeds os"
  shows "\<exists>e'. serve_client os p e = Returns e'
     \<and> trace e' = trace e @ [Sys_recv (m_socket p) MAX_PACKET (m_nFlags p),
                             Sys_send (m_socket p) (data r) 0, Sys_close (m_socket p)]"
proof -
  let ?fd = "m_socket p" and ?n = "length (data r)"
  have call: "receive_call p 4096 = Sys_recv ?fd 4096 (m_nFlags p)"
    using assms(2) by (simp add: receive_call_def)
  have no_intr: "set_errno r (errno e) = errno e" using assms(7) by (simp add: set_errno_def)
  have n: "sint (i32 (int ?n)) = int ?n" by (rule sint_i32) (use assms(9) in simp_all)
  have nz: "i32 (int ?n) \<noteq> 0" "i32 (int ?n) \<noteq> -1"
  proof -
    have "sint (i32 (int ?n)) \<noteq> sint (0 :: int32)" "sint (i32 (int ?n)) \<noteq> sint (-1 :: int32)"
      unfolding n using assms(8) by simp_all
    then show "i32 (int ?n) \<noteq> 0" "i32 (int ?n) \<noteq> -1" by metis+
  qed
  have intr: "set_errno r (errno e) \<noteq> EINTR" using assms(4) no_intr by simp
  have ty: "m_nSocketType p \<in> {SocketTypeTcp, SocketTypeUdp}" using assms(2) by simp
  obtain p1 e1 buf where R: "Receive os 4096 None p e = Returns (i32 (int ?n), None, p1, e1)"
    "trace e1 = trace e @ [Sys_recv ?fd 4096 (m_nFlags p)]" "GetBytesReceived p1 = i32 (int ?n)"
    "m_pBuffer p1 = Some buf" "m_socket p1 = ?fd" "m_nSocketType p1 = SocketTypeTcp" "errno e1 = errno e"
    and buf: "length buf = 4096" "take ?n buf = data r"
    using Receive_internal [OF assms(1) ty assms(3) _ assms(5) [folded call] _ intr] nz(2) assms(9)
    unfolding call no_intr assms(2,6) by (auto simp: GetData_def)
  have sd: "sends_data (Some buf) ?n p1"
    using assms(1,8) R(5,6) by (simp add: sends_data_def IsSocketValid_iff)
  have c: "send_call p1 (data r) = Sys_send ?fd (data r) 0"
    using R(5,6) by (simp add: send_call_def)
  have k: "err (fst (kernel os (Sys_send ?fd (data r) 0) v)) = None" for v
    using assms(10) by (simp add: takes_all_def)
  obtain q p2 e2 where S: "Send os (Some buf) ?n p1 e1 = Returns (q, p2, e2)"
    "trace e2 = trace e1 @ [Sys_send ?fd (data r) 0]" "m_socket p2 = ?fd"
    using Send_once [OF sd _ prod.collapse [symmetric], of os e1] R(5,7) assms(4)
    buf assms(9) by (auto simp: c set_errno_def k)
  have cl: "i32 (ret (fst (kernel os (Sys_close ?fd) (world e2)))) \<noteq> -1"
    using assms(11) unfolding close_succeeds_def by blast
  obtain p3 e3 where C: "Close os p2 e2 = (True, p3, e3)" "m_socket p3 = -1" "trace e3 = trace e2 @ [Sys_close ?fd]"
    using cl S(3) assms(1)
    by (simp add: Close_eq Let_def split_beta fst_invoke IsSocketValid_iff TranslateSocketError_def SetSocketError_def)
  have "to_size (GetBytesReceived p1) = ?n"
    unfolding R(3) by (rule to_size_of_nat) (use assms(9) in simp)
  then have "serve_client os p e = Returns (snd (CActiveSocket_destroy os p3 e3))"
    using nz by (simp add: serve_client_def R(1,4) GetData_def S(1) C(1))
  moreover have "trace (snd (CActiveSocket_destroy os p3 e3)) = trace e3"
    using C(2) by (simp add: CActiveSocket_destroy_def Close_invalid)
  ultimately show ?thesis using R(2) S(2) C(3) by simp
qed

text \<open>
  C17. The echo server, for a client on a valid stream socket whose connection takes every byte it is given, on a system on which \<open>close\<close>
  always succeeds, with no interruption left in \<open>errno\<close> from before, and when its \<open>recv\<close> succeeds,
  storing no error, with 1 to 4096 bytes: it sends the client exactly those bytes, once, and then closes the
  client's descriptor, once, although both \<open>Close\<close> and the destructor run.
\<close>

theorem echo_server_echoes:
  assumes "IsSocketValid p" and "m_nSocketType p = SocketTypeTcp" and "buffer_ok p" and "errno e \<noteq> EINTR"
    and "kernel os (Sys_recv (m_socket p) MAX_PACKET (m_nFlags p)) (snd (clock os (world e))) = (r, w)"
    and "ret r = int (length (data r))" and "err r = None" and "data r \<noteq> []" and "length (data r) \<le> 4096"
    and "takes_all os (m_socket p)" and "close_succeeds os"
  shows "\<exists>e'. serve_client os p e = Returns e'
     \<and> trace e' = trace e @ [Sys_recv (m_socket p) MAX_PACKET (m_nFlags p),
                             Sys_send (m_socket p) (data r) 0, Sys_close (m_socket p)]"
  using assms by (rule serve_client_echoes)

text \<open>A peer that asks once and a connection that takes everything.\<close>

definition peer_os :: "unit os" where
  "peer_os =
     \<lparr>kernel = (\<lambda>c w. (case c of
         Sys_recv fd n f \<Rightarrow> (ok 2)\<lparr>data := [104, 105]\<rparr>
       | Sys_send fd b f \<Rightarrow> ok (int (length b))
       | _ \<Rightarrow> ok 0, w)),
      clock = (\<lambda>w. (timeval_zero, w)), inet_addr = (\<lambda>p. 0), inet_ntoa = (\<lambda>a. []), uninit = (\<lambda>i. 0)\<rparr>"

theorem echo_server_echoes_witness:
  "\<exists>e' fl. serve_client peer_os (demo_active SocketTypeTcp 8) \<lparr>errno = 0, h_errno = 0, world = (), trace = []\<rparr> = Returns e'
     \<and> trace e' = [Sys_recv 8 4096 fl, Sys_send 8 [104, 105] 0, Sys_close 8]"
proof -
  have k: "kernel peer_os (Sys_recv fd n f) v = ((ok 2)\<lparr>data := [104, 105]\<rparr>, v)" for fd n f v
    by (simp add: peer_os_def)
  have "takes_all peer_os fd" "close_succeeds peer_os" for fd
    by (simp_all add: takes_all_def close_succeeds_def peer_os_def ok_def)
  then show ?thesis
    using echo_server_echoes [OF _ _ _ _ k, of "demo_active SocketTypeTcp 8" "\<lparr>errno = 0, h_errno = 0, world = (), trace = []\<rparr>"]
    by (simp add: IsSocketValid_iff ok_def) blast
qed

lemma Accept_keeps_handle:
  assumes "Accept os raw s e = Returns (c, s', e')"
  shows "m_socket s' = m_socket s"
proof (cases "m_nSocketType s = SocketTypeTcp")
  case False
  then show ?thesis using assms by (auto simp: Accept_def SetSocketError_def)
next
  case True
  obtain s1 e1 where t: "timer_start os s e = (s1, e1)" by fastforce
  obtain p s2 e2 y where L: "do_while (accept_attempt os) accept_interrupted
      (CActiveSocket SocketTypeTcp raw, s1, e1, SocketSuccess) = Returns (p, s2, e2, y)"
    and s': "m_socket s' = m_socket s2"
    using assms True
    by (auto simp: Accept_def t obind_eq_Returns Let_def split_beta timer_end_eq split: if_splits)
  have pass: "m_socket (fst (snd z)) = m_socket (fst (snd x))" if "accept_attempt os x = Returns z" for x z
    using that
    by (cases x) (auto simp: accept_attempt_def Let_def split_beta TranslateSocketError_def SetSocketError_def
        split: option.splits if_splits)
  have "m_socket (fst (snd (p, s2, e2, y))) = m_socket s1"
    by (rule accept.keeps [OF L, where P = "\<lambda>x. m_socket (fst (snd x)) = m_socket s1"]) (simp_all add: pass)
  then show ?thesis using t s' by (auto simp: timer_start_eq)
qed

text \<open>
  C18. The echo server's loop never ends normally: \<open>Accept\<close> never changes the handle that the
  loop tests. The program returns only if \<open>Listen\<close> failed or left no handle.
\<close>

theorem EchoServer_returns_only_without_socket:
  assumes "EchoServer os raw_server raw e = Returns (k, e')"
  shows "k = 1 \<and>
    (let (b, s1, e1) = Initialize os (CPassiveSocket SocketTypeTcp raw_server) e;
         (listening, s2, e2) = Listen os (Some ''127.0.0.1'') 6789 30000 s1 e1
     in \<not> listening \<or> \<not> IsSocketValid s2)"
proof -
  obtain b s1 e1 where 1: "Initialize os (CPassiveSocket SocketTypeTcp raw_server) e = (b, s1, e1)" by (metis prod_cases3)
  obtain l s2 e2 where 2: "Listen os (Some ''127.0.0.1'') 6789 30000 s1 e1 = (l, s2, e2)" by (metis prod_cases3)
  have pass: "m_socket (fst y) = m_socket (fst x)" if "echo_pass os raw x = Returns y" for x y
    using that Accept_keeps_handle [of os raw "fst x" "snd x"]
    by (cases x) (auto simp: echo_pass_def obind_eq_Returns split: option.splits)
  have loop: "do_while (echo_pass os raw) (\<lambda>(s, e). IsSocketValid s) (s2, e2) \<noteq> Returns z"
    if "IsSocketValid s2" for z
  proof
    assume D: "do_while (echo_pass os raw) (\<lambda>(s, e). IsSocketValid s) (s2, e2) = Returns z"
    have "m_socket (fst z) = m_socket s2 \<and> \<not> (\<lambda>(s, e). IsSocketValid s) z"
      by (rule do_while_rule [OF D, where P = "\<lambda>x. m_socket (fst x) = m_socket s2"]) (auto simp: pass)
    then show False using that by (auto simp: IsSocketValid_iff split_beta)
  qed
  show ?thesis
    using assms loop
    by (auto simp: EchoServer_def 1 2 obind_eq_Returns Let_def split_beta split: if_splits)
qed

text \<open>A system with no descriptors left.\<close>

definition full_os :: "unit os" where
  "full_os =
     \<lparr>kernel = (\<lambda>c w. (fail EMFILE, w)),
      clock = (\<lambda>w. (timeval_zero, w)), inet_addr = (\<lambda>p. 0), inet_ntoa = (\<lambda>a. []), uninit = (\<lambda>i. 0)\<rparr>"

theorem EchoServer_returns_only_without_socket_witness:
  "\<exists>e'. EchoServer full_os raw_listener raw_active \<lparr>errno = 0, h_errno = 0, world = (), trace = []\<rparr> = Returns (1, e')"
proof -
  let ?e = "\<lparr>errno = 0, h_errno = 0, world = (), trace = []\<rparr> :: unit env"
  have k: "kernel full_os c w = (fail EMFILE, w)" for c w by (simp add: full_os_def)
  obtain b s1 e1 where 1: "Initialize full_os (CPassiveSocket SocketTypeTcp raw_listener) ?e = (b, s1, e1)"
    by (metis prod_cases3)
  obtain l s2 e2 where 2: "Listen full_os (Some ''127.0.0.1'') 6789 30000 s1 e1 = (l, s2, e2)"
    by (metis prod_cases3)
  have "\<not> l"
  proof
    assume l
    have "fst (Listen full_os (Some ''127.0.0.1'') 6789 30000 s1 e1) = False"
      by (simp add: Listen_def setsockopt_def Let_def split_beta fst_invoke k)
    with \<open>l\<close> 2 show False by simp
  qed
  then obtain k' e' where R: "EchoServer full_os raw_listener raw_active ?e = Returns (k', e')"
    by (simp add: EchoServer_def 1 2 split_beta Let_def)
  from EchoServer_returns_only_without_socket [OF R] R show ?thesis by auto
qed

text \<open>
  C38. The day-time client copies from the buffer of a \<open>Receive\<close> without looking at its result:
  when the connection is made and the request sent but the answer fails, as when the peer
  resets the connection, it copies from the null pointer that the failure left.
\<close>

theorem QueryDayTime_copies_from_null:
  assumes "Initialize os (CActiveSocket SocketTypeTcp raw) e = (b, s1, e1)"
    and "Open os (Some ''time-C.timefreq.bldrdoc.gov'') 13 s1 e1 = Returns (True, s2, e2)"
    and "Send os (Some [10, 0]) 1 s2 e2 = Returns (1, s3, e3)"
    and "Receive os 49 None s3 e3 = Returns (-1, b', s4, e4)"
  shows "QueryDayTime os raw e = Faults NullCopy"
proof -
  let ?s = "CActiveSocket SocketTypeTcp raw"
  have "object_ok SocketTypeTcp (?s, e)" by (rule constructed_ok) (auto simp: constructed_def)
  then have "object_ok SocketTypeTcp (s1, e1)"
    by (rule run_op_ok [of os "Inherited OpInitialize", rotated]) (simp add: assms(1))
  then have "object_ok SocketTypeTcp (s2, e2)"
    by (rule run_op_ok [of os "OpOpen (Some ''time-C.timefreq.bldrdoc.gov'') 13", rotated]) (simp add: assms(2))
  then have "object_ok SocketTypeTcp (s3, e3)"
    by (rule run_op_ok [of os "Inherited (OpSend (Some [10, 0]) 1)", rotated]) (simp add: assms(3) [unfolded One_nat_def])
  then have "buffer_ok s3" by (simp add: object_ok_def)
  from Receive_frame [OF this assms(4)] have "GetData s4 = None" by auto
  then show ?thesis
    using assms by (simp add: QueryDayTime_def)
qed

text \<open>A server that takes the request and resets the connection.\<close>

definition reset_os :: "unit os" where
  "reset_os =
     \<lparr>kernel = (\<lambda>c w. (case c of
         Sys_socket d t p \<Rightarrow> ok 7
       | Sys_gethostbyname p \<Rightarrow> (ok 0)\<lparr>host := Some loopback\<rparr>
       | Sys_send fd b f \<Rightarrow> (ok 1)\<lparr>err := Some 0\<rparr>
       | Sys_recv fd n f \<Rightarrow> fail ECONNRESET
       | _ \<Rightarrow> ok 0, w)),
      clock = (\<lambda>w. (timeval_zero, w)), inet_addr = (\<lambda>p. 0), inet_ntoa = (\<lambda>a. []), uninit = (\<lambda>i. 0)\<rparr>"

theorem QueryDayTime_copies_from_null_witness:
  "QueryDayTime reset_os raw_active \<lparr>errno = 0, h_errno = 0, world = (), trace = []\<rparr> = Faults NullCopy"
proof -
  let ?e = "\<lparr>errno = 0, h_errno = 0, world = (), trace = []\<rparr> :: unit env"
  let ?p = "''time-C.timefreq.bldrdoc.gov''"
  let ?s = "CActiveSocket SocketTypeTcp raw_active"
  have k: "kernel reset_os c w = (fst (kernel reset_os c w), w)" for c w by (simp add: reset_os_def)
  obtain b s1 e1 where 1: "Initialize reset_os ?s ?e = (b, s1, e1)" by (metis prod_cases3)
  have s1: "m_socket s1 = 7" "m_nSocketType s1 = SocketTypeTcp"
    using 1 by (auto simp: Initialize_def Let_def split_beta timer_start_eq timer_end_eq fst_invoke reset_os_def ok_def
        TranslateSocketError_def SetSocketError_def)
  have g: "host (fst (kernel reset_os (Sys_gethostbyname q) w)) = Some loopback"
    "ret (fst (kernel reset_os (Sys_connect fd a) w)) = 0" for q w fd a
    by (simp_all add: reset_os_def ok_def)
  obtain sa ea where C: "ConnectTCP reset_os ?p 13 s1 e1 = Returns (True, sa, ea)"
    using Connect_at_once [of s1 reset_os ?p e1, OF _ k g(1) loopback_ipv4 _ k g(2), of 13] s1(2) by auto
  obtain s2 e2 where 2: "Open reset_os (Some ?p) 13 s1 e1 = Returns (True, s2, e2)"
    using s1 C by (cases "store_addresses reset_os sa ea") (simp add: Open_def IsSocketValid_iff)
  have s2: "m_socket s2 = 7" "m_nSocketType s2 = SocketTypeTcp"
    using Open_undisturbed [OF 2] s1 by (simp_all add: undisturbed_def same_object_def)
  have sd: "sends_data (Some [10, 0]) 1 s2" using s2 by (simp add: sends_data_def IsSocketValid_iff)
  have c: "send_call s2 b = Sys_send 7 b 0" for b using s2 by (simp add: send_call_def)
  have q: "ret (fst (kernel reset_os (Sys_send fd b f) w)) = 1" "err (fst (kernel reset_os (Sys_send fd b f) w)) = Some 0"
    "fst (kernel reset_os (Sys_recv fd n f) w) = fail ECONNRESET" for fd b f w n
    by (simp_all add: reset_os_def ok_def)
  obtain s3 e3 where 3: "Send reset_os (Some [10, 0]) 1 s2 e2 = Returns (1, s3, e3)"
    "m_socket s3 = 7" "m_nSocketType s3 = SocketTypeTcp"
    using Send_once [OF sd _ k, of e2] s2 by (auto simp: c q set_errno_def)
  have "object_ok SocketTypeTcp (?s, ?e)" by (rule constructed_ok) (auto simp: constructed_def)
  then have "object_ok SocketTypeTcp (s1, e1)"
    by (rule run_op_ok [of reset_os "Inherited OpInitialize", rotated]) (simp add: 1)
  then have "object_ok SocketTypeTcp (s2, e2)"
    by (rule run_op_ok [of reset_os "OpOpen (Some ?p) 13", rotated]) (simp add: 2)
  then have "object_ok SocketTypeTcp (s3, e3)"
    by (rule run_op_ok [of reset_os "Inherited (OpSend (Some [10, 0]) 1)", rotated]) (simp add: 3(1) [unfolded One_nat_def])
  then have b3: "buffer_ok s3" by (simp add: object_ok_def)
  obtain t where t: "receive_begin reset_os 49 None s3 = Returns t"
    using receive_begin_internal [OF b3, of 49 reset_os] by auto
  have rc: "receive_call s3 49 = Sys_recv 7 49 (m_nFlags s3)" using 3 by (simp add: receive_call_def)
  obtain s4 e4 where 4: "Receive reset_os 49 None s3 e3 = Returns (-1, None, s4, e4)"
    using Receive_once [OF _ _ t k, of e3] 3(2,3) by (auto simp: rc q IsSocketValid_iff set_errno_def Let_def)
  from QueryDayTime_copies_from_null [OF 1 2 3(1) 4] show ?thesis .
qed

text \<open>
  The asynchronous receiver asks for up to 4096 bytes and copies what it gets into an array of
  1024 on its stack: a packet longer than that overruns it.
\<close>

theorem async_client_overruns:
  assumes "Receive os MAX_PACKET None s e = Returns (n, b, s1, e1)" and "1024 < sint n"
    and "GetData s1 = Some d" and "sint n \<le> int (length d)" and "0 \<le> sint m" and "sint m + sint n < 2 ^ 31"
  shows "async_client_pass os (s, e, m) = Faults StackOverrun"
proof -
  have "length (take (nat (sint n)) d) = nat (sint n)" using assms(2,4) by simp
  moreover have "1024 < nat (sint n)" using assms(2) by linarith
  ultimately show ?thesis
    using assms by (simp add: async_client_pass_def int_add_def read_buffer_def nat_le_iff)
qed

text \<open>A peer that sends 2000 bytes at once.\<close>

definition flood_os :: "unit os" where
  "flood_os =
     \<lparr>kernel = (\<lambda>c w. ((ok 2000)\<lparr>data := replicate 2000 65\<rparr>, w)),
      clock = (\<lambda>w. (timeval_zero, w)), inet_addr = (\<lambda>p. 0), inet_ntoa = (\<lambda>a. []), uninit = (\<lambda>i. 0)\<rparr>"

theorem async_client_overruns_witness:
  "async_client_pass flood_os (demo_active SocketTypeTcp 7, \<lparr>errno = 0, h_errno = 0, world = (), trace = []\<rparr>, 0)
     = Faults StackOverrun"
proof -
  let ?s = "demo_active SocketTypeTcp 7"
  let ?e = "\<lparr>errno = 0, h_errno = 0, world = (), trace = []\<rparr> :: unit env"
  let ?r = "(ok 2000)\<lparr>data := replicate 2000 (65 :: byte)\<rparr>"
  have k: "kernel flood_os c w = (?r, w)" for c w by (simp add: flood_os_def)
  have r: "ret ?r = 2000" "data ?r = replicate 2000 65" "err ?r = None" by (simp_all add: ok_def)
  have ty: "IsSocketValid ?s" "m_nSocketType ?s \<in> {SocketTypeTcp, SocketTypeUdp}" "buffer_ok ?s"
    by (simp_all add: IsSocketValid_iff)
  obtain t c where t: "receive_begin flood_os 4096 None ?s = Returns t" "m_pBuffer t = Some c" "length c = 4096"
    using receive_begin_internal [OF ty(3), of 4096 flood_os] by auto
  have wb: "work_buffer None t = c" using t(2) by (simp add: work_buffer_def)
  have h: "set_errno ?r (errno ?e) \<noteq> EINTR" "length (data ?r) \<le> length (work_buffer None t)"
    using t(3) by (simp_all add: set_errno_def r wb)
  obtain s1 e1 where R: "Receive flood_os 4096 None ?s ?e = Returns (2000, None, s1, e1)"
    "m_pBuffer s1 = Some (replicate 2000 65 @ drop 2000 c)"
    using Receive_once [OF ty(1,2) t(1) k h] by (auto simp: Let_def r wb)
  show ?thesis
    by (rule async_client_overruns [OF R(1), where d = "replicate 2000 65 @ drop 2000 c"])
       (use R(2) in \<open>simp_all add: GetData_def\<close>)
qed

end
