(* ===== verification/Socket_Sessions.thy ===== *)
theory Socket_Sessions imports Example_Programs begin

text \<open>
  Both ends of a connection, or one end over many passes: a byte stream between two
  sockets as a transition system, refined to a queue of bytes; a datagram server that answers
  the sender; and the loop of the asynchronous server of \<open>RecvAsync.cpp\<close>, which ends with
  the whole payload sent back.
\<close>

section \<open>A byte stream between two sockets\<close>

text \<open>
  What a stream connection promises, with \<open>q\<close> the bytes under way from the descriptor
  \<open>out\<close> to the descriptor \<open>inp\<close>: a \<open>send\<close> takes some of the bytes offered and puts them at
  the end, and a \<open>recv\<close> with bytes under way takes some from the front, at most as many as
  asked for. Neither is interrupted, and the clock does not touch the bytes.
\<close>

definition stream_law :: "'w os \<Rightarrow> SOCKET \<Rightarrow> SOCKET \<Rightarrow> ('w \<Rightarrow> byte list) \<Rightarrow> bool" where
  "stream_law os out inp q \<longleftrightarrow>
     (\<forall>w. q (snd (clock os w)) = q w)
   \<and> (\<forall>bs f w. let (r, w') = kernel os (Sys_send out bs f) w in
        \<exists>k. k \<le> length bs \<and> ret r = int k \<and> err r = None \<and> q w' = q w @ take k bs)
   \<and> (\<forall>n f w. q w \<noteq> [] \<longrightarrow> (let (r, w') = kernel os (Sys_recv inp n f) w in
        \<exists>k. k \<le> length (q w) \<and> k \<le> nat (sint n) \<and> data r = take k (q w) \<and> ret r = int k
          \<and> err r = None \<and> q w' = drop k (q w)))"

text \<open>Two programs, with the bytes that the one has sent and the other has got.\<close>

record 'w session =
  writer :: cactive
  reader :: cactive
  outside :: "'w env"
  sent :: "byte list"
  got :: "byte list"

inductive session_step :: "'w os \<Rightarrow> ('w \<Rightarrow> byte list) \<Rightarrow> 'w session \<Rightarrow> 'w session \<Rightarrow> bool"
  for os :: "'w os" and q :: "'w \<Rightarrow> byte list" where
  writes: "Send os (Some buf) n (writer x) (outside x) = Returns (k, s', e') \<Longrightarrow>
    n \<le> length buf \<Longrightarrow> n < 2 ^ 31 \<Longrightarrow>
    session_step os q x (x\<lparr>writer := s', outside := e', sent := sent x @ take (nat (sint k)) buf\<rparr>)"
| reads: "Receive os n None (reader x) (outside x) = Returns (k, b, s', e') \<Longrightarrow>
    0 < sint n \<Longrightarrow> q (world (outside x)) \<noteq> [] \<Longrightarrow>
    session_step os q x
      (x\<lparr>reader := s', outside := e', got := got x @ take (nat (sint k)) (the (GetData s'))\<rparr>)"

definition stream_end :: "SOCKET \<Rightarrow> 'a csocket_scheme \<Rightarrow> bool" where
  "stream_end fd s \<longleftrightarrow> m_socket s = fd \<and> fd \<noteq> -1 \<and> m_nSocketType s = SocketTypeTcp \<and> buffer_ok s"

definition session_ok :: "SOCKET \<Rightarrow> SOCKET \<Rightarrow> ('w \<Rightarrow> byte list) \<Rightarrow> 'w session \<Rightarrow> bool" where
  "session_ok out inp q x \<longleftrightarrow>
     m_socket (writer x) = out \<and> out \<noteq> -1 \<and> m_nSocketType (writer x) = SocketTypeTcp
   \<and> stream_end inp (reader x)
   \<and> errno (outside x) \<noteq> EINTR \<and> sent x = got x @ q (world (outside x))"

lemma write_keeps:
  assumes law: "stream_law os out inp q" and ok: "session_ok out inp q x"
    and S: "Send os (Some buf) n (writer x) (outside x) = Returns (k, s', e')"
    and n: "n \<le> length buf" "n < 2 ^ 31"
  shows "session_ok out inp q (x\<lparr>writer := s', outside := e', sent := sent x @ take (nat (sint k)) buf\<rparr>)"
proof (cases "n = 0")
  case True
  then have "\<not> sends_data (Some buf) n (writer x)" by (simp add: sends_data_def)
  from Send_idle [OF this, of os "outside x"] S ok show ?thesis
    by (auto simp: session_ok_def SetSocketError_def)
next
  case False
  let ?s = "writer x" and ?e = "outside x"
  have sd: "sends_data (Some buf) n ?s"
    using ok False by (simp add: sends_data_def session_ok_def IsSocketValid_iff)
  have c: "send_call ?s (take n buf) = Sys_send out (take n buf) 0"
    using ok by (simp add: send_call_def session_ok_def)
  obtain r w where k: "kernel os (Sys_send out (take n buf) 0) (snd (clock os (world ?e))) = (r, w)" by fastforce
  have law_send: "let (r, w') = kernel os (Sys_send out bs f) v in
      \<exists>k. k \<le> length bs \<and> ret r = int k \<and> err r = None \<and> q w' = q v @ take k bs" for bs f v
    using law unfolding stream_law_def by blast
  have clk: "q (snd (clock os v)) = q v" for v using law unfolding stream_law_def by blast
  obtain j where j: "j \<le> n" "ret r = int j" "err r = None" "q w = q (world ?e) @ take j buf"
    using law_send [of "take n buf" 0 "snd (clock os (world ?e))"] n(1) by (auto simp: k clk min_absorb1 min_absorb2)
  have intr: "set_errno r (errno ?e) \<noteq> EINTR" using ok j(3) by (simp add: set_errno_None session_ok_def)
  have "k = i32 (int j) \<and> m_socket s' = m_socket ?s \<and> m_nSocketType s' = m_nSocketType ?s
      \<and> errno e' = errno ?e \<and> world e' = snd (clock os w)"
    using Send_once [OF sd n(1) k [folded c] intr] S j(2,3) by (auto simp: set_errno_None)
  then have sent: "k = i32 (int j)" "m_socket s' = m_socket ?s" "m_nSocketType s' = m_nSocketType ?s"
    "errno e' = errno ?e" "world e' = snd (clock os w)" by simp_all
  have "sint (i32 (int j)) = int j" using j(1) n(2) by (rule sint_count)
  then have "nat (sint k) = j" by (simp only: sent(1) nat_int)
  then show ?thesis using ok j sent(2-) by (simp add: session_ok_def clk)
qed

lemma read_keeps:
  assumes law: "stream_law os out inp q" and ok: "session_ok out inp q x"
    and R: "Receive os n None (reader x) (outside x) = Returns (k, b, s', e')"
    and n: "0 < sint n" and some: "q (world (outside x)) \<noteq> []"
  shows "session_ok out inp q
    (x\<lparr>reader := s', outside := e', got := got x @ take (nat (sint k)) (the (GetData s'))\<rparr>)"
proof -
  let ?s = "reader x" and ?e = "outside x"
  have s: "IsSocketValid ?s" "m_nSocketType ?s \<in> {SocketTypeTcp, SocketTypeUdp}" "buffer_ok ?s"
    "m_socket ?s = inp" "receive_call ?s n = Sys_recv inp n (m_nFlags ?s)"
    using ok by (simp_all add: session_ok_def stream_end_def IsSocketValid_iff receive_call_def)
  have clk: "q (snd (clock os v)) = q v" for v using law unfolding stream_law_def by blast
  obtain r w where k: "kernel os (Sys_recv inp n (m_nFlags ?s)) (snd (clock os (world ?e))) = (r, w)" by fastforce
  have "q (snd (clock os (world ?e))) \<noteq> []" using some by (simp add: clk)
  with law have "let (r, w') = kernel os (Sys_recv inp n (m_nFlags ?s)) (snd (clock os (world ?e))) in
      \<exists>k. k \<le> length (q (snd (clock os (world ?e)))) \<and> k \<le> nat (sint n)
        \<and> data r = take k (q (snd (clock os (world ?e)))) \<and> ret r = int k
        \<and> err r = None \<and> q w' = drop k (q (snd (clock os (world ?e))))"
    unfolding stream_law_def by blast
  then obtain j where j: "j \<le> length (q (world ?e))" "j \<le> nat (sint n)" "data r = take j (q (world ?e))"
    "ret r = int j" "err r = None" "q w = drop j (q (world ?e))"
    by (auto simp: k clk)
  have intr: "set_errno r (errno ?e) \<noteq> EINTR" using ok j(5) by (simp add: set_errno_None session_ok_def)
  have lt: "nat (sint n) < 2 ^ 31" using sint_lt [of n] by simp
  have sj: "sint (i32 (int j)) = int j" using j(2) lt by (rule sint_count)
  have ne: "i32 (int j) \<noteq> -1" using sj by (metis of_nat_less_0_iff sint_n1 zero_less_one neg_less_0_iff_less)
  have fits: "length (data r) \<le> nat (sint n)" using j(1-3) by simp
  obtain c where p: "k = i32 (int j)" "GetData s' = Some c" "take j c = take j (q (world ?e))"
    "m_socket s' = inp" "m_nSocketType s' = SocketTypeTcp" "buffer_ok s'"
    "errno e' = errno ?e" "world e' = snd (clock os w)"
    using Receive_internal [OF s(1-3) _ k [folded s(5)] fits intr] R n ne ok s(4) j(1,3,4,5)
    by (auto simp: set_errno_None session_ok_def stream_end_def split: if_splits)
  have "nat (sint k) = j" by (simp only: p(1) sj nat_int)
  then show ?thesis
    using ok p(2-) j(6) by (simp add: session_ok_def stream_end_def clk)
qed

interpretation session: invariant_system "\<lambda>x. session_ok out inp q x \<and> stream_law os out inp q"
    "session_step os q" "\<lambda>x. session_ok out inp q x \<and> stream_law os out inp q"
  for os :: "'w os" and out inp q
  by unfold_locales (auto elim!: session_step.cases intro: write_keeps read_keeps)

text \<open>
  C3. Over a stream that takes and delivers as many bytes at a time as it likes, whatever one program
  writes with any sequence of \<open>Send\<close> calls and another reads with \<open>Receive\<close> and \<open>GetData\<close>,
  in any interleaving: the bytes got, followed by those under way, are the bytes sent. None is
  lost, repeated or moved, and the count each call returns says how many it moved.
\<close>

theorem stream_delivers_in_order:
  assumes "stream_law os out inp q" and "(session_step os q)\<^sup>*\<^sup>* x y"
    and "IsSocketValid (writer x)" and "GetSocketType (writer x) = SocketTypeTcp" and "m_socket (writer x) = out"
    and "IsSocketValid (reader x)" and "GetSocketType (reader x) = SocketTypeTcp" and "m_socket (reader x) = inp"
    and "buffer_ok (reader x)" and "errno (outside x) \<noteq> EINTR" and "sent x = got x @ q (world (outside x))"
  shows "sent y = got y @ q (world (outside y)) \<and> (q (world (outside y)) = [] \<longrightarrow> got y = sent y)"
proof -
  have "session_ok out inp q x"
    using assms(3-) by (simp add: session_ok_def stream_end_def IsSocketValid_iff GetSocketType_def)
  then have "session_ok out inp q y" using session.always_from [OF assms(2), of out inp] assms(1) by simp
  then show ?thesis by (simp add: session_ok_def)
qed

text \<open>A pipe whose state is the bytes in it.\<close>

definition pipe_os :: "byte list os" where
  "pipe_os =
     \<lparr>kernel = (\<lambda>c w. case c of
         Sys_send fd bs f \<Rightarrow> (ok (int (length bs)), w @ bs)
       | Sys_recv fd n f \<Rightarrow> (let d = take (nat (sint n)) w in ((ok (int (length d)))\<lparr>data := d\<rparr>, drop (nat (sint n)) w))
       | _ \<Rightarrow> (ok 0, w)),
      clock = (\<lambda>w. (timeval_zero, w)), inet_addr = (\<lambda>p. 0), inet_ntoa = (\<lambda>a. []), uninit = (\<lambda>i. 0)\<rparr>"

lemma pipe_law: "stream_law pipe_os out inp (\<lambda>w. w)"
  unfolding stream_law_def pipe_os_def
  by (auto simp: Let_def ok_def min_def intro: exI [of _ "length _"] exI [of _ "min (length _) _"])

theorem stream_delivers_in_order_witness:
  "\<exists>y. (session_step pipe_os (\<lambda>w. w))\<^sup>*\<^sup>*
        \<lparr>writer = demo_active SocketTypeTcp 8, reader = demo_active SocketTypeTcp 9,
         outside = \<lparr>errno = 0, h_errno = 0, world = [], trace = []\<rparr>, sent = [], got = []\<rparr> y
     \<and> sent y = [1, 2, 3] \<and> got y @ world (outside y) = [1, 2, 3] \<and> length (got y) = 2"
proof -
  let ?w = "demo_active SocketTypeTcp 8" and ?r = "demo_active SocketTypeTcp 9"
  let ?e = "\<lparr>errno = 0, h_errno = 0, world = [], trace = []\<rparr> :: byte list env"
  let ?x = "\<lparr>writer = ?w, reader = ?r, outside = ?e, sent = [], got = []\<rparr>"
  let ?m = "[1, 2, 3] :: byte list"
  have k: "kernel pipe_os (Sys_send fd bs f) w = (ok (int (length bs)), w @ bs)"
    "kernel pipe_os (Sys_recv fd n f) w = ((ok (int (length (take (nat (sint n)) w))))\<lparr>data := take (nat (sint n)) w\<rparr>,
       drop (nat (sint n)) w)" "clock pipe_os w = (timeval_zero, w)" for fd bs f w n
    by (simp_all add: pipe_os_def Let_def)
  have sd: "sends_data (Some ?m) 3 ?w" by (simp add: sends_data_def IsSocketValid_iff)
  have sc: "send_call ?w bs = Sys_send 8 bs 0" for bs by (simp add: send_call_def)
  have ks: "kernel pipe_os (send_call ?w (take 3 ?m)) (snd (clock pipe_os (world ?e))) = (ok 3, ?m)"
    by (simp add: sc k)
  obtain s1 e1 where S: "Send pipe_os (Some ?m) 3 ?w ?e = Returns (3, s1, e1)" "world e1 = ?m" "errno e1 = 0"
    using Send_once [OF sd _ ks] by (auto simp: k ok_def set_errno_def)
  let ?y = "?x\<lparr>writer := s1, outside := e1, sent := sent ?x @ take (nat (sint (3 :: int32))) ?m\<rparr>"
  have 1: "session_step pipe_os (\<lambda>w. w) ?x ?y"
    by (rule session_step.writes [where n = 3]) (simp_all add: S)
  have r: "IsSocketValid ?r" "m_nSocketType ?r \<in> {SocketTypeTcp, SocketTypeUdp}" "buffer_ok ?r"
    by (simp_all add: IsSocketValid_iff)
  have rc: "receive_call ?r 2 = Sys_recv 9 2 (m_nFlags ?r)" by (simp add: receive_call_def)
  have kr: "kernel pipe_os (receive_call ?r 2) (snd (clock pipe_os (world e1))) = ((ok 2)\<lparr>data := [1, 2]\<rparr>, [3])"
    by (simp add: rc k S)
  obtain s2 e2 b where R: "Receive pipe_os 2 None ?r e1 = Returns (2, None, s2, e2)" "GetData s2 = Some b" "length b = 2"
    using Receive_internal [OF r _ kr] S(3) by (auto simp: ok_def set_errno_def)
  let ?z = "?y\<lparr>reader := s2, outside := e2, got := got ?y @ take (nat (sint (2 :: int32))) (the (GetData s2))\<rparr>"
  have 2: "session_step pipe_os (\<lambda>w. w) ?y ?z"
    by (rule session_step.reads [where n = 2 and b = None]) (simp_all add: R S)
  have steps: "(session_step pipe_os (\<lambda>w. w))\<^sup>*\<^sup>* ?x ?z" by (rule converse_rtranclp_into_rtranclp, rule 1) (rule r_into_rtranclp, rule 2)
  have "sent ?z = got ?z @ (\<lambda>w. w) (world (outside ?z))
      \<and> ((\<lambda>w. w) (world (outside ?z)) = [] \<longrightarrow> got ?z = sent ?z)"
    by (rule stream_delivers_in_order [OF pipe_law [of 8 9] steps])
       (simp_all add: GetSocketType_def IsSocketValid_iff)
  then have "sent ?z = got ?z @ world (outside ?z)" by blast
  moreover have "sent ?z = ?m" "length (got ?z) = 2" using R by simp_all
  ultimately show ?thesis using steps by (intro exI [of _ ?z]) simp
qed

section \<open>A datagram server\<close>

text \<open>
  C16. A datagram server that is not set to multicast answers the sender: when no interruption
  is left in \<open>errno\<close> from before, and the \<open>recvfrom\<close> succeeds, storing no error, with at least one byte and no
  more than asked for, and reports the sender's address, then the passive \<open>Send\<close> of what \<open>Receive\<close> has just put into
  the buffer makes one call, with exactly the bytes received, to the address that they came
  from. (With multicast set \<open>Receive\<close> stores the sender in another member than \<open>Send\<close> reads.)
\<close>

theorem datagram_reply_goes_to_sender:
  fixes s :: cpassive
  assumes "IsSocketValid s" and "m_nSocketType s = SocketTypeUdp" and "\<not> GetMulticast s" and "buffer_ok s"
    and "errno e \<noteq> EINTR" and "0 \<le> sint n"
    and "kernel os (Sys_recvfrom (m_socket s) n 0) (snd (clock os (world e))) = (r, w)" and "addr r = Some a"
    and "ret r = int (length (data r))" and "err r = None" and "data r \<noteq> []" and "length (data r) \<le> nat (sint n)"
  shows "\<exists>s1 e1 k s2 e2. Receive os n None s e = Returns (i32 (ret r), None, s1, e1)
     \<and> Passive_Send os (GetData s1) (to_size (GetBytesReceived s1)) s1 e1 = Returns (k, s2, e2)
     \<and> trace e2 = trace e @ [Sys_recvfrom (m_socket s) n 0, Sys_sendto (m_socket s) (data r) 0 a]"
proof -
  have rc: "receive_call s n = Sys_recvfrom (m_socket s) n 0" using assms(2) by (simp add: receive_call_def)
  have ty: "m_nSocketType s \<in> {SocketTypeTcp, SocketTypeUdp}" using assms(2) by simp
  have intr: "set_errno r (errno e) \<noteq> EINTR" using assms(5,10) by (simp add: set_errno_None)
  have len: "length (data r) < 2 ^ 31" using assms(12) sint_lt [of n] by simp
  have ss: "m_stClientSockaddr (store_sender r s) = a"
    using assms(2,3,8) by (simp add: store_sender_def)
  obtain s1 e1 b where R: "Receive os n None s e = Returns (i32 (ret r), None, s1, e1)"
    "trace e1 = trace e @ [Sys_recvfrom (m_socket s) n 0]" "GetBytesReceived s1 = i32 (ret r)"
    "GetData s1 = Some b" "length b = nat (sint n)" "take (length (data r)) b = data r"
    "m_socket s1 = m_socket s" "m_nSocketType s1 = SocketTypeUdp" "m_stClientSockaddr s1 = a"
    using Receive_internal [OF assms(1) ty assms(4,6) assms(7) [folded rc] assms(12) intr]
      count_not_minus_1 [OF len] assms(2,9) by (auto simp: rc ss)
  have size: "to_size (GetBytesReceived s1) = length (data r)"
    unfolding R(3) assms(9) by (rule to_size_of_nat [OF len])
  have v: "IsSocketValid s1" using assms(1) R(7) by (simp add: IsSocketValid_iff)
  have pos: "0 < length (data r)" "length (data r) \<le> length b" using assms(11,12) R(5) by simp_all
  obtain k s2 e2 where S: "Passive_Send os (Some b) (length (data r)) s1 e1 = Returns (k, s2, e2)"
    "trace e2 = trace e1 @ [Sys_sendto (m_socket s) (data r) 0 a]"
    using Passive_Send_once [OF R(8) v pos prod.collapse [symmetric], of os e1] R(6,7,9) by auto
  show ?thesis
    using R(1,2) S by (intro exI [of _ s1] exI [of _ e1] exI [of _ k] exI [of _ s2] exI [of _ e2])
      (simp add: size R(4))
qed

theorem datagram_reply_goes_to_sender_witness:
  "\<exists>s1 e1 k s2 e2. Receive scripted 16 None (demo_passive SocketTypeUdp 3)
        (start_env [(ok 2)\<lparr>data := [7, 8], addr := Some \<lparr>sin_family = 2, sin_port = 1, sin_addr = 5\<rparr>\<rparr>]) = Returns (2, None, s1, e1)
     \<and> Passive_Send scripted (GetData s1) (to_size (GetBytesReceived s1)) s1 e1 = Returns (k, s2, e2)
     \<and> trace e2 = [Sys_recvfrom 3 16 0, Sys_sendto 3 [7, 8] 0 \<lparr>sin_family = 2, sin_port = 1, sin_addr = 5\<rparr>]"
proof -
  let ?a = "\<lparr>sin_family = 2, sin_port = 1, sin_addr = 5\<rparr>"
  let ?r = "(ok 2)\<lparr>data := [7, 8], addr := Some ?a\<rparr>"
  let ?s = "demo_passive SocketTypeUdp 3"
  have k: "kernel scripted (Sys_recvfrom (m_socket ?s) 16 0) (snd (clock scripted (world (start_env [?r])))) = (?r, [])"
    by (simp add: lawful_def in_int_def ok_def)
  have s: "\<not> GetMulticast ?s" "buffer_ok ?s"
    by (simp_all add: demo_passive_def CPassiveSocket_def SetSocketHandle_def CSimpleSocket_def
        SetConnectTimeout_def Let_def GetMulticast_def buffer_ok_def)
  show ?thesis
    using datagram_reply_goes_to_sender [where s = ?s and n = 16 and e = "start_env [?r]", OF _ _ s _ _ k]
    by (simp add: IsSocketValid_iff ok_def)
qed

section \<open>The asynchronous echo server\<close>

text \<open>
  A connection on which the server meets bytes to receive, \<open>inq\<close>, and leaves bytes sent,
  \<open>outq\<close>: a \<open>recv\<close> that asks for some bytes while there are any gets at least one, and a
  \<open>send\<close> takes everything. Neither is interrupted.
\<close>

definition echo_law :: "'w os \<Rightarrow> SOCKET \<Rightarrow> ('w \<Rightarrow> byte list) \<Rightarrow> ('w \<Rightarrow> byte list) \<Rightarrow> bool" where
  "echo_law os fd inq outq \<longleftrightarrow>
     (\<forall>w. inq (snd (clock os w)) = inq w \<and> outq (snd (clock os w)) = outq w)
   \<and> (\<forall>bs f w. let (r, w') = kernel os (Sys_send fd bs f) w in
        ret r = int (length bs) \<and> err r = None \<and> inq w' = inq w \<and> outq w' = outq w @ bs)
   \<and> (\<forall>n f w. inq w \<noteq> [] \<and> 0 < sint n \<longrightarrow> (let (r, w') = kernel os (Sys_recv fd n f) w in
        \<exists>k. 0 < k \<and> k \<le> length (inq w) \<and> k \<le> nat (sint n) \<and> data r = take k (inq w) \<and> ret r = int k
          \<and> err r = None \<and> inq w' = drop k (inq w) \<and> outq w' = outq w))"

lemma echo_law_clock:
  "echo_law os fd inq outq \<Longrightarrow> inq (snd (clock os w)) = inq w \<and> outq (snd (clock os w)) = outq w"
  by (simp add: echo_law_def)

lemma echo_law_send:
  assumes "echo_law os fd inq outq" and "kernel os (Sys_send fd bs f) w = (r, w')"
  shows "ret r = int (length bs) \<and> err r = None \<and> inq w' = inq w \<and> outq w' = outq w @ bs"
  using assms(1) [unfolded echo_law_def, THEN conjunct2, THEN conjunct1, rule_format, of bs f w] assms(2) by simp

lemma echo_law_recv:
  assumes "echo_law os fd inq outq" and "kernel os (Sys_recv fd n f) w = (r, w')" and "inq w \<noteq> []" and "0 < sint n"
  obtains k where "0 < k" "k \<le> length (inq w)" "k \<le> nat (sint n)" "data r = take k (inq w)" "ret r = int k"
    "err r = None" "inq w' = drop k (inq w)" "outq w' = outq w"
  using assms(1) [unfolded echo_law_def, THEN conjunct2, THEN conjunct2, rule_format, of w n f] assms(2-) by auto

text \<open>The state in which every pass starts.\<close>

definition echo_ok :: "SOCKET \<Rightarrow> cactive \<times> 'w env \<times> int32 \<Rightarrow> bool" where
  "echo_ok fd = (\<lambda>(p, e, c). m_socket p = fd \<and> fd \<noteq> -1 \<and> m_nSocketType p = SocketTypeTcp
     \<and> buffer_ok p \<and> errno e \<noteq> EINTR)"

lemma echo_receive:
  assumes law: "echo_law os fd inq outq" and ok: "echo_ok fd (p, e, c)" and n: "0 < sint n"
    and some: "inq (world e) \<noteq> []"
  obtains j p1 e1 b where "0 < j" "j \<le> length (inq (world e))" "j \<le> nat (sint n)"
    "Receive os n None p e = Returns (i32 (int j), None, p1, e1)"
    "GetBytesReceived p1 = i32 (int j)" "GetData p1 = Some b" "j \<le> length b" "take j b = take j (inq (world e))"
    "\<And>c. echo_ok fd (p1, e1, c)"
    "inq (world e1) = drop j (inq (world e))" "outq (world e1) = outq (world e)"
proof -
  note clk = echo_law_clock [OF law]
  have s: "IsSocketValid p" "m_nSocketType p \<in> {SocketTypeTcp, SocketTypeUdp}" "buffer_ok p"
    "m_socket p = fd" "receive_call p n = Sys_recv fd n (m_nFlags p)" "0 \<le> sint n"
    using ok n by (simp_all add: echo_ok_def IsSocketValid_iff receive_call_def)
  obtain r w where k: "kernel os (Sys_recv fd n (m_nFlags p)) (snd (clock os (world e))) = (r, w)" by fastforce
  obtain j where j: "0 < j" "j \<le> length (inq (world e))" "j \<le> nat (sint n)" "data r = take j (inq (world e))"
    "ret r = int j" "err r = None" "inq w = drop j (inq (world e))" "outq w = outq (world e)"
    using echo_law_recv [OF law k _ n] some by (auto simp: clk)
  have lt: "j < 2 ^ 31" using j(3) sint_lt [of n] by simp
  have len: "length (data r) = j" using j(2,4) by simp
  have intr: "set_errno r (errno e) \<noteq> EINTR" using ok j(6) by (simp add: set_errno_None echo_ok_def)
  obtain p1 e1 b where R: "Receive os n None p e = Returns (i32 (int j), None, p1, e1)"
    "GetBytesReceived p1 = i32 (int j)" "GetData p1 = Some b" "length b = nat (sint n)" "take j b = data r"
    "m_socket p1 = fd" "m_nSocketType p1 = SocketTypeTcp" "buffer_ok p1"
    "errno e1 = errno e" "world e1 = snd (clock os w)"
    using Receive_internal [OF s(1-3,6) k [folded s(5)] _ intr] len j(3,5,6) count_not_minus_1 [OF lt] ok s(4)
    by (auto simp: set_errno_None echo_ok_def)
  show thesis
    by (rule that [OF j(1-3) R(1-3)]) (use R(4-) ok j(3,4,7,8) in \<open>simp_all add: echo_ok_def clk\<close>)
qed

lemma echo_send:
  assumes law: "echo_law os fd inq outq" and ok: "echo_ok fd (p, e, c)" and j: "0 < j" "j \<le> length b"
  obtains p1 e1 where "Send os (Some b) j p e = Returns (i32 (int j), p1, e1)" "\<And>c. echo_ok fd (p1, e1, c)"
    "inq (world e1) = inq (world e)" "outq (world e1) = outq (world e) @ take j b"
proof -
  note clk = echo_law_clock [OF law]
  have sd: "sends_data (Some b) j p"
    using ok j(1) by (simp add: sends_data_def echo_ok_def IsSocketValid_iff)
  have sc: "send_call p (take j b) = Sys_send fd (take j b) 0" using ok by (simp add: send_call_def echo_ok_def)
  obtain r w where k: "kernel os (Sys_send fd (take j b) 0) (snd (clock os (world e))) = (r, w)" by fastforce
  note sent = echo_law_send [OF law k]
  have intr: "set_errno r (errno e) \<noteq> EINTR" using ok sent by (simp add: set_errno_None echo_ok_def)
  have ret: "ret r = int j" using sent j(2) by simp
  obtain p1 e1 where S: "Send os (Some b) j p e = Returns (i32 (int j), p1, e1)"
    "m_socket p1 = fd" "m_nSocketType p1 = SocketTypeTcp" "errno e1 = errno e" "world e1 = snd (clock os w)"
    using Send_once [OF sd j(2) k [folded sc] intr] ok sent ret by (auto simp: set_errno_None echo_ok_def)
  have "buffer_ok p1"
    using steady_Send [OF S(1)] buffer_ok_cong [of p1 p] ok by (simp add: steady_def echo_ok_def)
  then show thesis
    by (rule_tac that [OF S(1)]) (use S(2-) ok sent in \<open>simp_all add: echo_ok_def clk\<close>)
qed

text \<open>Counts of bytes, as the programs keep them.\<close>

lemma count_inject: "m < 2 ^ 31 \<Longrightarrow> k < 2 ^ 31 \<Longrightarrow> i32 (int m) = i32 (int k) \<longleftrightarrow> m = k"
  by (metis sint_count order_refl of_nat_eq_iff)

lemma int_add_counts:
  assumes "m + k < 2 ^ 31"
  shows "int_add (i32 (int m)) (i32 (int k)) = Returns (i32 (int (m + k)))"
  using sint_count [of m m] sint_count [of k k] assms by (simp only: int_add_def) simp

lemma echo_pass_step:
  assumes law: "echo_law os fd inq outq" and ok: "echo_ok fd (p, e, i32 (int m))" and n: "0 < sint n"
    and some: "inq (world e) \<noteq> []" and total: "m + length (inq (world e)) < 2 ^ 31"
  shows "\<exists>k p' e'. 0 < k \<and> k \<le> length (inq (world e))
     \<and> async_echo_pass os n (p, e, i32 (int m)) = Returns (p', e', i32 (int (m + k)))
     \<and> echo_ok fd (p', e', i32 (int (m + k)))
     \<and> inq (world e') = drop k (inq (world e)) \<and> outq (world e') = outq (world e) @ take k (inq (world e))"
proof -
  obtain j p1 e1 b where R: "0 < j" "j \<le> length (inq (world e))"
    "Receive os n None p e = Returns (i32 (int j), None, p1, e1)" "GetBytesReceived p1 = i32 (int j)"
    "GetData p1 = Some b" "j \<le> length b" "take j b = take j (inq (world e))"
    "\<And>c. echo_ok fd (p1, e1, c)" "inq (world e1) = drop j (inq (world e))" "outq (world e1) = outq (world e)"
    using echo_receive [OF law ok n some] by metis
  obtain p2 e2 where S: "Send os (Some b) j p1 e1 = Returns (i32 (int j), p2, e2)" "\<And>c. echo_ok fd (p2, e2, c)"
    "inq (world e2) = inq (world e1)" "outq (world e2) = outq (world e1) @ take j b"
    using echo_send [OF law R(8) R(1,6)] by metis
  have lt: "m + j < 2 ^ 31" "j < 2 ^ 31" using R(2) total by simp_all
  have nz: "i32 (int (m + j)) \<noteq> 0" using count_inject [of "m + j" 0] lt R(1) by simp
  have "async_echo_pass os n (p, e, i32 (int m)) = Returns (p2, e2, i32 (int (m + j)))"
    using R(3-5) S(1) nz to_size_of_nat [OF lt(2)] int_add_counts [OF lt(1)] by (simp add: async_echo_pass_def)
  then show ?thesis
    using R S(2-4) by (intro exI [of _ j] exI [of _ p2] exI [of _ e2]) simp
qed

lemma async_echo_loop:
  assumes law: "echo_law os fd inq outq" and n: "0 < sint n"
    and "echo_ok fd (p, e, i32 (int m))" and "inq (world e) \<noteq> []" and "m + length (inq (world e)) = t" and "t < 2 ^ 31"
  shows "\<exists>p' e'. do_while (async_echo_pass os n) (\<lambda>(p, e, c). c \<noteq> i32 (int t)) (p, e, i32 (int m))
       = Returns (p', e', i32 (int t))
     \<and> echo_ok fd (p', e', i32 (int t)) \<and> outq (world e') = outq (world e) @ inq (world e)"
  using assms(3-)
proof (induction "length (inq (world e))" arbitrary: p e m rule: less_induct)
  case less
  have total: "m + length (inq (world e)) < 2 ^ 31" using less.prems(3,4) by simp
  obtain k p1 e1 where P: "0 < k" "k \<le> length (inq (world e))"
    "async_echo_pass os n (p, e, i32 (int m)) = Returns (p1, e1, i32 (int (m + k)))"
    "echo_ok fd (p1, e1, i32 (int (m + k)))" "inq (world e1) = drop k (inq (world e))"
    "outq (world e1) = outq (world e) @ take k (inq (world e))"
    using echo_pass_step [OF law less.prems(1) n less.prems(2) total] by blast
  show ?case
  proof (cases "m + k = t")
    case True
    then have "drop k (inq (world e)) = []" using less.prems(3) by simp
    then have "outq (world e1) = outq (world e) @ inq (world e)" using P(6) by (metis append_Nil2 append_take_drop_id)
    then show ?thesis
      using do_while_once [of "async_echo_pass os n" _ _ "\<lambda>(p, e, c). c \<noteq> i32 (int t)", OF P(3)] P(4) True by auto
  next
    case False
    have lt: "m + k < 2 ^ 31" using P(2) total by simp
    have ne: "i32 (int (m + k)) \<noteq> i32 (int t)" using count_inject [OF lt less.prems(4)] False by simp
    have smaller: "length (inq (world e1)) < length (inq (world e))" "inq (world e1) \<noteq> []"
      "m + k + length (inq (world e1)) = t"
      using P(1,2,5) False less.prems(3) by auto
    from less.hyps [OF smaller(1) P(4) smaller(2,3) less.prems(4)]
    obtain p2 e2 where "do_while (async_echo_pass os n) (\<lambda>(p, e, c). c \<noteq> i32 (int t)) (p1, e1, i32 (int (m + k)))
        = Returns (p2, e2, i32 (int t))" "echo_ok fd (p2, e2, i32 (int t))"
      "outq (world e2) = outq (world e1) @ inq (world e1)" by blast
    moreover have "do_while (async_echo_pass os n) (\<lambda>(p, e, c). c \<noteq> i32 (int t)) (p, e, i32 (int m))
        = do_while (async_echo_pass os n) (\<lambda>(p, e, c). c \<noteq> i32 (int t)) (p1, e1, i32 (int (m + k)))"
      by (rule do_while_again, rule P(3)) (use ne in simp)
    ultimately show ?thesis using P(5,6) by auto
  qed
qed

text \<open>
  The asynchronous server's loop ends: on a connection that delivers the whole payload, in
  pieces of whatever sizes, it returns when the count of the bytes received is the payload's
  size, and it has sent back exactly those bytes in their order.
\<close>

theorem async_server_echoes_payload:
  assumes "echo_law os (m_socket p) inq outq" and "0 < sint n"
    and "IsSocketValid p" and "GetSocketType p = SocketTypeTcp" and "buffer_ok p" and "errno e \<noteq> EINTR"
    and "inq (world e) \<noteq> []" and "length (inq (world e)) = t" and "t < 2 ^ 31"
  shows "\<exists>p' e'. do_while (async_echo_pass os n) (\<lambda>(p, e, c). c \<noteq> i32 (int t)) (p, e, 0)
       = Returns (p', e', i32 (int t))
     \<and> IsSocketValid p' \<and> outq (world e') = outq (world e) @ inq (world e)"
proof -
  have "echo_ok (m_socket p) (p, e, i32 (int 0))"
    using assms(3-6) by (simp add: echo_ok_def IsSocketValid_iff GetSocketType_def)
  from async_echo_loop [OF assms(1,2) this assms(7) _ assms(9)] assms(8) show ?thesis
    by (fastforce simp: echo_ok_def IsSocketValid_iff)
qed

text \<open>A peer that sends the test packet and takes what comes back, one byte at a time.\<close>

definition packet_os :: "(byte list \<times> byte list) os" where
  "packet_os =
     \<lparr>kernel = (\<lambda>c w. case c of
         Sys_send fd bs f \<Rightarrow> (ok (int (length bs)), (fst w, snd w @ bs))
       | Sys_recv fd n f \<Rightarrow> ((ok (int (length (take 1 (fst w)))))\<lparr>data := take 1 (fst w)\<rparr>, (drop 1 (fst w), snd w))
       | _ \<Rightarrow> (ok 0, w)),
      clock = (\<lambda>w. (timeval_zero, w)), inet_addr = (\<lambda>p. 0), inet_ntoa = (\<lambda>a. []), uninit = (\<lambda>i. 0)\<rparr>"

lemma packet_law: "echo_law packet_os fd fst snd"
  unfolding echo_law_def packet_os_def
proof (intro conjI allI impI, goal_cases)
  case (4 n f w)
  then have "length (take 1 (fst w)) = 1" by (cases "fst w") simp_all
  with 4 show ?case by (auto simp: Let_def ok_def intro!: exI [of _ 1])
qed (auto simp: Let_def ok_def)

theorem async_server_echoes_payload_witness:
  "\<exists>p' e'. do_while (async_echo_pass packet_os (nNumBytesToReceive thData))
         (\<lambda>(p, e, c). c \<noteq> nTotalPayloadSize thData)
         (demo_active SocketTypeTcp 8, \<lparr>errno = 0, h_errno = 0, world = (TEST_PACKET, []), trace = []\<rparr>, 0)
       = Returns (p', e', nTotalPayloadSize thData)
     \<and> snd (world e') = TEST_PACKET"
proof -
  let ?e = "\<lparr>errno = 0, h_errno = 0, world = (TEST_PACKET, []), trace = []\<rparr> :: (byte list \<times> byte list) env"
  have p: "fst (world ?e) \<noteq> []" "length (fst (world ?e)) = 11" by (simp_all add: TEST_PACKET_def)
  show ?thesis
    using async_server_echoes_payload [OF packet_law _ _ _ _ _ p, of 1 "demo_active SocketTypeTcp 8"]
    by (auto simp: IsSocketValid_iff GetSocketType_def thData_def TEST_PACKET_def)
qed

end
