(* ===== verification/Server_Descriptors.thy ===== *)
theory Server_Descriptors imports Socket_Sessions begin

text \<open>
  The descriptors of the echo server: what a pass of its loop opens and closes, counted in the
  history of system calls.
\<close>

section \<open>Descriptors of the echo server\<close>

lemma calm_life: "calm e e' \<Longrightarrow> filter life_call (trace e') = filter life_call (trace e)"
  by (auto simp: calm_def list_ex_iff filter_empty_conv)

text \<open>\<open>Close\<close> on a system that closes: one call if the handle is valid, none otherwise.\<close>

lemma Close_life:
  assumes "close_succeeds os" and "Close os s e = (b, s', e')"
  shows "m_socket s' = -1 \<and> filter life_call (trace e') = filter life_call (trace e)
    @ (if IsSocketValid s then [Sys_close (m_socket s)] else [])"
proof (cases "m_socket s = -1")
  case True
  then show ?thesis using assms(2)
    by (auto simp: Close_eq IsSocketValid_iff TranslateSocketError_def SetSocketError_def)
next
  case False
  have "i32 (ret (fst (kernel os (Sys_close (m_socket s)) (world e)))) \<noteq> -1"
    using assms(1) unfolding close_succeeds_def by blast
  with False show ?thesis using assms(2)
    by (auto simp: Close_eq Let_def split_beta fst_invoke IsSocketValid_iff TranslateSocketError_def SetSocketError_def)
qed

lemma destroy_life:
  assumes "close_succeeds os"
  shows "filter life_call (trace (snd (CActiveSocket_destroy os s e))) = filter life_call (trace e)
    @ (if IsSocketValid s then [Sys_close (m_socket s)] else [])"
proof -
  obtain b s' e' where C: "Close os s e = (b, s', e')" by (metis prod_cases3)
  from Close_life [OF assms C] show ?thesis by (simp add: CActiveSocket_destroy_def C)
qed

lemma serve_client_life:
  assumes "IsSocketValid p" and "buffer_ok p" and "close_succeeds os" and "serve_client os p e = Returns e'"
  shows "filter life_call (trace e') = filter life_call (trace e) @ [Sys_close (m_socket p)]"
proof -
  obtain n b p1 e1 where R: "Receive os 4096 None p e = Returns (n, b, p1, e1)"
    using assms(4) by (auto simp: serve_client_def obind_eq_Returns)
  have p1: "m_socket p1 = m_socket p" "calm e e1" using Receive_frame [OF assms(2) R] calm_Receive [OF R] by simp_all
  show ?thesis
  proof (cases "n = 0")
    case True
    then have "e' = snd (CActiveSocket_destroy os p1 e1)" using assms(4) by (simp add: serve_client_def R)
    then show ?thesis using destroy_life [OF assms(3), of p1 e1] calm_life [OF p1(2)] p1(1) assms(1)
      by (simp add: IsSocketValid_iff)
  next
    case False
    then obtain k p2 e2 where S: "Send os (GetData p1) (to_size (GetBytesReceived p1)) p1 e1 = Returns (k, p2, e2)"
      and e': "e' = snd (CActiveSocket_destroy os (fst (snd (Close os p2 e2))) (snd (snd (Close os p2 e2))))"
      using assms(4) by (auto simp: serve_client_def R obind_eq_Returns Let_def split_beta)
    have p2: "m_socket p2 = m_socket p" "calm e1 e2" using steady_Send [OF S] p1(1) by (simp_all add: steady_def)
    obtain c p3 e3 where C: "Close os p2 e2 = (c, p3, e3)" by (metis prod_cases3)
    from Close_life [OF assms(3) C] destroy_life [OF assms(3), of p3 e3] show ?thesis
      using calm_life [OF p1(2)] calm_life [OF p2(2)] p2(1) assms(1) by (simp add: e' C IsSocketValid_iff)
  qed
qed

text \<open>
  C19. The echo server leaks no descriptor, on a system on which \<open>close\<close> always succeeds and \<open>accept\<close> stores
  an error in \<open>errno\<close> when it fails and only then: a pass of its loop that returns has closed the
  descriptor that its \<open>Accept\<close> gave it exactly once, and opened or closed no other, whatever \<open>Receive\<close>
  and \<open>Send\<close> met: data, the end of the stream, or an error. (Where \<open>close\<close> fails, \<open>Close\<close> keeps the handle
  and the destructor calls it again.)
\<close>

theorem echo_pass_leaks_nothing:
  assumes "close_succeeds os" and "accept_reports os"
    and "GetSocketType s = SocketTypeTcp" and "echo_pass os raw (s, e) = Returns (s', e')"
  shows "\<exists>c s1 e1. Accept os raw s e = Returns (c, s1, e1) \<and> GetSocketDescriptor s' = GetSocketDescriptor s
    \<and> filter life_call (trace e') = filter life_call (trace e)
        @ (case c of None \<Rightarrow> [] | Some p \<Rightarrow> [Sys_close (GetSocketDescriptor p)])"
proof -
  obtain c s1 e1 where A: "Accept os raw s e = Returns (c, s1, e1)"
    using assms(4) by (auto simp: echo_pass_def obind_eq_Returns)
  have calm: "calm e e1" using steady_Accept [OF A] assms(2) by blast
  note out = Accept_outcome [OF assms(2,3) A]
  show ?thesis
  proof (cases c)
    case None
    then show ?thesis using assms(4) A out calm_life [OF calm] by (simp add: echo_pass_def GetSocketDescriptor_def)
  next
    case (Some p)
    then obtain e2 where S: "serve_client os p e1 = Returns e2" "s' = s1" "e' = e2"
      using assms(4) A by (auto simp: echo_pass_def obind_eq_Returns)
    have "filter life_call (trace e2) = filter life_call (trace e1) @ [Sys_close (m_socket p)]"
      using out Some by (intro serve_client_life [OF _ _ assms(1) S(1)]) simp_all
    then show ?thesis using A out Some S calm_life [OF calm] by (simp add: GetSocketDescriptor_def)
  qed
qed

text \<open>A client that connects and resets the connection.\<close>

definition hangup_os :: "unit os" where
  "hangup_os =
     \<lparr>kernel = (\<lambda>c w. (case c of
         Sys_accept fd \<Rightarrow> (ok 9)\<lparr>addr := Some sockaddr_zero\<rparr>
       | Sys_recv fd n f \<Rightarrow> fail ECONNRESET
       | _ \<Rightarrow> ok 0, w)),
      clock = (\<lambda>w. (timeval_zero, w)), inet_addr = (\<lambda>p. 0), inet_ntoa = (\<lambda>a. []), uninit = (\<lambda>i. 0)\<rparr>"

lemma hangup_laws:
  "close_succeeds hangup_os" "accept_reports hangup_os"
  by (auto simp: close_succeeds_def accept_reports_def reports_errors_def hangup_os_def split: syscall.splits)

lemma hangup_Accept:
  assumes "m_nSocketType s = SocketTypeTcp"
  shows "\<exists>p s' e'. Accept hangup_os raw s e = Returns (Some p, s', e') \<and> m_socket p = 9"
proof -
  let ?p = "CActiveSocket SocketTypeTcp raw"
  obtain s1 e1 where t: "timer_start hangup_os s e = (s1, e1)" by fastforce
  have k: "kernel hangup_os (Sys_accept (m_socket s1)) (world e1) = ((ok 9)\<lparr>addr := Some sockaddr_zero\<rparr>, ())"
    by (simp add: hangup_os_def)
  obtain p s2 e2 where P: "accept_attempt hangup_os (?p, s1, e1, SocketSuccess) = Returns (p, s2, e2, SocketSuccess)"
    "m_socket p = 9"
    using accept_attempt_connected [OF k, of sockaddr_zero ?p SocketSuccess] by (auto simp: ok_def)
  have L: "do_while (accept_attempt hangup_os) accept_interrupted (?p, s1, e1, SocketSuccess) = Returns (p, s2, e2, SocketSuccess)"
    by (rule accept.settles [OF P(1)]) simp
  show ?thesis
    using assms P(2) by (cases "timer_end hangup_os s2 e2") (simp add: Accept_def t L)
qed

theorem echo_pass_leaks_nothing_witness:
  "\<exists>s' e'. echo_pass hangup_os raw_active (demo_passive SocketTypeTcp 3, \<lparr>errno = 0, h_errno = 0, world = (), trace = []\<rparr>)
     = Returns (s', e') \<and> filter life_call (trace e') = [Sys_close 9]"
proof -
  let ?s = "demo_passive SocketTypeTcp 3" and ?e = "\<lparr>errno = 0, h_errno = 0, world = (), trace = []\<rparr> :: unit env"
  have T: "GetSocketType ?s = SocketTypeTcp" by (simp add: GetSocketType_def)
  obtain p s3 e3 where A: "Accept hangup_os raw_active ?s ?e = Returns (Some p, s3, e3)" and P: "m_socket p = 9"
    using hangup_Accept [of ?s raw_active ?e] by auto
  have out: "IsSocketValid p" "buffer_ok p" "m_nSocketType p = SocketTypeTcp"
    using Accept_outcome [OF hangup_laws(2) _ A] by (simp_all add: GetSocketType_def)
  have kr: "kernel hangup_os (receive_call p 4096) (snd (clock hangup_os (world e3))) = (fail ECONNRESET, ())"
    using out(3) by (simp add: receive_call_def hangup_os_def)
  obtain p4 e4 where R: "Receive hangup_os 4096 None p e3 = Returns (-1, None, p4, e4)" "GetData p4 = None"
    using Receive_internal [OF out(1) _ out(2) _ kr] out(3) by (auto simp: set_errno_def)
  obtain k p5 e5 where S: "Send hangup_os None (to_size (GetBytesReceived p4)) p4 e4 = Returns (k, p5, e5)"
    using Send_idle [of None _ p4 hangup_os e4] by (simp add: sends_data_def)
  obtain e6 where "serve_client hangup_os p e3 = Returns e6"
    by (cases "Close hangup_os p5 e5") (simp add: serve_client_def R S)
  then have E: "echo_pass hangup_os raw_active (?s, ?e) = Returns (s3, e6)" by (simp add: echo_pass_def A)
  from echo_pass_leaks_nothing [OF hangup_laws T E] A P E show ?thesis
    by (simp add: GetSocketDescriptor_def)
qed

end
