(* ===== verification/Program_Descriptors.thy ===== *)
theory Program_Descriptors imports Server_Descriptors begin

text \<open>
  The descriptors of whole programs, from their start to their return: the asynchronous server and the
  two clients.
\<close>

section \<open>Calls that open and close\<close>

lemma Initialize_life:
  assumes "Initialize os s e = (b, s', e')"
  shows "filter life_call (trace e') = filter life_call (trace e)
      @ [Sys_socket (m_nSocketDomain s) (socket_type_code (m_nSocketType s)) 0]
    \<and> m_pBuffer s' = m_pBuffer s \<and> m_nSocketType s' = m_nSocketType s"
  using assms by (auto simp: Initialize_def run_simps)

lemma Listen_life:
  assumes "close_succeeds os" and "Listen os a n k s e = (b, s', e')"
  shows "m_nSocketType s' = m_nSocketType s \<and> m_socket s' \<in> {m_socket s, -1}
    \<and> filter life_call (trace e') = filter life_call (trace e)
        @ (if m_socket s \<noteq> -1 \<and> m_socket s' = -1 then [Sys_close (m_socket s)] else [])"
proof -
  obtain s4 e4 where L: "steady (s, e) (s4, e4)"
    "snd (Listen os a n k s e) = (s4, e4)
      \<or> snd (Listen os a n k s e) = (SetSocketError (m_socketErrno s4) (fst (snd (Close os s4 e4))), snd (snd (Close os s4 e4)))"
    using Listen_result [of s e os a n k] by blast
  obtain c s5 e5 where C: "Close os s4 e4 = (c, s5, e5)" by (metis prod_cases3)
  have st: "m_socket s4 = m_socket s" "m_nSocketType s4 = m_nSocketType s" "calm e e4"
    using L(1) by (simp_all add: steady_def)
  have ty: "m_nSocketType s5 = m_nSocketType s4"
    using C by (auto simp: Close_eq Let_def split_beta TranslateSocketError_def SetSocketError_def split: if_splits)
  show ?thesis
    using L(2) assms(2) C Close_life [OF assms(1) C] st ty calm_life [OF st(3)]
    by (auto simp: IsSocketValid_iff SetSocketError_def)
qed

text \<open>A pass of each loop of the asynchronous programs, and the loops.\<close>

lemma client_pass_frame:
  assumes "async_client_pass os (s, e, m) = Returns (s', e', m')" and "buffer_ok s"
  shows "buffer_ok s' \<and> m_socket s' = m_socket s \<and> calm e e'"
proof -
  obtain n b s1 e1 where R: "Receive os 4096 None s e = Returns (n, b, s1, e1)" "s' = s1" "e' = e1"
    using assms(1) by (auto simp: async_client_pass_def obind_eq_Returns split: if_splits)
  from Receive_frame [OF assms(2) R(1)] calm_Receive [OF R(1)] show ?thesis by (simp add: R(2,3))
qed

lemma server_pass_frame:
  assumes "async_echo_pass os n (s, e, m) = Returns (s', e', m')" and "buffer_ok s"
  shows "buffer_ok s' \<and> m_socket s' = m_socket s \<and> calm e e'"
proof -
  obtain k b s1 e1 where R: "Receive os n None s e = Returns (k, b, s1, e1)"
    using assms(1) by (auto simp: async_echo_pass_def obind_eq_Returns)
  have r: "buffer_ok s1" "m_socket s1 = m_socket s" "calm e e1"
    using Receive_frame [OF assms(2) R] calm_Receive [OF R] by simp_all
  from assms(1) consider "s' = s1" "e' = e1"
    | j where "Send os (GetData s1) (to_size (GetBytesReceived s1)) s1 e1 = Returns (j, s', e')"
    by (auto simp: async_echo_pass_def R obind_eq_Returns split: if_splits)
  then show ?thesis
  proof cases
    case 1
    then show ?thesis using r by simp
  next
    case 2
    from steady_Send [OF 2] have "steady (s1, e1) (s', e')" .
    then show ?thesis using r buffer_ok_cong [of s' s1] calm_trans by (auto simp: steady_def)
  qed
qed

lemma async_loop_frame:
  assumes "do_while pass test (s, e, m) = Returns (s', e', m')" and "buffer_ok s"
    and "\<And>s e m s' e' m'. pass (s, e, m) = Returns (s', e', m') \<Longrightarrow> buffer_ok s \<Longrightarrow>
      buffer_ok s' \<and> m_socket s' = m_socket s \<and> calm e e'"
  shows "m_socket s' = m_socket s \<and> filter life_call (trace e') = filter life_call (trace e)"
proof -
  let ?P = "\<lambda>(t, f, k). buffer_ok t \<and> m_socket t = m_socket s \<and> calm e f"
  have "?P (s', e', m') \<and> \<not> test (s', e', m')"
  proof (rule do_while_rule [OF assms(1), of ?P ?P])
    fix x y assume "?P x" "pass x = Returns y"
    then show "?P y"
      using assms(3) [of "fst x" "fst (snd x)" "snd (snd x)" "fst y" "fst (snd y)" "snd (snd y)"] calm_trans
      by (auto simp: split_beta)
  qed (use assms(2) in simp_all)
  then show ?thesis using calm_life by auto
qed

lemma server_loop_frame:
  "do_while (async_echo_pass os n) test (s, e, m) = Returns (s', e', m') \<Longrightarrow> buffer_ok s \<Longrightarrow>
     m_socket s' = m_socket s \<and> filter life_call (trace e') = filter life_call (trace e)"
  by (erule (1) async_loop_frame) (rule server_pass_frame)

lemma client_loop_frame:
  "do_while (async_client_pass os) test (s, e, m) = Returns (s', e', m') \<Longrightarrow> buffer_ok s \<Longrightarrow>
     m_socket s' = m_socket s \<and> filter life_call (trace e') = filter life_call (trace e)"
  by (erule (1) async_loop_frame) (rule client_pass_frame)

section \<open>The asynchronous server\<close>

text \<open>
  C20. The asynchronous server leaks no descriptor either, on a system on which \<open>close\<close> always succeeds and
  \<open>accept\<close> stores an error in \<open>errno\<close> when it fails and only then: it opens one socket, and when it returns it has closed
  it and the descriptor of the client, if \<open>Accept\<close> gave one, exactly once each; also
  when \<open>Listen\<close> fails, which it does not look at.
\<close>

theorem async_server_closes_all:
  assumes "close_succeeds os" and "accept_reports os"
    and "CreateTCPEchoServer os raw_server raw pData e = Returns e'"
  shows "\<exists>b s1 e1 l s2 e2 c s3 e3. Initialize os (CPassiveSocket SocketTypeTcp raw_server) e = (b, s1, e1)
    \<and> Listen os (pszServerAddr pData) (nPort pData) 30000 s1 e1 = (l, s2, e2) \<and> Accept os raw s2 e2 = Returns (c, s3, e3)
    \<and> (let fd = GetSocketDescriptor s1;
           client = (case c of None \<Rightarrow> [] | Some p \<Rightarrow> [Sys_close (GetSocketDescriptor p)])
       in filter life_call (trace e') = filter life_call (trace e) @ Sys_socket AF_INET SOCK_STREAM 0 #
            (if fd = -1 then client else if IsSocketValid s2 then client @ [Sys_close fd] else Sys_close fd # client))"
proof -
  let ?s = "CPassiveSocket SocketTypeTcp raw_server"
  obtain b s1 e1 where 1: "Initialize os ?s e = (b, s1, e1)" by (metis prod_cases3)
  obtain l s2 e2 where 2: "Listen os (pszServerAddr pData) (nPort pData) 30000 s1 e1 = (l, s2, e2)" by (metis prod_cases3)
  obtain c s3 e3 where 3: "Accept os raw s2 e2 = Returns (c, s3, e3)"
    using assms(3) by (auto simp: CreateTCPEchoServer_def 1 2 obind_eq_Returns)
  note L1 = Initialize_life [OF 1]
  note L2 = Listen_life [OF assms(1) 2]
  have ty: "m_nSocketType ?s = SocketTypeTcp" "m_nSocketDomain ?s = 2"
    by (simp_all add: CPassiveSocket_def CSimpleSocket_def SetConnectTimeout_def Let_def)
  then have "GetSocketType s2 = SocketTypeTcp" using L1 L2 by (simp add: GetSocketType_def)
  note A = Accept_outcome [OF assms(2) this 3]
  have L3: "filter life_call (trace e3) = filter life_call (trace e2)" using calm_life steady_Accept [OF 3] assms(2) by blast
  have s3: "m_socket s3 = m_socket s2" using A by simp
  let ?client = "case c of None \<Rightarrow> [] | Some p \<Rightarrow> [Sys_close (m_socket p)]"
  obtain e4 where 4: "e' = snd (CPassiveSocket_destroy os (fst (snd (Close os s3 e4))) (snd (snd (Close os s3 e4))))"
    "filter life_call (trace e4) = filter life_call (trace e3) @ ?client"
  proof (cases c)
    case None
    then show thesis using assms(3) that [of e3] by (simp add: CreateTCPEchoServer_def 1 2 3 Let_def split_beta)
  next
    case (Some p)
    have p: "IsSocketValid p" "buffer_ok p" using A Some by simp_all
    obtain p' f n where W: "(if 0 \<noteq> nTotalPayloadSize pData
        then do_while (async_echo_pass os (nNumBytesToReceive pData)) (\<lambda>(p, e, n). n \<noteq> nTotalPayloadSize pData) (p, e3, 0)
        else Returns (p, e3, 0)) = Returns (p', f, n)"
      "e' = snd (CPassiveSocket_destroy os (fst (snd (Close os s3 (snd (CActiveSocket_destroy os p' f)))))
        (snd (snd (Close os s3 (snd (CActiveSocket_destroy os p' f))))))"
      using assms(3) Some by (auto simp: CreateTCPEchoServer_def 1 2 3 obind_eq_Returns Let_def split_beta)
    have "m_socket p' = m_socket p \<and> filter life_call (trace f) = filter life_call (trace e3)"
    proof (cases "nTotalPayloadSize pData = 0")
      case True
      then show ?thesis using W(1) by simp
    next
      case False
      then have "do_while (async_echo_pass os (nNumBytesToReceive pData)) (\<lambda>(p, e, n). n \<noteq> nTotalPayloadSize pData) (p, e3, 0)
          = Returns (p', f, n)" using W(1) by simp
      from server_loop_frame [OF this p(2)] show ?thesis .
    qed
    then show thesis
      using that [OF W(2)] destroy_life [OF assms(1), of p' f] p(1) Some by (simp add: IsSocketValid_iff)
  qed
  obtain d s5 e5 where C: "Close os s3 e4 = (d, s5, e5)" by (metis prod_cases3)
  obtain d' s6 e6 where C': "Close os s5 e5 = (d', s6, e6)" by (metis prod_cases3)
  have "filter life_call (trace e') = filter life_call (trace e4) @ (if IsSocketValid s2 then [Sys_close (m_socket s2)] else [])"
    using Close_life [OF assms(1) C] Close_life [OF assms(1) C'] 4(1) s3
    by (simp add: C C' CPassiveSocket_destroy_def IsSocketValid_iff)
  then have "filter life_call (trace e') = filter life_call (trace e) @ Sys_socket 2 1 0 #
      (if m_socket s1 = -1 then ?client else if IsSocketValid s2 then ?client @ [Sys_close (m_socket s1)]
       else Sys_close (m_socket s1) # ?client)"
    using 4(2) L1 L2 L3 ty by (auto simp: IsSocketValid_iff)
  then show ?thesis using 1 2 3 by (simp add: GetSocketDescriptor_def Let_def split: option.split)
qed


theorem async_server_closes_all_witness:
  "\<exists>e'. CreateTCPEchoServer hangup_os raw_listener raw_active (thData\<lparr>nTotalPayloadSize := 0\<rparr>)
        \<lparr>errno = 0, h_errno = 0, world = (), trace = []\<rparr> = Returns e' \<and> {Sys_close 0, Sys_close 9} \<subseteq> set (trace e')"
proof -
  let ?e = "\<lparr>errno = 0, h_errno = 0, world = (), trace = []\<rparr> :: unit env" and ?d = "thData\<lparr>nTotalPayloadSize := 0\<rparr>"
  let ?s = "CPassiveSocket SocketTypeTcp raw_listener"
  obtain b s1 e1 where 1: "Initialize hangup_os ?s ?e = (b, s1, e1)" by (metis prod_cases3)
  obtain l s2 e2 where 2: "Listen hangup_os (pszServerAddr thData) (nPort thData) 30000 s1 e1 = (l, s2, e2)" by (metis prod_cases3)
  have s1: "m_socket s1 = 0" using 1 by (auto simp: Initialize_def run_simps hangup_os_def)
  have "m_nSocketType ?s = SocketTypeTcp" by (simp add: CPassiveSocket_def CSimpleSocket_def SetConnectTimeout_def Let_def)
  then have "m_nSocketType s2 = SocketTypeTcp"
    using Initialize_life [OF 1] Listen_life [OF hangup_laws(1) 2] by simp
  from hangup_Accept [OF this] obtain p s3 e3 where 3: "Accept hangup_os raw_active s2 e2 = Returns (Some p, s3, e3)" "m_socket p = 9"
    by blast
  obtain e' where R: "CreateTCPEchoServer hangup_os raw_listener raw_active ?d ?e = Returns e'"
    by (simp add: CreateTCPEchoServer_def 1 2 3 Let_def split_beta)
  from async_server_closes_all [OF hangup_laws R] have "{Sys_close 0, Sys_close 9} \<subseteq> set (filter life_call (trace e'))"
    using 1 2 3 s1 by (auto simp: GetSocketDescriptor_def Let_def split: if_splits)
  then show ?thesis using R by auto
qed

section \<open>The clients\<close>

text \<open>
  How the client programs end: with the destructor, after calls that opened and closed nothing but,
  perhaps, the socket itself.
\<close>

definition ends_by_destructor :: "'w os \<Rightarrow> cactive \<times> 'w env \<Rightarrow> 'w env \<Rightarrow> bool" where
  "ends_by_destructor os x e' \<longleftrightarrow>
     (\<exists>s6 e6. m_socket s6 \<in> {m_socket (fst x), -1} \<and> e' = snd (CActiveSocket_destroy os s6 e6)
      \<and> filter life_call (trace e6) = filter life_call (trace (snd x))
        @ (if m_socket (fst x) \<noteq> -1 \<and> m_socket s6 = -1 then [Sys_close (m_socket (fst x))] else []))"

lemma ends_calm:
  "m_socket s6 = m_socket (fst x) \<Longrightarrow> calm (snd x) e6 \<Longrightarrow> e' = snd (CActiveSocket_destroy os s6 e6) \<Longrightarrow> ends_by_destructor os x e'"
  unfolding ends_by_destructor_def using calm_life by (intro exI [of _ s6] exI [of _ e6]) auto

lemma QueryDayTime_ends:
  assumes 1: "Initialize os (CActiveSocket SocketTypeTcp raw) e = (b, s1, e1)" and none: "m_pBuffer s1 = None"
    and "close_succeeds os" and Q: "QueryDayTime os raw e = Returns (k, t, e')"
  shows "ends_by_destructor os (s1, e1) e'"
proof -
  let ?h = "''time-C.timefreq.bldrdoc.gov''"
  obtain o2 s2 e2 where 2: "Open os (Some ?h) 13 s1 e1 = Returns (o2, s2, e2)"
    using Q by (auto simp: QueryDayTime_def 1 obind_eq_Returns)
  then have u: "undisturbed (s1, e1) (s2, e2)" using Open_undisturbed by blast
  then have s2: "m_socket s2 = m_socket s1" "m_pBuffer s2 = None" "calm e1 e2"
    using none by (simp_all add: undisturbed_def same_object_def)
  show ?thesis
  proof (cases o2)
    case False
    then have "e' = snd (CActiveSocket_destroy os s2 e2)"
      using Q by (simp add: QueryDayTime_def 1 2 Let_def split_beta)
    with s2 show ?thesis by (intro ends_calm) simp_all
  next
    case True
    obtain n s3 e3 where 3: "Send os (Some [10, 0]) 1 s2 e2 = Returns (n, s3, e3)"
      using Q True by (auto simp: QueryDayTime_def 1 2 obind_eq_Returns)
    have s3: "m_socket s3 = m_socket s1" "buffer_ok s3" "calm e1 e3"
      using steady_Send [OF 3] s2 calm_trans by (auto simp: steady_def)
    show ?thesis
    proof (cases "n = 0")
      case n: True
      then have "e' = snd (CActiveSocket_destroy os s3 e3)"
        using Q True by (simp add: QueryDayTime_def 1 2 3 [unfolded One_nat_def] Let_def split_beta)
      with s3 show ?thesis by (intro ends_calm) simp_all
    next
      case n: False
      obtain m bf s4 e4 where 4: "Receive os 49 None s3 e3 = Returns (m, bf, s4, e4)"
        using Q True n by (auto simp: QueryDayTime_def 1 2 3 [unfolded One_nat_def] obind_eq_Returns)
      have s4: "m_socket s4 = m_socket s1" "calm e1 e4"
        using Receive_frame [OF s3(2) 4] calm_Receive [OF 4] s3 calm_trans by auto
      obtain c s5 e5 where 5: "Close os s4 e4 = (c, s5, e5)" by (metis prod_cases3)
      have "e' = snd (CActiveSocket_destroy os s5 e5)"
        using Q True n by (auto simp: QueryDayTime_def 1 2 3 [unfolded One_nat_def] 4 5 obind_eq_Returns Let_def split_beta)
      then show ?thesis using s4 calm_life [OF s4(2)] Close_life [OF assms(3) 5]
        unfolding ends_by_destructor_def
        by (intro exI [of _ s5] exI [of _ e5]) (auto simp: IsSocketValid_iff)
    qed
  qed
qed

lemma RecvAsync_client_ends:
  assumes 1: "Initialize os (CActiveSocket SocketTypeTcp raw) e = (b, s1, e1)" and none: "m_pBuffer s1 = None"
    and Q: "RecvAsync_client os raw e = Returns e'"
  shows "ends_by_destructor os (s1, e1) e'"
proof -
  obtain b2 s2 e2 where 2: "SetNonblocking os s1 e1 = (b2, s2, e2)" by (metis prod_cases3)
  have s2: "m_socket s2 = m_socket s1" "m_pBuffer s2 = None" "calm e1 e2"
    using steady_blocking(1) [of s1 e1 os] none by (simp_all add: 2 steady_def)
  obtain o3 s3 e3 where 3: "Open os (Some ''127.0.0.1'') 6789 s2 e2 = Returns (o3, s3, e3)"
    using Q by (auto simp: RecvAsync_client_def 1 2 obind_eq_Returns)
  then have "undisturbed (s2, e2) (s3, e3)" using Open_undisturbed by blast
  then have s3: "m_socket s3 = m_socket s1" "m_pBuffer s3 = None" "calm e1 e3"
    using s2 calm_trans by (auto simp: undisturbed_def same_object_def)
  show ?thesis
  proof (cases o3)
    case False
    then have "e' = snd (CActiveSocket_destroy os s3 e3)"
      using Q by (simp add: RecvAsync_client_def 1 2 3 Let_def split_beta)
    with s3 show ?thesis by (intro ends_calm) simp_all
  next
    case True
    obtain n s4 e4 where 4: "Send os (Some (TEST_PACKET @ [0])) (length TEST_PACKET) s3 e3 = Returns (n, s4, e4)"
      using Q True by (auto simp: RecvAsync_client_def 1 2 3 obind_eq_Returns)
    have s4: "m_socket s4 = m_socket s1" "m_pBuffer s4 = None" "calm e1 e4"
      using steady_Send [OF 4] s3 calm_trans by (auto simp: steady_def)
    show ?thesis
    proof (cases "n = 0")
      case n: True
      then have "e' = snd (CActiveSocket_destroy os s4 e4)"
        using Q True by (simp add: RecvAsync_client_def 1 2 3 4 Let_def split_beta)
      with s4 show ?thesis by (intro ends_calm) simp_all
    next
      case n: False
      obtain r s5 e5 s6 e6 m where 5: "Select_forever os s4 e4 = Returns (r, s5, e5)"
        "do_while (async_client_pass os) (\<lambda>(s, e, n). sint n \<noteq> int (length TEST_PACKET)) (s5, e5, 0) = Returns (s6, e6, m)"
        "e' = snd (CActiveSocket_destroy os s6 e6)"
        using Q True n by (auto simp: RecvAsync_client_def 1 2 3 4 obind_eq_Returns Let_def split_beta)
      have u: "undisturbed (s4, e4) (s5, e5)" using 5(1) Select_undisturbed unfolding Select_forever_def by blast
      then have s5: "m_socket s5 = m_socket s1" "buffer_ok s5" "calm e1 e5"
        using s4 calm_trans by (auto simp: undisturbed_def same_object_def)
      from client_loop_frame [OF 5(2) s5(2)] s5 calm_life [OF s5(3)] 5(3) show ?thesis
        unfolding ends_by_destructor_def by (intro exI [of _ s6] exI [of _ e6]) auto
    qed
  qed
qed

text \<open>
  C21. On a system on which \<open>close\<close> always succeeds neither client program leaks its descriptor: the day-time client and the client of the asynchronous
  receiver open one socket, and when they return, whichever other calls failed on the way, they have
  closed it, if they got it, exactly once. (Where \<open>close\<close> fails, \<open>Close\<close> keeps the handle and the destructor calls it again.)
\<close>

theorem clients_close_socket:
  assumes "close_succeeds os" and "QueryDayTime os raw e = Returns (k, t, e') \<or> RecvAsync_client os raw e = Returns e'"
  shows "let fd = GetSocketDescriptor (fst (snd (Initialize os (CActiveSocket SocketTypeTcp raw) e)))
    in filter life_call (trace e') = filter life_call (trace e) @ Sys_socket AF_INET SOCK_STREAM 0 #
         (if fd = -1 then [] else [Sys_close fd])"
proof -
  let ?s = "CActiveSocket SocketTypeTcp raw"
  obtain b s1 e1 where 1: "Initialize os ?s e = (b, s1, e1)" by (metis prod_cases3)
  note L1 = Initialize_life [OF 1]
  have dom: "m_nSocketType ?s = SocketTypeTcp" "m_nSocketDomain ?s = 2" "m_pBuffer ?s = None"
    by (simp_all add: CActiveSocket_def CSimpleSocket_def SetConnectTimeout_def Let_def)
  then have none: "m_pBuffer s1 = None" using L1 by simp
  have "ends_by_destructor os (s1, e1) e'"
    using assms(2) QueryDayTime_ends [OF 1 none assms(1)] RecvAsync_client_ends [OF 1 none] by blast
  then obtain s6 e6 where E: "m_socket s6 \<in> {m_socket s1, -1}" "e' = snd (CActiveSocket_destroy os s6 e6)"
    "filter life_call (trace e6) = filter life_call (trace e1)
        @ (if m_socket s1 \<noteq> -1 \<and> m_socket s6 = -1 then [Sys_close (m_socket s1)] else [])"
    unfolding ends_by_destructor_def fst_conv snd_conv by blast
  then show ?thesis
    using destroy_life [OF assms(1), of s6 e6] L1 dom by (auto simp: 1 GetSocketDescriptor_def IsSocketValid_iff Let_def)
qed


theorem clients_close_socket_witness:
  "\<exists>e'. QueryDayTime hangup_os raw_active \<lparr>errno = 0, h_errno = 0, world = (), trace = []\<rparr> = Returns (1, None, e')
     \<and> filter life_call (trace e') = [Sys_socket 2 1 0, Sys_close 0]"
proof -
  let ?e = "\<lparr>errno = 0, h_errno = 0, world = (), trace = []\<rparr> :: unit env" and ?s = "CActiveSocket SocketTypeTcp raw_active"
  obtain b s1 e1 where 1: "Initialize hangup_os ?s ?e = (b, s1, e1)" by (metis prod_cases3)
  have s1: "m_socket s1 = 0" "m_nSocketType s1 = SocketTypeTcp"
    using 1 by (auto simp: Initialize_def run_simps hangup_os_def)
  have g: "host (fst (kernel hangup_os (Sys_gethostbyname p) w)) = None" for p w by (simp add: hangup_os_def)
  obtain s2 e2 where 2: "Open hangup_os (Some ''time-C.timefreq.bldrdoc.gov'') 13 s1 e1 = Returns (False, s2, e2)"
    using s1 by (simp add: Open_def IsSocketValid_iff ConnectTCP_def resolve_server_def Let_def split_beta fst_invoke g)
  obtain e' where R: "QueryDayTime hangup_os raw_active ?e = Returns (1, None, e')"
    by (simp add: QueryDayTime_def 1 2 Let_def split_beta)
  from clients_close_socket [OF hangup_laws(1), of raw_active ?e 1 None e'] show ?thesis
    using R s1(1) by (simp add: 1 GetSocketDescriptor_def Let_def)
qed

end
