(* ===== verification/Async_Threads.thy ===== *)
theory Async_Threads imports Socket_Sessions begin

text \<open>
  The two threads of \<open>RecvAsync.cpp\<close>, run together over one connection: the client, non-blocking,
  sends the packet and polls for what comes back, the server takes it a byte at a time and sends it
  back. Each turn of a thread is one method call of the library; a \<open>Receive\<close> or a \<open>Send\<close> that
  is not interrupted makes one call that touches the connection. Each thread has an \<open>errno\<close> of its
  own; they share the state of the world.
\<close>

section \<open>The halves of a pass\<close>

text \<open>
  A pass of the server's loop in its two halves, \<open>nBytesReceived += pClient->Receive(...)\<close> and the
  \<open>Send\<close> of what it got.
\<close>

definition async_receive ::
  "'w os \<Rightarrow> int32 \<Rightarrow> cactive \<times> 'w env \<times> int32 \<Rightarrow> (cactive \<times> 'w env \<times> int32) outcome" where
  "async_receive os nNum = (\<lambda>(p, e, nBytesReceived).
     obind (Receive os nNum None p e) (\<lambda>(n, b, p1, e1).
     obind (int_add nBytesReceived n) (\<lambda>nBytesReceived1. Returns (p1, e1, nBytesReceived1))))"

definition async_send ::
  "'w os \<Rightarrow> cactive \<times> 'w env \<times> int32 \<Rightarrow> (cactive \<times> 'w env \<times> int32) outcome" where
  "async_send os = (\<lambda>(p, e, nBytesReceived).
     obind (Send os (GetData p) (to_size (GetBytesReceived p)) p e) (\<lambda>(k, p1, e1).
       Returns (p1, e1, nBytesReceived)))"

lemma async_echo_pass_halves:
  "async_echo_pass os n x =
     obind (async_receive os n x) (\<lambda>(p, e, c). if c \<noteq> 0 then async_send os (p, e, c) else Returns (p, e, c))"
proof (cases x)
  case (fields p e c)
  show ?thesis
  proof (cases "Receive os n None p e")
    case (Returns y)
    then show ?thesis
      by (cases y; cases "int_add c (fst y)") (auto simp: fields async_echo_pass_def async_receive_def async_send_def)
  qed (simp_all add: fields async_echo_pass_def async_receive_def)
qed

section \<open>The two threads\<close>

text \<open>
  Where the threads are: the client before its \<open>Send\<close>, before its \<open>Select\<close>, in its loop or after it;
  the server before its \<open>Receive\<close>, before its \<open>Send\<close>, or after its loop.
\<close>

datatype client_point = ClientSends | ClientSelects | ClientReads | ClientDone

datatype server_point = ServerReceives | ServerSends | ServerDone

text \<open>
  Both programs with their variables. \<open>printed\<close> is what the client's loop has printed, one packet
  after another. \<open>crashed\<close> records undefined behaviour in either thread.
\<close>

record 'w threads =
  client_at :: client_point
  client :: cactive
  client_env :: "'w env"
  bytesReceived :: int32
  printed :: "byte list"
  server_at :: server_point
  pClient :: cactive
  server_env :: "'w env"
  nBytesReceived :: int32
  shared :: 'w
  crashed :: bool

text \<open>
  The next turn of the client, \<open>main\<close> from its \<open>Send\<close> on, and of the server, the loop of
  \<open>CreateTCPEchoServer\<close>.
\<close>

definition client_run :: "'w os \<Rightarrow> 'w threads \<Rightarrow> 'w threads outcome" where
  "client_run os x =
     (let s = client x; e = (client_env x)\<lparr>world := shared x\<rparr>
      in case client_at x of
           ClientSends \<Rightarrow>
             obind (Send os (Some (TEST_PACKET @ [0])) (length TEST_PACKET) s e) (\<lambda>(k, s', e').
               Returns (x\<lparr>client_at := if k \<noteq> 0 then ClientSelects else ClientDone,
                          client := s', client_env := e', shared := world e'\<rparr>))
         | ClientSelects \<Rightarrow>
             obind (Select_forever os s e) (\<lambda>(b, s', e').
               Returns (x\<lparr>client_at := ClientReads, bytesReceived := 0,
                          client := s', client_env := e', shared := world e'\<rparr>))
         | ClientReads \<Rightarrow>
             obind (async_client_pass os (s, e, bytesReceived x)) (\<lambda>(s', e', n).
               Returns (x\<lparr>client_at := if sint n \<noteq> int (length TEST_PACKET) then ClientReads else ClientDone,
                          bytesReceived := n, printed := printed x @ take (nat (sint (GetBytesReceived s'))) (the (GetData s')),
                          client := s', client_env := e', shared := world e'\<rparr>))
         | ClientDone \<Rightarrow> Returns x)"

definition server_run :: "'w os \<Rightarrow> 'w threads \<Rightarrow> 'w threads outcome" where
  "server_run os x =
     (let e = (server_env x)\<lparr>world := shared x\<rparr>;
          test = (\<lambda>n. if n \<noteq> nTotalPayloadSize thData then ServerReceives else ServerDone)
      in case server_at x of
           ServerReceives \<Rightarrow>
             obind (async_receive os (nNumBytesToReceive thData) (pClient x, e, nBytesReceived x)) (\<lambda>(p', e', n).
               Returns (x\<lparr>server_at := if n \<noteq> 0 then ServerSends else test n,
                          pClient := p', server_env := e', nBytesReceived := n, shared := world e'\<rparr>))
         | ServerSends \<Rightarrow>
             obind (async_send os (pClient x, e, nBytesReceived x)) (\<lambda>(p', e', n).
               Returns (x\<lparr>server_at := test n, pClient := p', server_env := e', nBytesReceived := n, shared := world e'\<rparr>))
         | ServerDone \<Rightarrow> Returns x)"

text \<open>
  A thread takes its turn when its call returns: the server's socket is a blocking one, so its
  \<open>Receive\<close> waits until bytes are under way in the direction \<open>up\<close>.
\<close>

inductive thread_step :: "'w os \<Rightarrow> ('w \<Rightarrow> byte list) \<Rightarrow> 'w threads \<Rightarrow> 'w threads \<Rightarrow> bool"
  for os :: "'w os" and up :: "'w \<Rightarrow> byte list" where
  client_moves: "client_at x \<noteq> ClientDone \<Longrightarrow> client_run os x = Returns y \<Longrightarrow> thread_step os up x y"
| server_moves: "server_at x = ServerSends \<or> server_at x = ServerReceives \<and> up (shared x) \<noteq> [] \<Longrightarrow>
    server_run os x = Returns y \<Longrightarrow> thread_step os up x y"
| client_crashes: "client_at x \<noteq> ClientDone \<Longrightarrow> client_run os x = Faults u \<Longrightarrow> thread_step os up x (x\<lparr>crashed := True\<rparr>)"
| server_crashes: "server_at x = ServerSends \<or> server_at x = ServerReceives \<and> up (shared x) \<noteq> [] \<Longrightarrow>
    server_run os x = Faults u \<Longrightarrow> thread_step os up x (x\<lparr>crashed := True\<rparr>)"

section \<open>The connection\<close>

text \<open>
  A connection between \<open>cfd\<close>, the client's end, and \<open>sfd\<close>, the server's, with the bytes under way
  \<open>up\<close> to the server and \<open>down\<close> to the client: both ends send and receive as \<open>echo_law\<close> says, the
  client's \<open>recv\<close> fails with \<open>EWOULDBLOCK\<close> when nothing is under way, and
  \<open>select\<close> and the fetch of a pending error, of which there is none, touch no bytes.
\<close>

definition wire_law :: "'w os \<Rightarrow> SOCKET \<Rightarrow> SOCKET \<Rightarrow> ('w \<Rightarrow> byte list) \<Rightarrow> ('w \<Rightarrow> byte list) \<Rightarrow> bool" where
  "wire_law os cfd sfd up down \<longleftrightarrow>
     echo_law os cfd down up \<and> echo_law os sfd up down \<and> fd_in_range cfd
   \<and> (\<forall>n f w. down w = [] \<longrightarrow> (let (r, w') = kernel os (Sys_recv cfd n f) w in
        ret r = -1 \<and> err r = Some EWOULDBLOCK \<and> data r = [] \<and> up w' = up w \<and> down w' = down w))
   \<and> (\<forall>n rd wr ex t w. let (r, w') = kernel os (Sys_select n rd wr ex t) w in
        err r = None \<and> up w' = up w \<and> down w' = down w)
   \<and> (\<forall>w. let (r, w') = kernel os (Sys_getsockopt cfd SOL_SOCKET SO_ERROR (LenVar 4)) w in
        err r = None \<and> data r = to_bytes32 0 \<and> up w' = up w \<and> down w' = down w)"

text \<open>
  What the server has received and not yet sent.
\<close>

definition pending :: "'w threads \<Rightarrow> byte list" where
  "pending x = (if server_at x = ServerSends
     then take (to_size (GetBytesReceived (pClient x))) (the (GetData (pClient x))) else [])"

text \<open>
  The invariant: what was printed, the bytes under way down, those that the server holds, and the bytes
  under way up are together the packet, and the counts that the loops test agree with them.
\<close>

definition threads_ok :: "SOCKET \<Rightarrow> SOCKET \<Rightarrow> ('w \<Rightarrow> byte list) \<Rightarrow> ('w \<Rightarrow> byte list) \<Rightarrow> 'w threads \<Rightarrow> bool" where
  "threads_ok cfd sfd up down x \<longleftrightarrow>
     echo_ok cfd (client x, client_env x, 0) \<and> echo_ok sfd (pClient x, server_env x, 0) \<and> \<not> crashed x
   \<and> printed x @ down (shared x) @ pending x @ up (shared x) = (if client_at x = ClientSends then [] else TEST_PACKET)
   \<and> (client_at x = ClientSelects \<longrightarrow> printed x = [])
   \<and> (client_at x = ClientReads \<longrightarrow> sint (bytesReceived x) = int (length (printed x)) \<and> length (printed x) < length TEST_PACKET)
   \<and> (client_at x = ClientDone \<longrightarrow> printed x = TEST_PACKET)
   \<and> sint (nBytesReceived x) = int (length (printed x @ down (shared x) @ pending x))
   \<and> (server_at x = ServerReceives \<longrightarrow> sint (nBytesReceived x) < int (length TEST_PACKET))
   \<and> (server_at x = ServerSends \<longrightarrow> (\<exists>b j. GetData (pClient x) = Some b \<and> 0 < j \<and> j \<le> length b
        \<and> to_size (GetBytesReceived (pClient x)) = j))
   \<and> (server_at x = ServerDone \<longrightarrow> sint (nBytesReceived x) = int (length TEST_PACKET))"

text \<open>
  A measure of the turns that remain: a byte under way up is received, sent back and received again.
\<close>

definition left_to_do :: "('w \<Rightarrow> byte list) \<Rightarrow> ('w \<Rightarrow> byte list) \<Rightarrow> 'w threads \<Rightarrow> nat" where
  "left_to_do up down x =
     (case client_at x of ClientSends \<Rightarrow> 3 * length TEST_PACKET + 2 | ClientSelects \<Rightarrow> 1 | _ \<Rightarrow> 0)
     + 3 * length (up (shared x)) + 2 * length (pending x) + length (down (shared x))"

lemma threads_ok_ends:
  assumes "threads_ok cfd sfd up down x"
  shows "echo_ok cfd (client x, (client_env x)\<lparr>world := w\<rparr>, c)"
    and "echo_ok sfd (pClient x, (server_env x)\<lparr>world := w\<rparr>, c)"
  using assms by (simp_all add: threads_ok_def echo_ok_def)

lemma take_append_drop [simp]: "take j d @ drop j d @ z = d @ z"
  by (metis append_assoc append_take_drop_id)

lemma packet_length [simp]: "length TEST_PACKET = 11"
  by (simp add: TEST_PACKET_def)

text \<open>
  Each kind of turn returns, keeps the invariant and brings the end nearer.
\<close>

lemma run_client_sends:
  assumes law: "wire_law os cfd sfd up down" and ok: "threads_ok cfd sfd up down x" and at: "client_at x = ClientSends"
  shows "\<exists>y. client_run os x = Returns y \<and> threads_ok cfd sfd up down y \<and> left_to_do up down y < left_to_do up down x"
proof -
  let ?e = "(client_env x)\<lparr>world := shared x\<rparr>"
  have e: "echo_law os cfd down up" using law by (simp add: wire_law_def)
  have c: "echo_ok cfd (client x, ?e, 0)" by (rule threads_ok_ends [OF ok])
  have b: "0 < (11 :: nat)" "11 \<le> length (TEST_PACKET @ [0])" by simp_all
  obtain s' e' where S: "Send os (Some (TEST_PACKET @ [0])) 11 (client x) ?e = Returns (i32 (int 11), s', e')"
    "\<And>c. echo_ok cfd (s', e', c)" "down (world e') = down (shared x)"
    "up (world e') = up (shared x) @ TEST_PACKET"
    by (rule echo_send [OF e c b]) simp
  let ?y = "x\<lparr>client_at := ClientSelects, client := s', client_env := e', shared := world e'\<rparr>"
  have "client_run os x = Returns ?y" using at S(1) by (simp add: client_run_def)
  moreover have "pending ?y = pending x" by (simp add: pending_def)
  moreover have "up (shared x) = []" "down (shared x) = []" "pending x = []" "printed x = []"
    using ok at by (simp_all add: threads_ok_def)
  ultimately show ?thesis
    using ok at S by (intro exI [of _ ?y]) (auto simp: threads_ok_def left_to_do_def)
qed

lemma wire_select:
  assumes law: "wire_law os cfd sfd up down" and ok: "echo_ok cfd (s, e, 0)"
  obtains b s' e' where "Select_forever os s e = Returns (b, s', e')" "echo_ok cfd (s', e', 0)"
    "up (world e') = up (world e)" "down (world e') = down (world e)"
proof -
  have fd: "fd_in_range (m_socket s)" "m_socket s = cfd" using law ok by (simp_all add: wire_law_def echo_ok_def)
  obtain r e1 where i: "invoke os (select_call s 0 0) e = (r, e1)" by fastforce
  have k: "kernel os (select_call s 0 0) (world e) = (r, world e1)" "errno e1 = set_errno r (errno e)"
    using i by (auto simp: invoke_def split_beta Let_def)
  have "let (r, w') = kernel os (Sys_select n rd wr ex t) w in err r = None \<and> up w' = up w \<and> down w' = down w"
    for n rd wr ex t w using law unfolding wire_law_def by blast
  from this [of "m_socket s + 1" "{sint (m_socket s)}" "{sint (m_socket s)}" "{sint (m_socket s)}" None "world e"] k
  have 1: "errno e1 = errno e" "up (world e1) = up (world e)" "down (world e1) = down (world e)"
    by (simp_all add: select_call_def set_errno_None)
  let ?s = "after_select r s"
  obtain r2 e2 where i2: "invoke os (so_error_call ?s) e1 = (r2, e2)" by fastforce
  have k2: "kernel os (so_error_call ?s) (world e1) = (r2, world e2)" "errno e2 = set_errno r2 (errno e1)"
    using i2 by (auto simp: invoke_def split_beta Let_def)
  have "let (r, w') = kernel os (Sys_getsockopt cfd SOL_SOCKET SO_ERROR (LenVar 4)) w in
      err r = None \<and> data r = to_bytes32 0 \<and> up w' = up w \<and> down w' = down w" for w
    using law unfolding wire_law_def by blast
  from this [of "world e1"] k2 fd(2)
  have 2: "errno e2 = errno e1" "up (world e2) = up (world e1)" "down (world e2) = down (world e1)" "store32 (data r2) 0 = 0"
    by (simp_all add: so_error_call_def set_errno_None)
  obtain b s' e' where f: "fetch_error os ?s e1 = (b, s', e')" "errno e' \<noteq> EINTR" "world e' = world e2"
    using 1(1) 2(1,4) ok by (cases "i32 (ret r2) = 0") (simp_all add: fetch_error_def i2 Let_def echo_ok_def)
  obtain b' s'' e'' where S: "Select_forever os s e = Returns (b', s'', e'')" "errno e'' \<noteq> EINTR"
    "up (world e'') = up (world e)" "down (world e'') = down (world e)"
    using Select_eq [OF fd(1), of os 0 0 e] f 1 2 ok
    by (cases "i32 (ret r) = 0"; cases "ready r s") (auto simp: Select_forever_def i echo_ok_def Let_def)
  have "echo_ok cfd (s'', e'', 0)"
    using Select_keeps [OF S(1) [unfolded Select_forever_def]] S(2) ok buffer_ok_cong [of s'' s]
    by (simp add: echo_ok_def)
  then show thesis by (rule that [OF S(1) _ S(3,4)])
qed

lemma run_client_selects:
  assumes law: "wire_law os cfd sfd up down" and ok: "threads_ok cfd sfd up down x" and at: "client_at x = ClientSelects"
  shows "\<exists>y. client_run os x = Returns y \<and> threads_ok cfd sfd up down y \<and> left_to_do up down y < left_to_do up down x"
proof -
  let ?e = "(client_env x)\<lparr>world := shared x\<rparr>"
  obtain b s' e' where S: "Select_forever os (client x) ?e = Returns (b, s', e')" "echo_ok cfd (s', e', 0)"
    "up (world e') = up (shared x)" "down (world e') = down (shared x)"
    by (rule wire_select [OF law threads_ok_ends(1) [OF ok]]) simp
  let ?y = "x\<lparr>client_at := ClientReads, bytesReceived := 0, client := s', client_env := e', shared := world e'\<rparr>"
  have "client_run os x = Returns ?y" using at S by (simp add: client_run_def)
  moreover have "pending ?y = pending x" by (simp add: pending_def)
  ultimately show ?thesis
    using ok at S(2-) by (intro exI [of _ ?y]) (auto simp: threads_ok_def left_to_do_def)
qed

lemma int_add_sint:
  assumes "sint c = int m" and "m + j < 2 ^ 31"
  obtains c' where "int_add c (i32 (int j)) = Returns c'" "sint c' = int (m + j)"
proof -
  have "sint (i32 (int m)) = int m" using sint_count [of m m] assms(2) by simp
  then have "c = i32 (int m)" using assms(1) sint_inject by metis
  then show thesis
    using that [of "i32 (int (m + j))"] int_add_counts [OF assms(2)] sint_count [of "m + j" "m + j"] assms(2) by simp
qed

lemma wire_would_block:
  assumes law: "wire_law os cfd sfd up down" and ok: "echo_ok cfd (s, e, c)" and "0 \<le> sint n" and "down (world e) = []"
  obtains s' e' where "Receive os n None s e = Returns (-1, None, s', e')" "GetBytesReceived s' = -1"
    "echo_ok cfd (s', e', 0)" "up (world e') = up (world e)" "down (world e') = down (world e)"
proof -
  have clk: "up (snd (clock os w)) = up w \<and> down (snd (clock os w)) = down w" for w
    using law echo_law_clock [of os cfd down up w] by (simp add: wire_law_def)
  have s: "IsSocketValid s" "m_nSocketType s \<in> {SocketTypeTcp, SocketTypeUdp}" "buffer_ok s"
    "m_socket s = cfd" "receive_call s n = Sys_recv cfd n (m_nFlags s)"
    using ok by (simp_all add: echo_ok_def IsSocketValid_iff receive_call_def)
  obtain r w where k: "kernel os (Sys_recv cfd n (m_nFlags s)) (snd (clock os (world e))) = (r, w)" by fastforce
  have "down v = [] \<Longrightarrow> (let (r, w') = kernel os (Sys_recv cfd n f) v in
      ret r = -1 \<and> err r = Some EWOULDBLOCK \<and> data r = [] \<and> up w' = up v \<and> down w' = down v)" for v f
    using law unfolding wire_law_def by blast
  from this [of "snd (clock os (world e))" "m_nFlags s"] k clk assms(4)
  have r: "ret r = -1" "err r = Some EWOULDBLOCK" "data r = []" "up w = up (world e)" "down w = down (world e)"
    by simp_all
  have intr: "set_errno r (errno e) \<noteq> EINTR" by (simp add: set_errno_def r)
  show thesis
    using that Receive_internal [OF s(1-3) assms(3) k [folded s(5)] _ intr] r ok s(4) clk
    by (auto simp: set_errno_def echo_ok_def)
qed

lemma run_client_reads:
  assumes law: "wire_law os cfd sfd up down" and ok: "threads_ok cfd sfd up down x" and at: "client_at x = ClientReads"
  shows "\<exists>y. client_run os x = Returns y \<and> threads_ok cfd sfd up down y
    \<and> (if down (shared x) = [] then left_to_do up down y = left_to_do up down x else left_to_do up down y < left_to_do up down x)"
proof -
  let ?e = "(client_env x)\<lparr>world := shared x\<rparr>"
  have e: "echo_law os cfd down up" using law by (simp add: wire_law_def)
  have c: "echo_ok cfd (client x, ?e, bytesReceived x)" by (rule threads_ok_ends [OF ok])
  have n: "sint (bytesReceived x) = int (length (printed x))" using ok at by (simp add: threads_ok_def)
  have whole: "printed x @ down (shared x) @ pending x @ up (shared x) = TEST_PACKET"
    using ok at by (simp add: threads_ok_def)
  have len: "length (printed x) + length (down (shared x)) + length (pending x) + length (up (shared x)) = 11"
    using arg_cong [OF whole, of length] by simp
  show ?thesis
  proof (cases "down (shared x) = []")
    case True
    obtain s' e' where R: "Receive os MAX_PACKET None (client x) ?e = Returns (-1, None, s', e')"
      "GetBytesReceived s' = -1" "echo_ok cfd (s', e', 0)" "up (world e') = up (shared x)" "down (world e') = down (shared x)"
      by (rule wire_would_block [OF law c, of MAX_PACKET]) (use True in simp_all)
    have pass: "async_client_pass os (client x, ?e, bytesReceived x) = Returns (s', e', bytesReceived x)"
      using R(1) by (simp add: async_client_pass_def)
    let ?y = "x\<lparr>client := s', client_env := e', shared := world e'\<rparr>"
    have "client_run os x = Returns ?y" using at pass R(2) n ok by (simp add: client_run_def threads_ok_def)
    moreover have "pending ?y = pending x" by (simp add: pending_def)
    ultimately show ?thesis
      using ok at R(3-) True by (intro exI [of _ ?y]) (auto simp: threads_ok_def left_to_do_def)
  next
    case False
    obtain j s' e' b where R: "0 < j" "j \<le> length (down (shared x))"
      "Receive os MAX_PACKET None (client x) ?e = Returns (i32 (int j), None, s', e')"
      "GetBytesReceived s' = i32 (int j)" "GetData s' = Some b" "j \<le> length b" "take j b = take j (down (shared x))"
      "\<And>c. echo_ok cfd (s', e', c)" "down (world e') = drop j (down (shared x))" "up (world e') = up (shared x)"
      by (rule echo_receive [OF e c, of MAX_PACKET]) (use False in simp_all)
    have j: "j \<le> 11" using R(2) len by simp
    have sj: "sint (i32 (int j)) = int j" using sint_count [of j j] j by simp
    obtain n' where n': "int_add (bytesReceived x) (i32 (int j)) = Returns n'" "sint n' = int (length (printed x) + j)"
      by (rule int_add_sint [OF n, of j]) (use R(2) len in simp_all)
    have pass: "async_client_pass os (client x, ?e, bytesReceived x) = Returns (s', e', n')"
      using R(1,3,5,6) n'(1) sj j by (simp add: async_client_pass_def read_buffer_def del: of_int_of_nat_eq)
    let ?y = "x\<lparr>client_at := if length (printed x) + j \<noteq> 11 then ClientReads else ClientDone, bytesReceived := n',
      printed := printed x @ take j (down (shared x)), client := s', client_env := e', shared := world e'\<rparr>"
    have "client_run os x = Returns ?y"
      using at pass n'(2) R(4,5,7) sj by (simp add: client_run_def del: of_int_of_nat_eq) 
    moreover have "pending ?y = pending x" by (simp add: pending_def)
    moreover have "printed ?y = TEST_PACKET" if "length (printed x) + j = 11"
    proof -
      have "length (pending x @ up (shared x)) = 0" using R(2) len that unfolding length_append by linarith
      with that R(2) len whole show ?thesis by simp
    qed
    moreover have "length (printed x) + j \<le> 11" using R(2) len by simp
    ultimately show ?thesis
      using ok at R(1,2,8-10) n'(2) False by (intro exI [of _ ?y]) (auto simp: threads_ok_def left_to_do_def)
  qed
qed


lemma run_server_receives:
  assumes law: "wire_law os cfd sfd up down" and ok: "threads_ok cfd sfd up down x" and at: "server_at x = ServerReceives"
    and some: "up (shared x) \<noteq> []"
  shows "\<exists>y. server_run os x = Returns y \<and> threads_ok cfd sfd up down y \<and> left_to_do up down y < left_to_do up down x"
proof -
  let ?e = "(server_env x)\<lparr>world := shared x\<rparr>" and ?n = "nNumBytesToReceive thData"
  have e: "echo_law os sfd up down" using law by (simp add: wire_law_def)
  have one: "0 < sint ?n" by (simp add: thData_def)
  have pend: "pending x = []" using at by (simp add: pending_def)
  have n: "sint (nBytesReceived x) = int (length (printed x @ down (shared x)))"
    using ok pend by (simp add: threads_ok_def)
  have sent: "client_at x \<noteq> ClientSends" "printed x @ down (shared x) @ up (shared x) = TEST_PACKET"
    using ok pend some by (auto simp: threads_ok_def)
  have len: "length (printed x @ down (shared x)) + length (up (shared x)) = 11"
    using arg_cong [OF sent(2), of length] by simp
  obtain j p' e' b where R: "0 < j" "j \<le> length (up (shared x))"
    "Receive os ?n None (pClient x) ?e = Returns (i32 (int j), None, p', e')"
    "GetBytesReceived p' = i32 (int j)" "GetData p' = Some b" "j \<le> length b" "take j b = take j (up (shared x))"
    "\<And>c. echo_ok sfd (p', e', c)" "up (world e') = drop j (up (shared x))" "down (world e') = down (shared x)"
    by (rule echo_receive [OF e threads_ok_ends(2) [OF ok, of "shared x" 0] one]) (simp_all add: some)
  obtain n' where n': "int_add (nBytesReceived x) (i32 (int j)) = Returns n'"
    "sint n' = int (length (printed x @ down (shared x)) + j)"
    by (rule int_add_sint [OF n, of j]) (use R(2) len in simp_all)
  have nz: "n' \<noteq> 0" using n'(2) R(1) by auto
  have sz: "to_size (GetBytesReceived p') = j" unfolding R(4) by (rule to_size_of_nat) (use R(2) len in simp)
  let ?y = "x\<lparr>server_at := ServerSends, pClient := p', server_env := e', nBytesReceived := n', shared := world e'\<rparr>"
  have "server_run os x = Returns ?y"
    using at R(3) n'(1) nz by (simp add: server_run_def async_receive_def)
  moreover have y: "pending ?y = take j (up (shared x))" using R(5,7) sz by (simp add: pending_def)
  ultimately show ?thesis
    using ok at R(1,2,5,6,8-10) n'(2) sent sz pend by (intro exI [of _ ?y]) (auto simp: threads_ok_def left_to_do_def min_absorb2)
qed

lemma run_server_sends:
  assumes law: "wire_law os cfd sfd up down" and ok: "threads_ok cfd sfd up down x" and at: "server_at x = ServerSends"
  shows "\<exists>y. server_run os x = Returns y \<and> threads_ok cfd sfd up down y \<and> left_to_do up down y < left_to_do up down x"
proof -
  let ?e = "(server_env x)\<lparr>world := shared x\<rparr>"
  have e: "echo_law os sfd up down" using law by (simp add: wire_law_def)
  obtain b j where b: "GetData (pClient x) = Some b" "0 < j" "j \<le> length b"
    "to_size (GetBytesReceived (pClient x)) = j" using ok at by (auto simp: threads_ok_def)
  have pend: "pending x = take j b" using at b by (simp add: pending_def)
  obtain p' e' where S: "Send os (Some b) j (pClient x) ?e = Returns (i32 (int j), p', e')" "\<And>c. echo_ok sfd (p', e', c)"
    "up (world e') = up (shared x)" "down (world e') = down (shared x) @ take j b"
    by (rule echo_send [OF e threads_ok_ends(2) [OF ok, of "shared x" 0] b(2,3)]) simp
  let ?n = "nBytesReceived x"
  have most: "length (printed x @ down (shared x) @ pending x) \<le> 11"
  proof -
    have "printed x @ down (shared x) @ pending x @ up (shared x) = (if client_at x = ClientSends then [] else TEST_PACKET)"
      using ok by (simp add: threads_ok_def)
    then have "length (printed x @ down (shared x) @ pending x @ up (shared x)) \<le> 11" by simp
    then show ?thesis by simp
  qed
  let ?y = "x\<lparr>server_at := if ?n \<noteq> nTotalPayloadSize thData then ServerReceives else ServerDone,
    pClient := p', server_env := e', shared := world e'\<rparr>"
  have "server_run os x = Returns ?y" using at b S(1) by (simp add: server_run_def async_send_def)
  moreover have y: "pending ?y = []" by (simp add: pending_def)
  moreover have "sint ?n = int (length (printed x @ down (shared x) @ pending x))"
    using ok by (simp add: threads_ok_def)
  moreover have "?n = nTotalPayloadSize thData \<longleftrightarrow> sint ?n = 11"
    using sint_inject [of ?n 11] by (simp add: thData_def)
  ultimately show ?thesis
    using ok b S(2-4) at most by (intro exI [of _ ?y]) (auto simp: threads_ok_def left_to_do_def pend min_absorb2)
qed


section \<open>Runs\<close>

text \<open>
  The state in which the two loops begin: a connected pair, nothing sent.
\<close>

definition threads_started :: "SOCKET \<Rightarrow> SOCKET \<Rightarrow> ('w \<Rightarrow> byte list) \<Rightarrow> ('w \<Rightarrow> byte list) \<Rightarrow> 'w threads \<Rightarrow> bool" where
  "threads_started cfd sfd up down x \<longleftrightarrow>
     client_at x = ClientSends \<and> printed x = [] \<and> server_at x = ServerReceives \<and> nBytesReceived x = 0 \<and> \<not> crashed x
   \<and> stream_end cfd (client x) \<and> stream_end sfd (pClient x)
   \<and> errno (client_env x) \<noteq> EINTR \<and> errno (server_env x) \<noteq> EINTR \<and> up (shared x) = [] \<and> down (shared x) = []"

lemma started_ok: "threads_started cfd sfd up down x \<Longrightarrow> threads_ok cfd sfd up down x"
  by (simp add: threads_started_def threads_ok_def echo_ok_def stream_end_def pending_def)

text \<open>
  The client's \<open>Receive\<close> while nothing is under way to it.
\<close>

definition idle_poll :: "'w os \<Rightarrow> ('w \<Rightarrow> byte list) \<Rightarrow> 'w threads \<Rightarrow> 'w threads \<Rightarrow> bool" where
  "idle_poll os down x y \<longleftrightarrow> client_at x = ClientReads \<and> down (shared x) = [] \<and> client_run os x = Returns y"

lemma client_runs:
  assumes "wire_law os cfd sfd up down" and "threads_ok cfd sfd up down x" and "client_at x \<noteq> ClientDone"
  shows "\<exists>y. client_run os x = Returns y \<and> threads_ok cfd sfd up down y
    \<and> (left_to_do up down y < left_to_do up down x \<or> idle_poll os down x y \<and> left_to_do up down y = left_to_do up down x)"
proof (cases "client_at x")
  case ClientSends
  from run_client_sends [OF assms(1,2) this] show ?thesis by blast
next
  case ClientSelects
  from run_client_selects [OF assms(1,2) this] show ?thesis by blast
next
  case ClientReads
  from run_client_reads [OF assms(1,2) this] ClientReads show ?thesis
    by (auto simp: idle_poll_def split: if_splits)
qed (use assms(3) in simp)

lemma server_runs:
  assumes "wire_law os cfd sfd up down" and "threads_ok cfd sfd up down x"
    and "server_at x = ServerSends \<or> server_at x = ServerReceives \<and> up (shared x) \<noteq> []"
  shows "\<exists>y. server_run os x = Returns y \<and> threads_ok cfd sfd up down y \<and> left_to_do up down y < left_to_do up down x"
  using assms run_server_receives run_server_sends by blast

lemma thread_step_ok:
  assumes law: "wire_law os cfd sfd up down" and ok: "threads_ok cfd sfd up down x" and step: "thread_step os up x y"
  shows "threads_ok cfd sfd up down y
    \<and> (left_to_do up down y < left_to_do up down x \<or> idle_poll os down x y \<and> left_to_do up down y = left_to_do up down x)"
  using step
proof (cases rule: thread_step.cases)
  case client_moves
  with client_runs [OF law ok] show ?thesis by auto
next
  case server_moves
  with server_runs [OF law ok] show ?thesis by auto
next
  case (client_crashes u)
  with client_runs [OF law ok] show ?thesis by auto
next
  case (server_crashes u)
  with server_runs [OF law ok] show ?thesis by auto
qed

interpretation threads: invariant_system
    "\<lambda>x. threads_started cfd sfd up down x \<and> wire_law os cfd sfd up down" "thread_step os up"
    "\<lambda>x. threads_ok cfd sfd up down x \<and> wire_law os cfd sfd up down"
  for os :: "'w os" and cfd sfd up down
  by unfold_locales (auto intro: started_ok dest: thread_step_ok)

lemma threads_move:
  assumes law: "wire_law os cfd sfd up down" and ok: "threads_ok cfd sfd up down x"
    and going: "\<not> (client_at x = ClientDone \<and> server_at x = ServerDone)"
  shows "\<exists>y. thread_step os up x y \<and> threads_ok cfd sfd up down y \<and> left_to_do up down y < left_to_do up down x"
proof -
  consider (client) "client_at x = ClientSends \<or> client_at x = ClientSelects \<or> client_at x = ClientReads \<and> down (shared x) \<noteq> []"
    | (server) "server_at x = ServerSends \<or> server_at x = ServerReceives \<and> up (shared x) \<noteq> []"
    | (stuck) "client_at x = ClientDone \<or> client_at x = ClientReads \<and> down (shared x) = []"
        "server_at x = ServerDone \<or> server_at x = ServerReceives \<and> up (shared x) = []"
    by (cases "client_at x"; cases "server_at x") auto
  then show ?thesis
  proof cases
    case client
    then have "client_at x \<noteq> ClientDone" by auto
    from client_runs [OF law ok this] client this show ?thesis
      by (auto simp: idle_poll_def intro: thread_step.client_moves)
  next
    case server
    from server_runs [OF law ok this] server show ?thesis by (auto intro: thread_step.server_moves)
  next
    case stuck
    have "printed x @ down (shared x) @ pending x @ up (shared x) = TEST_PACKET"
      using ok stuck(1) by (auto simp: threads_ok_def)
    then have "length (printed x @ down (shared x) @ pending x @ up (shared x)) = 11" by simp
    then have False using ok stuck going by (auto simp: threads_ok_def pending_def)
    then show ?thesis ..
  qed
qed

lemma threads_finish:
  assumes law: "wire_law os cfd sfd up down" and "threads_ok cfd sfd up down x"
  shows "\<exists>y. (thread_step os up)\<^sup>*\<^sup>* x y \<and> client_at y = ClientDone \<and> server_at y = ServerDone"
  using assms(2)
proof (induction "left_to_do up down x" arbitrary: x rule: less_induct)
  case less
  show ?case
  proof (cases "client_at x = ClientDone \<and> server_at x = ServerDone")
    case False
    from threads_move [OF law less.prems this] less.hyps show ?thesis
      by (blast intro: converse_rtranclp_into_rtranclp)
  qed blast
qed

text \<open>
  Runs, with the number of their turns that are not idle polls.
\<close>

inductive threads_run :: "'w os \<Rightarrow> ('w \<Rightarrow> byte list) \<Rightarrow> ('w \<Rightarrow> byte list) \<Rightarrow> nat \<Rightarrow> 'w threads \<Rightarrow> 'w threads \<Rightarrow> bool"
  for os :: "'w os" and up down :: "'w \<Rightarrow> byte list" where
  run_starts: "threads_run os up down 0 x x"
| run_moves: "threads_run os up down n x y \<Longrightarrow> thread_step os up y z \<Longrightarrow>
    threads_run os up down (if idle_poll os down y z then n else Suc n) x z"

lemma threads_run_bound:
  assumes "threads_run os up down n x y" and law: "wire_law os cfd sfd up down" and "threads_ok cfd sfd up down x"
  shows "threads_ok cfd sfd up down y \<and> n + left_to_do up down y \<le> left_to_do up down x"
  using assms(1,3)
proof induction
  case (run_moves n x y z)
  then show ?case using thread_step_ok [OF law _ run_moves(2)] by auto
qed simp


text \<open>
  The asynchronous receiver, both threads: whatever the order in which the client and the server
  take their turns and however the connection cuts the packet up, neither thread faults, what the client
  has printed is the beginning of the packet in its order, and when the client's loop ends it is the
  whole packet. When the server's loop ends everything it took has been sent back.
\<close>

theorem async_threads_deliver:
  assumes "wire_law os cfd sfd up down" and "threads_started cfd sfd up down x" and "(thread_step os up)\<^sup>*\<^sup>* x y"
  shows "\<not> crashed y \<and> printed y = take (length (printed y)) TEST_PACKET
    \<and> (client_at y = ClientDone \<longrightarrow> printed y = TEST_PACKET)
    \<and> (server_at y = ServerDone \<longrightarrow> up (shared y) = [] \<and> printed y @ down (shared y) = TEST_PACKET)"
proof -
  have ok: "threads_ok cfd sfd up down y" using threads.always [OF assms(3)] assms(1,2) by blast
  then have whole: "printed y @ down (shared y) @ pending y @ up (shared y) = (if client_at y = ClientSends then [] else TEST_PACKET)"
    by (simp add: threads_ok_def)
  then have "printed y = take (length (printed y)) TEST_PACKET"
    by (cases "client_at y = ClientSends") (auto simp: append_eq_conv_conj)
  moreover have "up (shared y) = [] \<and> printed y @ down (shared y) = TEST_PACKET" if "server_at y = ServerDone"
  proof -
    have d: "pending y = []" "length (printed y @ down (shared y)) = 11"
      using ok that by (auto simp: threads_ok_def pending_def)
    then have "printed y @ down (shared y) @ up (shared y) = TEST_PACKET" using whole by (auto split: if_splits)
    moreover from arg_cong [OF this, of length] d(2) have "up (shared y) = []" by (simp flip: length_0_conv)
    ultimately show ?thesis by simp
  qed
  ultimately show ?thesis using ok by (auto simp: threads_ok_def)
qed

text \<open>A pair of pipes: descriptor 8 is the client's end, 9 the server's.\<close>

definition wire_os :: "(byte list \<times> byte list) os" where
  "wire_os =
     \<lparr>kernel = (\<lambda>c (u, d). case c of
         Sys_send fd bs f \<Rightarrow> (ok (int (length bs)), if fd = 8 then (u @ bs, d) else (u, d @ bs))
       | Sys_recv fd n f \<Rightarrow>
           (if fd = 8 then
              (if d = [] then (fail EWOULDBLOCK, (u, d))
               else ((ok (int (length (take (nat (sint n)) d))))\<lparr>data := take (nat (sint n)) d\<rparr>, (u, drop (nat (sint n)) d)))
            else ((ok (int (length (take (nat (sint n)) u))))\<lparr>data := take (nat (sint n)) u\<rparr>, (drop (nat (sint n)) u, d)))
       | Sys_getsockopt fd l n x \<Rightarrow> ((ok 0)\<lparr>data := to_bytes32 0\<rparr>, (u, d))
       | _ \<Rightarrow> (ok 1, (u, d))),
      clock = (\<lambda>w. (timeval_zero, w)), inet_addr = (\<lambda>p. 0), inet_ntoa = (\<lambda>a. []), uninit = (\<lambda>i. 0)\<rparr>"

lemma wire_os_law: "wire_law wire_os 8 9 fst snd"
proof -
  have some: "\<exists>k. 0 < k \<and> k \<le> length q \<and> k \<le> nat i \<and> take (nat i) q = take k q
      \<and> int (length (take (nat i) q)) = int k \<and> drop (nat i) q = drop k q"
    if "q \<noteq> []" "0 < i" for q :: "byte list" and i
    using that by (intro exI [of _ "length (take (nat i) q)"]) (auto simp: min_def)
  show ?thesis
    unfolding wire_law_def echo_law_def using some
    by (auto simp: wire_os_def Let_def split_beta fd_in_range_def)
qed

definition wire_start :: "(byte list \<times> byte list) threads" where
  "wire_start =
     \<lparr>client_at = ClientSends, client = demo_active SocketTypeTcp 8,
      client_env = \<lparr>errno = 0, h_errno = 0, world = ([], []), trace = []\<rparr>, bytesReceived = 0, printed = [],
      server_at = ServerReceives, pClient = demo_active SocketTypeTcp 9,
      server_env = \<lparr>errno = 0, h_errno = 0, world = ([], []), trace = []\<rparr>, nBytesReceived = 0,
      shared = ([], []), crashed = False\<rparr>"

lemma wire_started: "threads_started 8 9 fst snd wire_start"
  by (simp add: threads_started_def wire_start_def stream_end_def)

theorem async_threads_deliver_witness:
  "\<exists>y. (thread_step wire_os fst)\<^sup>*\<^sup>* wire_start y \<and> client_at y = ClientDone \<and> server_at y = ServerDone
     \<and> printed y = TEST_PACKET \<and> \<not> crashed y"
proof -
  obtain y where y: "(thread_step wire_os fst)\<^sup>*\<^sup>* wire_start y" "client_at y = ClientDone" "server_at y = ServerDone"
    using threads_finish [OF wire_os_law started_ok [OF wire_started]] by blast
  from async_threads_deliver [OF wire_os_law wire_started y(1)] y show ?thesis by auto
qed

text \<open>
  C5. Over a connection that loses nothing (\<open>wire_law\<close>: every \<open>send\<close> takes all its bytes, every \<open>recv\<close> of
  bytes under way gives some of them in order, no call fails or is interrupted but for the client's \<open>recv\<close>
  with \<open>EWOULDBLOCK\<close> when nothing is under way, no error is pending, and neither end goes away), and
  from their beginning, with both sockets open and the connection empty, the loops of the two threads
  end: a run makes at most 35 moves besides the client's polls of an empty connection, and from
  every state that a run reaches the two loops can still both end, with the whole packet printed. (When
  the peer does go away neither loop ends: \<open>async_loops_spin_after_disconnect\<close>.)
\<close>

theorem async_threads_finish:
  assumes "wire_law os cfd sfd up down" and "threads_started cfd sfd up down x" and "threads_run os up down n x y"
  shows "n \<le> 35 \<and> (\<exists>z. (thread_step os up)\<^sup>*\<^sup>* y z \<and> client_at z = ClientDone \<and> server_at z = ServerDone
    \<and> printed z = TEST_PACKET)"
proof -
  have x: "left_to_do up down x = 35" using assms(2)
    by (simp add: left_to_do_def threads_started_def pending_def)
  note y = threads_run_bound [OF assms(3,1) started_ok [OF assms(2)]]
  obtain z where z: "(thread_step os up)\<^sup>*\<^sup>* y z" "client_at z = ClientDone" "server_at z = ServerDone"
    using threads_finish [OF assms(1)] y by blast
  have "threads_ok cfd sfd up down z" using threads.always_from [OF z(1)] y assms(1) by blast
  then show ?thesis using y x z by (auto simp: threads_ok_def)
qed

theorem async_threads_finish_witness:
  "\<exists>y z. threads_run wire_os fst snd 1 wire_start y \<and> (thread_step wire_os fst)\<^sup>*\<^sup>* y z
     \<and> client_at z = ClientDone \<and> printed z = TEST_PACKET"
proof -
  have c: "client_at wire_start = ClientSends" by (simp add: wire_start_def)
  then obtain y where y: "client_run wire_os wire_start = Returns y"
    using client_runs [OF wire_os_law started_ok [OF wire_started]] by fastforce
  have "thread_step wire_os fst wire_start y" using c y by (intro thread_step.client_moves) simp_all
  then have r: "threads_run wire_os fst snd 1 wire_start y"
    using run_moves [OF run_starts, of wire_os fst wire_start y snd] c by (simp add: idle_poll_def)
  from async_threads_finish [OF wire_os_law wire_started r] r show ?thesis by blast
qed

section \<open>A peer that goes away\<close>

text \<open>The other end of the connection has been closed: \<open>recv\<close> returns 0 from then on.\<close>

definition peer_gone :: "'w os \<Rightarrow> SOCKET \<Rightarrow> bool" where
  "peer_gone os fd \<longleftrightarrow>
     (\<forall>n f w. let r = fst (kernel os (Sys_recv fd n f) w) in ret r = 0 \<and> err r = None \<and> data r = [])"

lemma Receive_peer_gone:
  assumes gone: "peer_gone os fd" and ok: "echo_ok fd (p, e, c)" and n: "0 \<le> sint n"
  obtains p1 e1 where "Receive os n None p e = Returns (0, None, p1, e1)" "GetBytesReceived p1 = 0"
    "\<And>c. echo_ok fd (p1, e1, c)"
proof -
  have s: "IsSocketValid p" "m_nSocketType p \<in> {SocketTypeTcp, SocketTypeUdp}" "buffer_ok p"
    "m_socket p = fd" "receive_call p n = Sys_recv fd n (m_nFlags p)"
    using ok by (simp_all add: echo_ok_def IsSocketValid_iff receive_call_def)
  obtain r w where k: "kernel os (Sys_recv fd n (m_nFlags p)) (snd (clock os (world e))) = (r, w)" by fastforce
  have r: "ret r = 0" "err r = None" "data r = []"
    using gone [unfolded peer_gone_def, rule_format, of n "m_nFlags p" "snd (clock os (world e))"] by (simp_all add: k)
  have intr: "set_errno r (errno e) \<noteq> EINTR" using ok r(2) by (simp add: set_errno_None echo_ok_def)
  show thesis
    using that Receive_internal [OF s(1-3) n k [folded s(5)] _ intr] r ok s(4)
    by (auto simp: set_errno_None echo_ok_def)
qed

lemma int_add_0: "int_add c 0 = Returns c"
  using sint_ge [of c] sint_lt [of c] by (simp add: int_add_def)

text \<open>
  C23. Neither loop of the asynchronous programs looks for the end of the stream: when the peer has closed
  the connection before the whole packet came through, the server and the client
  receive nothing again and again and never return.
\<close>

theorem async_loops_spin_after_disconnect:
  assumes "peer_gone os (m_socket p)" and "IsSocketValid p" and "GetSocketType p = SocketTypeTcp"
    and "buffer_ok p" and "errno e \<noteq> EINTR" and "c \<noteq> nTotalPayloadSize thData"
  shows "do_while (async_echo_pass os (nNumBytesToReceive thData)) (\<lambda>(p, e, c). c \<noteq> nTotalPayloadSize thData) (p, e, c) = Diverges
    \<and> do_while (async_client_pass os) (\<lambda>(s, e, n). sint n \<noteq> int (length TEST_PACKET)) (p, e, c) = Diverges"
proof
  let ?P = "\<lambda>x. echo_ok (m_socket p) x \<and> snd (snd x) = c"
  have start: "?P (p, e, c)" using assms(2-5) by (simp add: echo_ok_def IsSocketValid_iff GetSocketType_def)
  show "do_while (async_echo_pass os (nNumBytesToReceive thData)) (\<lambda>(p, e, c). c \<noteq> nTotalPayloadSize thData) (p, e, c) = Diverges"
  proof (rule do_while_diverges [where P = ?P, OF start])
    fix x :: "cactive \<times> 'a env \<times> int32"
    assume P: "?P x"
    obtain q f where x: "x = (q, f, c)" using P by (cases x) simp
    obtain p1 e1 where R: "Receive os (nNumBytesToReceive thData) None q f = Returns (0, None, p1, e1)"
      "GetBytesReceived p1 = 0" "\<And>c. echo_ok (m_socket p) (p1, e1, c)"
      by (rule Receive_peer_gone [OF assms(1), of q f c "nNumBytesToReceive thData"])
         (use P x in \<open>simp_all add: thData_def\<close>)
    have idle: "\<not> sends_data (GetData p1) 0 p1" by (simp add: sends_data_def)
    let ?q = "if c = 0 then p1 else (SetSocketError SocketSuccess p1)\<lparr>m_nBytesSent := 0\<rparr>"
    have "async_echo_pass os (nNumBytesToReceive thData) x = Returns (?q, e1, c)"
      using Send_idle [OF idle, of os e1] by (simp add: x async_echo_pass_def R(1,2) int_add_0 to_size_def)
    moreover have "?P (?q, e1, c)" using R(3) by (auto simp: echo_ok_def SetSocketError_def buffer_ok_def split: option.splits)
    ultimately show "\<exists>y. async_echo_pass os (nNumBytesToReceive thData) x = Returns y
        \<and> (case y of (p, e, c) \<Rightarrow> c \<noteq> nTotalPayloadSize thData) \<and> ?P y"
      using assms(6) by (intro exI [of _ "(?q, e1, c)"]) simp
  qed
  show "do_while (async_client_pass os) (\<lambda>(s, e, n). sint n \<noteq> int (length TEST_PACKET)) (p, e, c) = Diverges"
  proof (rule do_while_diverges [where P = ?P, OF start])
    fix x :: "cactive \<times> 'a env \<times> int32"
    assume P: "?P x"
    obtain q f where x: "x = (q, f, c)" using P by (cases x) simp
    obtain p1 e1 where R: "Receive os MAX_PACKET None q f = Returns (0, None, p1, e1)"
      "\<And>c. echo_ok (m_socket p) (p1, e1, c)"
      by (rule Receive_peer_gone [OF assms(1), of q f c MAX_PACKET]) (use P x in simp_all)
    have "sint c \<noteq> 11"
      using assms(6) sint_inject [of c 11] by (simp add: thData_def TEST_PACKET_def)
    then show "\<exists>y. async_client_pass os x = Returns y
        \<and> (case y of (s, e, n) \<Rightarrow> sint n \<noteq> int (length TEST_PACKET)) \<and> ?P y"
      using R by (intro exI [of _ "(p1, e1, c)"]) (simp add: x async_client_pass_def TEST_PACKET_def)
  qed
qed

text \<open>A connection whose other end has been closed.\<close>

definition closed_os :: "unit os" where
  "closed_os =
     \<lparr>kernel = (\<lambda>c w. (ok 0, w)),
      clock = (\<lambda>w. (timeval_zero, w)), inet_addr = (\<lambda>p. 0), inet_ntoa = (\<lambda>a. []), uninit = (\<lambda>i. 0)\<rparr>"

theorem async_loops_spin_after_disconnect_witness:
  "do_while (async_echo_pass closed_os 1) (\<lambda>(p, e, c). c \<noteq> 11)
     (demo_active SocketTypeTcp 8, \<lparr>errno = 0, h_errno = 0, world = (), trace = []\<rparr>, 0) = Diverges"
proof -
  have "peer_gone closed_os fd" for fd by (simp add: peer_gone_def closed_os_def)
  from async_loops_spin_after_disconnect [OF this, of "demo_active SocketTypeTcp 8" "\<lparr>errno = 0, h_errno = 0, world = (), trace = []\<rparr>" 0]
  show ?thesis by (simp add: IsSocketValid_iff GetSocketType_def thData_def TEST_PACKET_def)
qed

end
