(* ===== verification/Async_Program.thy ===== *)
theory Async_Program imports Async_Threads begin

text \<open>
  \<open>RecvAsync.cpp\<close> from the creation of the server thread to the return of \<open>main\<close>, which ends the process and
  the server thread with it, since nobody joins that thread: the two threads take their turns in any order, through the loops
  of \<open>Async_Threads\<close> to the destructors. The \<open>sleep(1)\<close> by which \<open>main\<close> means to let the server
  listen first orders nothing: the client may call \<open>connect\<close> before the server has called \<open>listen\<close>, and is then refused.
\<close>

section \<open>The program\<close>

text \<open>
  Where the main thread is: before \<open>client.Initialize\<close>, before \<open>client.Open\<close>, after it, or
  returned; and the server thread: before \<open>socket.Initialize\<close>, in \<open>socket.Accept\<close>, in its loop, before
  \<open>socket.Close\<close>, or returned. The loops keep their own variables. \<open>connected\<close> says that \<open>client.Open\<close> has
  succeeded.
\<close>

datatype main_point = MainStarts | MainOpens | MainRuns | MainEnds

datatype thread_point = ThreadStarts | ThreadAccepts | ThreadRuns | ThreadCloses | ThreadEnds

record 'w program =
  main_at :: main_point
  thread_at :: thread_point
  listener :: cpassive
  connected :: bool
  loops :: "'w threads"

text \<open>
  The next turn of each thread. The objects are constructed in the memory that the state has for
  them.
\<close>

definition main_run :: "'w os \<Rightarrow> 'w program \<Rightarrow> 'w program outcome" where
  "main_run os x =
     (let t = loops x; e = (client_env t)\<lparr>world := shared t\<rparr>
      in case main_at x of
           MainStarts \<Rightarrow>
             (let (b, s1, e1) = Initialize os (CActiveSocket SocketTypeTcp (client t)) e;
                  (b2, s2, e2) = SetNonblocking os s1 e1
              in Returns (x\<lparr>main_at := MainOpens, loops := t\<lparr>client := s2, client_env := e2, shared := world e2\<rparr>\<rparr>))
         | MainOpens \<Rightarrow>
             obind (Open os (Some ''127.0.0.1'') 6789 (client t) e) (\<lambda>(opened, s', e').
               Returns (x\<lparr>main_at := MainRuns, connected := opened, loops := t\<lparr>client_at := if opened then ClientSends else ClientDone,
                          client := s', client_env := e', shared := world e'\<rparr>\<rparr>))
         | MainRuns \<Rightarrow>
             (if client_at t \<noteq> ClientDone then obind (client_run os t) (\<lambda>t'. Returns (x\<lparr>loops := t'\<rparr>))
              else (let (s', e') = CActiveSocket_destroy os (client t) e
                    in Returns (x\<lparr>main_at := MainEnds, loops := t\<lparr>client := s', client_env := e', shared := world e'\<rparr>\<rparr>)))
         | MainEnds \<Rightarrow> Returns x)"

definition thread_run :: "'w os \<Rightarrow> 'w program \<Rightarrow> 'w program outcome" where
  "thread_run os x =
     (let t = loops x; e = (server_env t)\<lparr>world := shared t\<rparr>
      in case thread_at x of
           ThreadStarts \<Rightarrow>
             (let (b, s1, e1) = Initialize os (CPassiveSocket SocketTypeTcp (listener x)) e;
                  (l, s2, e2) = Listen os (pszServerAddr thData) (nPort thData) 30000 s1 e1
              in Returns (x\<lparr>thread_at := ThreadAccepts, listener := s2, loops := t\<lparr>server_env := e2, shared := world e2\<rparr>\<rparr>))
         | ThreadAccepts \<Rightarrow>
             obind (Accept os (pClient t) (listener x) e) (\<lambda>(c, s', e').
               case c of
                 None \<Rightarrow> Returns (x\<lparr>thread_at := ThreadCloses, listener := s',
                            loops := t\<lparr>server_env := e', shared := world e'\<rparr>\<rparr>)
               | Some p \<Rightarrow> Returns (x\<lparr>thread_at := ThreadRuns, listener := s',
                            loops := t\<lparr>server_at := if 0 \<noteq> nTotalPayloadSize thData then ServerReceives else ServerDone,
                                       nBytesReceived := 0, pClient := p, server_env := e', shared := world e'\<rparr>\<rparr>))
         | ThreadRuns \<Rightarrow>
             (if server_at t \<noteq> ServerDone then obind (server_run os t) (\<lambda>t'. Returns (x\<lparr>loops := t'\<rparr>))
              else (let (p', e') = CActiveSocket_destroy os (pClient t) e
                    in Returns (x\<lparr>thread_at := ThreadCloses, loops := t\<lparr>pClient := p', server_env := e', shared := world e'\<rparr>\<rparr>)))
         | ThreadCloses \<Rightarrow>
             (let (c, s1, e1) = Close os (listener x) e; (s2, e2) = CPassiveSocket_destroy os s1 e1
              in Returns (x\<lparr>thread_at := ThreadEnds, listener := s2, loops := t\<lparr>server_env := e2, shared := world e2\<rparr>\<rparr>))
         | ThreadEnds \<Rightarrow> Returns x)"

text \<open>
  A turn of the server thread that can be taken now: while the process lives, the \<open>Accept\<close> when a client has
  connected, the server's \<open>Receive\<close> when there are bytes, any other always. The main thread can always go on: its
  socket does not block, and its \<open>Select\<close> comes when the connection can be written to.
\<close>

definition thread_ready :: "('w \<Rightarrow> byte list) \<Rightarrow> 'w program \<Rightarrow> bool" where
  "thread_ready up x \<longleftrightarrow> main_at x \<noteq> MainEnds \<and> thread_at x \<noteq> ThreadEnds
     \<and> (thread_at x = ThreadAccepts \<longrightarrow> connected x)
     \<and> (thread_at x = ThreadRuns \<and> server_at (loops x) = ServerReceives \<longrightarrow> up (shared (loops x)) \<noteq> [])"

inductive program_step :: "'w os \<Rightarrow> ('w \<Rightarrow> byte list) \<Rightarrow> 'w program \<Rightarrow> 'w program \<Rightarrow> bool"
  for os :: "'w os" and up :: "'w \<Rightarrow> byte list" where
  main_moves: "main_at x \<noteq> MainEnds \<Longrightarrow> main_run os x = Returns y \<Longrightarrow> program_step os up x y"
| thread_moves: "thread_ready up x \<Longrightarrow> thread_run os x = Returns y \<Longrightarrow> program_step os up x y"
| main_crashes: "main_at x \<noteq> MainEnds \<Longrightarrow> main_run os x = Faults u \<Longrightarrow>
    program_step os up x (x\<lparr>loops := (loops x)\<lparr>crashed := True\<rparr>\<rparr>)"
| thread_crashes: "thread_ready up x \<Longrightarrow> thread_run os x = Faults u \<Longrightarrow>
    program_step os up x (x\<lparr>loops := (loops x)\<lparr>crashed := True\<rparr>\<rparr>)"

section \<open>The system\<close>

text \<open>
  The calls that set up and take down a connection, and move none of its bytes.
\<close>

fun setup_call :: "syscall \<Rightarrow> bool" where
  "setup_call (Sys_send fd b f) = False"
| "setup_call (Sys_sendto fd b f a) = False"
| "setup_call (Sys_writev fd b n) = False"
| "setup_call (Sys_recv fd n f) = False"
| "setup_call (Sys_recvfrom fd n f) = False"
| "setup_call (Sys_lseek fd n k) = False"
| "setup_call (Sys_read fd n) = False"
| "setup_call c = True"

text \<open>
  No setup call is interrupted or touches the bytes of the connection; \<open>made\<close> counts the \<open>socket\<close> calls, and
  \<open>listening\<close> says that a \<open>listen\<close> has succeeded (until something is closed).
\<close>

definition setup_law :: "'w os \<Rightarrow> ('w \<Rightarrow> nat) \<Rightarrow> ('w \<Rightarrow> bool) \<Rightarrow> ('w \<Rightarrow> byte list) \<Rightarrow> ('w \<Rightarrow> byte list) \<Rightarrow> bool" where
  "setup_law os made listening up down \<longleftrightarrow>
     (\<forall>w. made (snd (clock os w)) = made w \<and> listening (snd (clock os w)) = listening w)
   \<and> (\<forall>c w. setup_call c \<longrightarrow>
        err (fst (kernel os c w)) \<noteq> Some EINTR
        \<and> up (snd (kernel os c w)) = up w \<and> down (snd (kernel os c w)) = down w
        \<and> made (snd (kernel os c w)) = made w + (case c of Sys_socket d t p \<Rightarrow> 1 | _ \<Rightarrow> 0)
        \<and> (case c of
             Sys_close fd \<Rightarrow> True
           | Sys_listen fd n \<Rightarrow> listening (snd (kernel os c w)) = (listening w \<or> ret (fst (kernel os c w)) = 0)
           | _ \<Rightarrow> listening (snd (kernel os c w)) = listening w))"

text \<open>
  The answers to the two threads, the server's descriptor being \<open>lfd\<close>, the client's \<open>cfd\<close>: \<open>accept\<close> gives the
  server's end \<open>sfd\<close>; \<open>bind\<close>, \<open>listen\<close> and \<open>fcntl\<close> succeed and the local name resolves. While nobody listens
  \<open>connect\<close> is refused; later it succeeds, at once or when \<open>select\<close> says so. The options may fail, and so may
  \<open>getpeername\<close> and \<open>close\<close>.
\<close>

definition answers_law :: "'w os \<Rightarrow> SOCKET \<Rightarrow> SOCKET \<Rightarrow> SOCKET \<Rightarrow> bool" where
  "answers_law os lfd cfd sfd \<longleftrightarrow>
     (\<forall>a w. ret (fst (kernel os (Sys_bind lfd a) w)) = 0)
   \<and> (\<forall>n w. ret (fst (kernel os (Sys_listen lfd n) w)) = 0)
   \<and> (\<forall>k n w. 0 \<le> sint (i32 (ret (fst (kernel os (Sys_fcntl cfd k n) w)))))
   \<and> (\<forall>n w. ret (fst (kernel os (Sys_fcntl cfd F_SETFL n) w)) = 0)
   \<and> (\<forall>w. i32 (ret (fst (kernel os (Sys_accept lfd) w))) = sfd \<and> err (fst (kernel os (Sys_accept lfd) w)) = None)"

definition connect_law :: "'w os \<Rightarrow> ('w \<Rightarrow> bool) \<Rightarrow> SOCKET \<Rightarrow> bool" where
  "connect_law os listening cfd \<longleftrightarrow>
     (\<forall>w. \<exists>he a. host (fst (kernel os (Sys_gethostbyname ''127.0.0.1'') w)) = Some he \<and> ipv4_entry he a \<and> a \<noteq> INADDR_NONE)
   \<and> (\<forall>a w. let r = fst (kernel os (Sys_connect cfd a) w) in
        if listening w then ret r = 0 \<or> ret r = -1 \<and> err r = Some EINPROGRESS
        else ret r = -1 \<and> err r = Some ECONNREFUSED)
   \<and> (\<forall>n t w. let r = fst (kernel os (Sys_select n {sint cfd} {sint cfd} {sint cfd} (Some t)) w) in
        i32 (ret r) \<noteq> 0 \<and> (\<exists>rd wr er. fdsets r = Some (rd, wr, er) \<and> sint cfd \<in> rd \<union> wr))
   \<and> (\<forall>w. ret (fst (kernel os (Sys_getsockopt cfd SOL_SOCKET SO_ERROR (LenVar 4)) w)) = 0)"

definition pair_law ::
  "'w os \<Rightarrow> ('w \<Rightarrow> nat) \<Rightarrow> ('w \<Rightarrow> bool) \<Rightarrow> SOCKET \<Rightarrow> SOCKET \<Rightarrow> SOCKET \<Rightarrow> ('w \<Rightarrow> byte list) \<Rightarrow> ('w \<Rightarrow> byte list) \<Rightarrow> bool" where
  "pair_law os made listening lfd cfd sfd up down \<longleftrightarrow>
     wire_law os cfd sfd up down \<and> setup_law os made listening up down \<and> answers_law os lfd cfd sfd \<and> connect_law os listening cfd
   \<and> lfd \<noteq> -1 \<and> cfd \<noteq> -1 \<and> sfd \<noteq> -1"

text \<open>
  A machine whose loopback works: the first \<open>socket\<close> call gives the descriptor \<open>a\<close>, the second \<open>b\<close>, and each
  can be the server's or the client's, whichever thread comes first.
\<close>

definition program_law ::
  "'w os \<Rightarrow> ('w \<Rightarrow> nat) \<Rightarrow> ('w \<Rightarrow> bool) \<Rightarrow> SOCKET \<Rightarrow> SOCKET \<Rightarrow> SOCKET \<Rightarrow> ('w \<Rightarrow> byte list) \<Rightarrow> ('w \<Rightarrow> byte list) \<Rightarrow> bool" where
  "program_law os made listening a b sfd up down \<longleftrightarrow>
     (\<forall>d t p w. i32 (ret (fst (kernel os (Sys_socket d t p) w))) = (if made w = 0 then a else b))
   \<and> pair_law os made listening a b sfd up down \<and> pair_law os made listening b a sfd up down"

lemma program_lawD:
  assumes "program_law os made listening a b sfd up down"
  shows "i32 (ret (fst (kernel os (Sys_socket d t p) w))) = (if made w = 0 then a else b)"
    "{lfd, cfd} = {a, b} \<Longrightarrow> pair_law os made listening lfd cfd sfd up down"
  using assms by (auto simp: program_law_def doubleton_eq_iff)

lemma pair_lawD:
  assumes "pair_law os made listening lfd cfd sfd up down"
  shows "wire_law os cfd sfd up down" "setup_law os made listening up down" "answers_law os lfd cfd sfd" "connect_law os listening cfd"
    "lfd \<noteq> -1" "cfd \<noteq> -1" "sfd \<noteq> -1"
  using assms by (simp_all add: pair_law_def)

lemma setup_clock:
  assumes "pair_law os made listening lfd cfd sfd up down"
  shows "up (snd (clock os w)) = up w" "down (snd (clock os w)) = down w" "made (snd (clock os w)) = made w"
    "listening (snd (clock os w)) = listening w"
  using pair_lawD(1,2) [OF assms] echo_law_clock [of os cfd down up] by (simp_all add: wire_law_def setup_law_def)

lemma setup_kernel:
  assumes "pair_law os made listening lfd cfd sfd up down" and "setup_call c"
  shows "up (snd (kernel os c w)) = up w" "down (snd (kernel os c w)) = down w"
  using pair_lawD(2) [OF assms(1)] assms(2) by (simp_all add: setup_law_def)

lemma setup_calls:
  assumes "pair_law os made listening lfd cfd sfd up down" and "setup_call c"
  shows "up (world (snd (invoke os c e))) = up (world e)" "down (world (snd (invoke os c e))) = down (world e)"
    "made (world (snd (invoke os c e))) = made (world e) + (case c of Sys_socket d t p \<Rightarrow> 1 | _ \<Rightarrow> 0)"
    "errno e \<noteq> EINTR \<Longrightarrow> errno (snd (invoke os c e)) \<noteq> EINTR"
  using pair_lawD(2) [OF assms(1)] assms(2)
  by (auto simp: setup_law_def snd_invoke set_errno_def split: option.splits)

lemma setup_listening:
  assumes "pair_law os made listening lfd cfd sfd up down"
  shows "listening (world (snd (invoke os (Sys_socket d t p) e))) = listening (world e)"
    "listening (world (snd (invoke os (Sys_setsockopt fd l k v) e))) = listening (world e)"
    "listening (world (snd (invoke os (Sys_bind fd ad) e))) = listening (world e)"
    "listening (world (snd (invoke os (Sys_fcntl fd m f) e))) = listening (world e)"
    "listening (world (snd (invoke os (Sys_gethostbyname h) e))) = listening (world e)"
    "listening (world (snd (invoke os (Sys_listen lfd n) e)))"
proof -
  have law: "case c of
             Sys_close fd \<Rightarrow> True
           | Sys_listen fd n \<Rightarrow> listening (snd (kernel os c w)) = (listening w \<or> ret (fst (kernel os c w)) = 0)
           | _ \<Rightarrow> listening (snd (kernel os c w)) = listening w" if "setup_call c" for c w
    using pair_lawD(2) [OF assms] that unfolding setup_law_def by blast
  show "listening (world (snd (invoke os (Sys_socket d t p) e))) = listening (world e)"
    using law [of "Sys_socket d t p" "world e"] by (simp add: snd_invoke)
  show "listening (world (snd (invoke os (Sys_setsockopt fd l k v) e))) = listening (world e)"
    using law [of "Sys_setsockopt fd l k v" "world e"] by (simp add: snd_invoke)
  show "listening (world (snd (invoke os (Sys_bind fd ad) e))) = listening (world e)"
    using law [of "Sys_bind fd ad" "world e"] by (simp add: snd_invoke)
  show "listening (world (snd (invoke os (Sys_fcntl fd m f) e))) = listening (world e)"
    using law [of "Sys_fcntl fd m f" "world e"] by (simp add: snd_invoke)
  show "listening (world (snd (invoke os (Sys_gethostbyname h) e))) = listening (world e)"
    using law [of "Sys_gethostbyname h" "world e"] by (simp add: snd_invoke)
  have "ret (fst (kernel os (Sys_listen lfd n) (world e))) = 0" using pair_lawD(3) [OF assms] by (simp add: answers_law_def)
  then show "listening (world (snd (invoke os (Sys_listen lfd n) e)))"
    using law [of "Sys_listen lfd n" "world e"] by (simp add: snd_invoke)
qed

lemma setup_answers:
  assumes "answers_law os lfd cfd sfd"
  shows "ret (fst (kernel os (Sys_bind lfd a) w)) = 0" and "ret (fst (kernel os (Sys_listen lfd n) w)) = 0"
    and "0 \<le> sint (i32 (ret (fst (kernel os (Sys_fcntl cfd k m) w))))"
    and "ret (fst (kernel os (Sys_fcntl cfd F_SETFL m) w)) = 0"
    and "i32 (ret (fst (kernel os (Sys_accept lfd) w))) = sfd" and "err (fst (kernel os (Sys_accept lfd) w)) = None"
  using assms by (simp_all add: answers_law_def)

section \<open>The setup\<close>

lemma server_setup:
  assumes law: "pair_law os made listening lfd cfd sfd up down"
    and fd: "\<And>w. made w = made (world e) \<Longrightarrow> i32 (ret (fst (kernel os (Sys_socket 2 1 0) w))) = lfd"
    and I: "Initialize os (CPassiveSocket SocketTypeTcp raw) e = (b, s1, e1)" and L: "Listen os ad p n s1 e1 = (l, s2, e2)"
  shows "m_socket s2 = lfd \<and> GetSocketType s2 = SocketTypeTcp \<and> listening (world e2)
    \<and> up (world e2) = up (world e) \<and> down (world e2) = down (world e) \<and> made (world e2) = Suc (made (world e))"
proof -
  note quiet = setup_calls [OF law] setup_clock [OF law] setup_listening [OF law]
  have 1: "m_socket s1 = lfd" "m_nSocketType s1 = SocketTypeTcp" "up (world e1) = up (world e)"
    "down (world e1) = down (world e)" "made (world e1) = Suc (made (world e))"
    using I
    by (auto simp: Initialize_def Let_def split_beta fst_invoke quiet timer_start_eq timer_end_eq fd
        TranslateSocketError_def SetSocketError_def CPassiveSocket_def CSimpleSocket_def SetConnectTimeout_def)
  let ?s2 = "fst (snd (Listen os ad p n s1 e1))" and ?e2 = "snd (snd (Listen os ad p n s1 e1))"
  have "m_socket ?s2 = lfd \<and> GetSocketType ?s2 = SocketTypeTcp \<and> listening (world ?e2)
      \<and> up (world ?e2) = up (world e1) \<and> down (world ?e2) = down (world e1) \<and> made (world ?e2) = made (world e1)"
    by (simp add: 1(1,2) Listen_def setsockopt_def Let_def split_beta fst_invoke quiet timer_start_eq timer_end_eq
        TranslateSocketError_def SetSocketError_def GetSocketType_def setup_answers(1,2) [OF pair_lawD(3) [OF law]])
  then show ?thesis using L 1 by simp
qed

lemma client_setup:
  assumes law: "pair_law os made listening lfd cfd sfd up down"
    and fd: "\<And>w. made w = made (world e) \<Longrightarrow> i32 (ret (fst (kernel os (Sys_socket 2 1 0) w))) = cfd"
    and I: "Initialize os (CActiveSocket SocketTypeTcp raw) e = (b, s1, e1)" and N: "SetNonblocking os s1 e1 = (b2, s2, e2)"
  shows "stream_end cfd s2 \<and> IsNonblocking s2 \<and> GetConnectTimeoutSec s2 = 1 \<and> errno e2 \<noteq> EINTR
    \<and> listening (world e2) = listening (world e)
    \<and> up (world e2) = up (world e) \<and> down (world e2) = down (world e) \<and> made (world e2) = Suc (made (world e))"
proof -
  note quiet = setup_calls [OF law] setup_clock [OF law] setup_listening [OF law]
  have 1: "m_socket s1 = cfd" "m_nSocketType s1 = SocketTypeTcp" "m_pBuffer s1 = None" "GetConnectTimeoutSec s1 = 1"
    "listening (world e1) = listening (world e)"
    "up (world e1) = up (world e)" "down (world e1) = down (world e)" "errno e1 \<noteq> EINTR" "made (world e1) = Suc (made (world e))"
    using I
    by (auto simp: Initialize_def Let_def split_beta fst_invoke quiet timer_start_eq timer_end_eq fd
        TranslateSocketError_def SetSocketError_def CActiveSocket_def CSimpleSocket_def SetConnectTimeout_def
        GetConnectTimeoutSec_def make_timeval_def)
  have "\<not> sint (i32 (ret (fst (kernel os (Sys_fcntl cfd F_GETFL 0) w)))) < 0" for w
    using setup_answers(3) [OF pair_lawD(3) [OF law], of F_GETFL 0 w] by simp
  then show ?thesis
    using N 1
    by (auto simp: SetNonblocking_def Let_def split_beta fst_invoke quiet setup_answers(4) [OF pair_lawD(3) [OF law]] pair_lawD(6) [OF law]
        stream_end_def buffer_ok_def IsNonblocking_def GetConnectTimeoutSec_def)
qed

text \<open>The wait for the connection, with the connect timeout.\<close>

lemma connect_select:
  assumes law: "pair_law os made listening lfd cfd sfd up down" and s: "m_socket s = cfd" and t: "0 < sint sec"
  obtains s' e' where "Select os sec usec s e = Returns (True, s', e')" "errno e' = 0"
    "up (world e') = up (world e)" "down (world e') = down (world e)"
proof -
  note quiet = setup_calls [OF law]
  have fd: "fd_in_range (m_socket s)" using pair_lawD(1) [OF law] s by (simp add: wire_law_def)
  obtain r e1 where i: "invoke os (select_call s sec usec) e = (r, e1)" by fastforce
  have r: "r = fst (kernel os (select_call s sec usec) (world e))" "e1 = snd (invoke os (select_call s sec usec) e)"
    using i by (simp_all flip: fst_invoke)
  have "let r = fst (kernel os (Sys_select n {sint cfd} {sint cfd} {sint cfd} (Some tv)) w) in
      i32 (ret r) \<noteq> 0 \<and> (\<exists>rd wr er. fdsets r = Some (rd, wr, er) \<and> sint cfd \<in> rd \<union> wr)" for n tv w
    using pair_lawD(4) [OF law] by (simp add: connect_law_def)
  from this [of "cfd + 1" "make_timeval sec usec" "world e"] have rdy: "i32 (ret r) \<noteq> 0" "ready r s"
    using t by (auto simp: r(1) select_call_def s ready_def stored_sets_def Let_def)
  obtain r2 e2 where j: "invoke os (so_error_call (after_select r s)) e1 = (r2, e2)" by fastforce
  have c: "so_error_call (after_select r s) = Sys_getsockopt cfd SOL_SOCKET SO_ERROR (LenVar 4)" by (simp add: so_error_call_def s)
  have e2: "r2 = fst (kernel os (Sys_getsockopt cfd SOL_SOCKET SO_ERROR (LenVar 4)) (world e1))"
    "e2 = snd (invoke os (Sys_getsockopt cfd SOL_SOCKET SO_ERROR (LenVar 4)) e1)"
    using j by (simp_all add: c flip: fst_invoke)
  have "let (r, w') = kernel os (Sys_getsockopt cfd SOL_SOCKET SO_ERROR (LenVar 4)) w in
      err r = None \<and> data r = to_bytes32 0 \<and> up w' = up w \<and> down w' = down w" for w
    using pair_lawD(1) [OF law] unfolding wire_law_def by blast
  from this [of "world e1"] have r2: "data r2 = to_bytes32 0" by (simp add: e2(1) split_beta)
  have ret: "ret r2 = 0" using pair_lawD(4) [OF law] by (simp add: connect_law_def e2(1))
  have "Select os sec usec s e = Returns (True, TranslateSocketError (after_select r s) (e2\<lparr>errno := 0\<rparr>), e2\<lparr>errno := 0\<rparr>)"
    using rdy by (simp add: Select_eq [OF fd] i fetch_error_def j ret r2 Let_def)
  then show thesis
    by (rule that) (simp_all add: e2(2) r(2) quiet select_call_def)
qed

text \<open>The connection: the call, what \<open>ConnectTCP\<close> makes of its answer, and the two ways that it ends.\<close>

lemma client_calls_connect:
  assumes law: "pair_law os made listening lfd cfd sfd up down" and s: "stream_end cfd s" "IsNonblocking s" "GetConnectTimeoutSec s = 1"
    and e: "errno e \<noteq> EINTR"
  obtains r s3 e3 where "ConnectTCP os ''127.0.0.1'' 6789 s e =
      obind (if (r :: int32) = -1
        then if IsNonblocking s3 \<and> (GetSocketError s3 = SocketEwouldblock \<or> GetSocketError s3 = SocketEinprogress)
             then Select os (GetConnectTimeoutSec s3) (GetConnectTimeoutUSec s3) s3 e3 else Returns (False, s3, e3)
        else Returns (True, s3, e3)) (\<lambda>(b, s4, e4). Returns (b, timer_end os s4 e4))"
    "if listening (world e) then r = 0 \<or> r = -1 \<and> GetSocketError s3 = SocketEinprogress
     else r = -1 \<and> GetSocketError s3 = SocketConnectionRefused"
    "m_socket s3 = cfd" "IsNonblocking s3" "GetConnectTimeoutSec s3 = 1"
    "errno e3 \<noteq> EINTR" "up (world e3) = up (world e)" "down (world e3) = down (world e)"
proof -
  note quiet = setup_calls [OF law] setup_clock [OF law] setup_listening [OF law]
  let ?h = "Sys_gethostbyname ''127.0.0.1''"
  have "\<exists>he a. host (fst (kernel os ?h w)) = Some he \<and> ipv4_entry he a \<and> a \<noteq> INADDR_NONE" for w
    using pair_lawD(4) [OF law] by (simp add: connect_law_def)
  then obtain he a where he: "host (fst (kernel os ?h (world e))) = Some he" "ipv4_entry he a" "a \<noteq> INADDR_NONE" by blast
  obtain s1 where R: "resolve_server os ''127.0.0.1'' 6789 s e = Returns (True, s1, snd (invoke os ?h e))"
    "m_socket s1 = cfd" "IsNonblocking s1" "GetConnectTimeoutSec s1 = 1"
    using he s unfolding INADDR_NONE_eq
    by (simp add: resolve_server_def Let_def split_beta fst_invoke copy_ip_address_ipv4 stream_end_def IsNonblocking_def
        GetConnectTimeoutSec_def)
  define s2 where "s2 = fst (timer_start os s1 (snd (invoke os ?h e)))"
  define e2 where "e2 = snd (timer_start os s1 (snd (invoke os ?h e)))"
  define c where "c = Sys_connect (m_socket s2) (m_stServerSockaddr s2)"
  define e3 where "e3 = snd (invoke os c e2)"
  define s3 where "s3 = TranslateSocketError s2 e3"
  have e2: "errno e2 \<noteq> EINTR" "up (world e2) = up (world e)" "down (world e2) = down (world e)" "listening (world e2) = listening (world e)"
    using e by (simp_all add: e2_def timer_start_eq quiet)
  have e3: "errno e3 \<noteq> EINTR" "up (world e3) = up (world e)" "down (world e3) = down (world e)"
    using e2 by (simp_all add: e3_def c_def quiet)
  have s3: "m_socket s3 = cfd" "IsNonblocking s3" "GetConnectTimeoutSec s3 = 1"
    using R(2-) by (simp_all add: s3_def s2_def timer_start_eq TranslateSocketError_def SetSocketError_def IsNonblocking_def
        GetConnectTimeoutSec_def)
  have c': "c = Sys_connect cfd (m_stServerSockaddr s2)" using R(2) by (simp add: c_def s2_def timer_start_eq)
  have "let r = fst (kernel os (Sys_connect cfd a) w) in
        if listening w then ret r = 0 \<or> ret r = -1 \<and> err r = Some EINPROGRESS
        else ret r = -1 \<and> err r = Some ECONNREFUSED" for a w
    using pair_lawD(4) [OF law] by (simp add: connect_law_def)
  from this [of "m_stServerSockaddr s2" "world e2"]
  have "if listening (world e) then i32 (ret (fst (kernel os c (world e2)))) = 0
       \<or> i32 (ret (fst (kernel os c (world e2)))) = -1 \<and> GetSocketError s3 = SocketEinprogress
     else i32 (ret (fst (kernel os c (world e2)))) = -1 \<and> GetSocketError s3 = SocketConnectionRefused"
    by (auto simp: c' s3_def e3_def snd_invoke set_errno_def TranslateSocketError_def e2(4) Let_def
        SetSocketError_def GetSocketError_def translate_errno_def split: if_splits)
  moreover have "ConnectTCP os ''127.0.0.1'' 6789 s e =
      obind (if i32 (ret (fst (kernel os c (world e2)))) = -1
        then if IsNonblocking s3 \<and> (GetSocketError s3 = SocketEwouldblock \<or> GetSocketError s3 = SocketEinprogress)
             then Select os (GetConnectTimeoutSec s3) (GetConnectTimeoutUSec s3) s3 e3 else Returns (False, s3, e3)
        else Returns (True, s3, e3)) (\<lambda>(b, s4, e4). Returns (b, timer_end os s4 e4))"
    by (auto simp: ConnectTCP_def R(1) Let_def split_beta fst_invoke simp flip: s2_def e2_def c_def e3_def s3_def)
  ultimately show thesis using s3 e3 by (intro that) assumption+
qed

lemma client_connects:
  assumes law: "pair_law os made listening lfd cfd sfd up down" and s: "stream_end cfd s" "IsNonblocking s" "GetConnectTimeoutSec s = 1"
    and e: "errno e \<noteq> EINTR" and "listening (world e)"
  obtains s' e' where "ConnectTCP os ''127.0.0.1'' 6789 s e = Returns (True, s', e')"
    "errno e' \<noteq> EINTR" "up (world e') = up (world e)" "down (world e') = down (world e)"
proof -
  note quiet = setup_calls [OF law] setup_clock [OF law]
  obtain r s3 e3 where C: "ConnectTCP os ''127.0.0.1'' 6789 s e =
      obind (if (r :: int32) = -1
        then if IsNonblocking s3 \<and> (GetSocketError s3 = SocketEwouldblock \<or> GetSocketError s3 = SocketEinprogress)
             then Select os (GetConnectTimeoutSec s3) (GetConnectTimeoutUSec s3) s3 e3 else Returns (False, s3, e3)
        else Returns (True, s3, e3)) (\<lambda>(b, s4, e4). Returns (b, timer_end os s4 e4))"
    "r = 0 \<or> r = -1 \<and> GetSocketError s3 = SocketEinprogress"
    "m_socket s3 = cfd" "IsNonblocking s3" "GetConnectTimeoutSec s3 = 1"
    "errno e3 \<noteq> EINTR" "up (world e3) = up (world e)" "down (world e3) = down (world e)"
    by (rule client_calls_connect [OF law s e]) (use assms(6) in simp)
  obtain s4 e4 where S: "(if r = -1
        then if IsNonblocking s3 \<and> (GetSocketError s3 = SocketEwouldblock \<or> GetSocketError s3 = SocketEinprogress)
             then Select os (GetConnectTimeoutSec s3) (GetConnectTimeoutUSec s3) s3 e3 else Returns (False, s3, e3)
        else Returns (True, s3, e3)) = Returns (True, s4, e4)"
    "errno e4 \<noteq> EINTR" "up (world e4) = up (world e)" "down (world e4) = down (world e)"
    using C(2)
  proof
    assume r: "r = 0"
    then have "r \<noteq> -1" by simp
    with C(6-) show thesis by (intro that [of s3 e3]) simp_all
  next
    assume "r = -1 \<and> GetSocketError s3 = SocketEinprogress"
    moreover obtain s' e' where "Select os (GetConnectTimeoutSec s3) (GetConnectTimeoutUSec s3) s3 e3 = Returns (True, s', e')"
      "errno e' = 0" "up (world e') = up (world e3)" "down (world e') = down (world e3)"
      by (rule connect_select [OF law C(3), of "GetConnectTimeoutSec s3"]) (simp add: C(5))
    ultimately show thesis using C(4-) by (intro that [of s' e']) simp_all
  qed
  obtain s5 e5 where te: "timer_end os s4 e4 = (s5, e5)" by fastforce
  have "ConnectTCP os ''127.0.0.1'' 6789 s e = Returns (True, s5, e5)" unfolding C(1) S(1) by (simp add: te)
  moreover have "errno e5 \<noteq> EINTR" "up (world e5) = up (world e)" "down (world e5) = down (world e)"
    using te S(2-) by (auto simp: timer_end_eq quiet)
  ultimately show thesis by (rule that)
qed

lemma client_refused:
  assumes law: "pair_law os made listening lfd cfd sfd up down" and s: "stream_end cfd s" "IsNonblocking s" "GetConnectTimeoutSec s = 1"
    and e: "errno e \<noteq> EINTR" and "\<not> listening (world e)"
  obtains s' e' where "Open os (Some ''127.0.0.1'') 6789 s e = Returns (False, s', e')"
proof -
  obtain r s3 e3 where C: "ConnectTCP os ''127.0.0.1'' 6789 s e =
      obind (if (r :: int32) = -1
        then if IsNonblocking s3 \<and> (GetSocketError s3 = SocketEwouldblock \<or> GetSocketError s3 = SocketEinprogress)
             then Select os (GetConnectTimeoutSec s3) (GetConnectTimeoutUSec s3) s3 e3 else Returns (False, s3, e3)
        else Returns (True, s3, e3)) (\<lambda>(b, s4, e4). Returns (b, timer_end os s4 e4))"
    "r = -1" "GetSocketError s3 = SocketConnectionRefused"
    by (rule client_calls_connect [OF law s e]) (use assms(6) in simp)
  show thesis
    using s(1) pair_lawD(6) [OF law] C(2,3)
    by (intro that [of "fst (timer_end os s3 e3)" "snd (timer_end os s3 e3)"])
       (simp add: Open_def C(1) IsSocketValid_iff stream_end_def split_beta)
qed

lemma client_opens:
  assumes law: "pair_law os made listening lfd cfd sfd up down" and s: "stream_end cfd s" "IsNonblocking s" "GetConnectTimeoutSec s = 1"
    and e: "errno e \<noteq> EINTR" and "listening (world e)"
  obtains s' e' where "Open os (Some ''127.0.0.1'') 6789 s e = Returns (True, s', e')" "stream_end cfd s'"
    "errno e' \<noteq> EINTR" "up (world e') = up (world e)" "down (world e') = down (world e)"
proof -
  obtain s5 e5 where "ConnectTCP os ''127.0.0.1'' 6789 s e = Returns (True, s5, e5)"
    "errno e5 \<noteq> EINTR" "up (world e5) = up (world e)" "down (world e5) = down (world e)"
    by (rule client_connects [OF law s e assms(6)])
  then have O: "Open os (Some ''127.0.0.1'') 6789 s e
      = Returns (True, fst (store_addresses os s5 e5), snd (store_addresses os s5 e5))"
    "errno (snd (store_addresses os s5 e5)) \<noteq> EINTR" "up (world (snd (store_addresses os s5 e5))) = up (world e)"
    "down (world (snd (store_addresses os s5 e5))) = down (world e)"
    using s(1) pair_lawD(6) [OF law]
    by (simp_all add: Open_def IsSocketValid_iff stream_end_def Let_def split_beta store_addresses_def setup_calls [OF law])
  have "stream_end cfd (fst (store_addresses os s5 e5))"
    using Open_undisturbed [OF O(1)] s(1) buffer_ok_cong [of "fst (store_addresses os s5 e5)" s]
    by (auto simp: undisturbed_def same_object_def stream_end_def)
  then show thesis by (rule that [OF O(1) _ O(2-4)])
qed

lemma server_accepts:
  assumes law: "pair_law os made listening lfd cfd sfd up down" and s: "m_socket s = lfd" "GetSocketType s = SocketTypeTcp"
  obtains p s' e' where "Accept os raw s e = Returns (Some p, s', e')" "stream_end sfd p"
    "errno e' \<noteq> EINTR" "up (world e') = up (world e)" "down (world e') = down (world e)"
proof -
  note quiet = setup_calls [OF law] setup_clock [OF law] and accepts = setup_answers(5,6) [OF pair_lawD(3) [OF law]]
  let ?p = "CActiveSocket SocketTypeTcp raw"
  obtain s1 e1 where t: "timer_start os s e = (s1, e1)" by fastforce
  then have s1: "m_socket s1 = lfd" "up (world e1) = up (world e)" "down (world e1) = down (world e)"
    using s by (auto simp: timer_start_eq quiet)
  have p: "m_nSocketType ?p = SocketTypeTcp" "m_pBuffer ?p = None"
    by (simp_all add: CActiveSocket_def CSimpleSocket_def SetConnectTimeout_def Let_def)
  obtain p1 s2 e2 where A: "accept_attempt os (?p, s1, e1, SocketSuccess) = Returns (p1, s2, e2, SocketSuccess)"
    "m_socket p1 = sfd" "m_nSocketType p1 = SocketTypeTcp" "m_pBuffer p1 = None" "errno e2 \<noteq> EINTR"
    "up (world e2) = up (world e)" "down (world e2) = down (world e)"
    using s1 accepts pair_lawD(7) [OF law] p
    by (cases "addr (fst (kernel os (Sys_accept lfd) (world e1)))")
       (simp_all add: accept_attempt_def Let_def split_beta fst_invoke quiet TranslateSocketError_def SetSocketError_def
         GetSocketError_def SetSocketHandle_def translate_errno_def snd_invoke [of os "Sys_accept lfd"] set_errno_None
         setup_kernel [OF law])
  have "do_while (accept_attempt os) accept_interrupted (?p, s1, e1, SocketSuccess) = Returns (p1, s2, e2, SocketSuccess)"
    by (rule accept.settles [OF A(1)]) simp
  moreover obtain s3 e3 where te: "timer_end os s2 e2 = (s3, e3)" by fastforce
  ultimately have "Accept os raw s e = Returns (Some p1, s3, e3)"
    using s(2) by (simp add: Accept_def t GetSocketType_def)
  moreover have "errno e3 \<noteq> EINTR" "up (world e3) = up (world e)" "down (world e3) = down (world e)"
    using te A(5-) by (auto simp: timer_end_eq quiet)
  moreover have "stream_end sfd p1" using A(2-4) pair_lawD(7) [OF law] by (simp add: stream_end_def buffer_ok_def)
  ultimately show thesis using that by blast
qed

text \<open>Closing moves no bytes.\<close>

lemma Close_setup:
  assumes law: "pair_law os made listening lfd cfd sfd up down"
  shows "up (world (snd (snd (Close os s e)))) = up (world e)" "down (world (snd (snd (Close os s e)))) = down (world e)"
  by (simp_all add: Close_eq Let_def split_beta setup_calls [OF law])

section \<open>The invariant\<close>

text \<open>The loops with other objects at their two ends, while a thread is not in its loop.\<close>

definition ends :: "cactive \<Rightarrow> 'w env \<Rightarrow> cactive \<Rightarrow> 'w env \<Rightarrow> 'w threads \<Rightarrow> 'w threads" where
  "ends q d p f t = t\<lparr>client := q, client_env := d, pClient := p, server_env := f\<rparr>"

lemma ends_sel [simp]:
  "client_at (ends q d p f t) = client_at t" "client (ends q d p f t) = q" "client_env (ends q d p f t) = d"
  "bytesReceived (ends q d p f t) = bytesReceived t" "printed (ends q d p f t) = printed t" "server_at (ends q d p f t) = server_at t"
  "pClient (ends q d p f t) = p" "server_env (ends q d p f t) = f" "nBytesReceived (ends q d p f t) = nBytesReceived t"
  "shared (ends q d p f t) = shared t" "crashed (ends q d p f t) = crashed t"
  by (simp_all add: ends_def)

lemma ends_own: "ends (client t) (client_env t) (pClient t) (server_env t) t = t"
  by (simp add: ends_def)

lemma client_run_ends:
  "client_run os (ends (client t) (client_env t) p f t) =
     map_outcome (\<lambda>t'. ends (client t') (client_env t') p f t') (client_run os t)"
  by (cases "client_at t") (auto simp: client_run_def ends_def Let_def map_obind intro!: obind_cong_Returns)

lemma server_run_ends:
  "server_run os (ends q d (pClient t) (server_env t) t) =
     map_outcome (\<lambda>t'. ends q d (pClient t') (server_env t') t') (server_run os t)"
  by (cases "server_at t") (auto simp: server_run_def ends_def Let_def map_obind intro!: obind_cong_Returns)

lemma run_frames:
  "client_run os t = Returns y \<Longrightarrow> server_at y = server_at t \<and> nBytesReceived y = nBytesReceived t \<and> pClient y = pClient t \<and> server_env y = server_env t"
  "server_run os t = Returns y \<Longrightarrow> client_at y = client_at t \<and> client y = client t \<and> client_env y = client_env t"
  by (cases "client_at t"; auto simp: client_run_def Let_def obind_eq_Returns)
     (cases "server_at t"; auto simp: server_run_def Let_def obind_eq_Returns)

lemma threads_ok_at:
  assumes "threads_ok cfd0 sfd up down (ends q d p f t)" and "echo_ok cfd (q', d', 0)" and "echo_ok sfd (p', f', 0)"
    and "server_at t = ServerSends \<Longrightarrow> p' = p" and "up w = up (shared t)" and "down w = down (shared t)"
  shows "threads_ok cfd sfd up down (ends q' d' p' f' t\<lparr>shared := w\<rparr>)"
proof -
  have "pending (ends q' d' p' f' t\<lparr>shared := w\<rparr>) = pending (ends q d p f t)" using assms(4) by (simp add: pending_def ends_def)
  then show ?thesis using assms by (simp add: threads_ok_def) (auto simp: ends_def)
qed

lemma threads_ok_echo:
  assumes "threads_ok cfd sfd up down (ends q d p f t)"
  shows "echo_ok cfd (q, d, 0)" "echo_ok sfd (p, f, 0)"
  using assms by (simp_all add: threads_ok_def)

text \<open>
  Main goes on with a client that was refused.
\<close>

definition refused :: "'w program \<Rightarrow> bool" where
  "refused x \<longleftrightarrow> main_at x \<in> {MainRuns, MainEnds} \<and> \<not> connected x"

text \<open>
  The invariant of the program while the client was not refused: the loops are in order with some objects at their ends, which are the
  ones of a thread that is in its loop; what each thread has set up when it gets there; who listens; and,
  until both threads have their sockets, how many there are and whose is the first, \<open>a\<close>.
\<close>

definition running_ok ::
  "('w \<Rightarrow> nat) \<Rightarrow> ('w \<Rightarrow> bool) \<Rightarrow> SOCKET \<Rightarrow> SOCKET \<Rightarrow> SOCKET \<Rightarrow> SOCKET \<Rightarrow> ('w \<Rightarrow> byte list) \<Rightarrow> ('w \<Rightarrow> byte list) \<Rightarrow> 'w program \<Rightarrow> bool" where
  "running_ok made listening a lfd cfd sfd up down x \<longleftrightarrow>
     (\<exists>q d p f. threads_ok cfd sfd up down (ends q d p f (loops x))
        \<and> (main_at x = MainRuns \<longrightarrow> q = client (loops x) \<and> d = client_env (loops x))
        \<and> (thread_at x = ThreadRuns \<longrightarrow> p = pClient (loops x) \<and> f = server_env (loops x)))
   \<and> (main_at x \<in> {MainStarts, MainOpens} \<longrightarrow> client_at (loops x) = ClientSends \<and> thread_at x \<in> {ThreadStarts, ThreadAccepts}
        \<and> listening (shared (loops x)) = (thread_at x \<noteq> ThreadStarts))
   \<and> (connected x \<longleftrightarrow> main_at x \<in> {MainRuns, MainEnds}) \<and> (connected x \<longrightarrow> thread_at x \<noteq> ThreadStarts)
   \<and> (main_at x = MainStarts \<longrightarrow> (if thread_at x = ThreadStarts then made (shared (loops x)) = 0
        else made (shared (loops x)) = 1 \<and> lfd = a))
   \<and> (main_at x = MainOpens \<longrightarrow> stream_end cfd (client (loops x)) \<and> IsNonblocking (client (loops x))
        \<and> GetConnectTimeoutSec (client (loops x)) = 1 \<and> errno (client_env (loops x)) \<noteq> EINTR
        \<and> (thread_at x = ThreadStarts \<longrightarrow> made (shared (loops x)) = 1 \<and> cfd = a))
   \<and> (main_at x = MainEnds \<longrightarrow> client_at (loops x) = ClientDone)
   \<and> (thread_at x \<in> {ThreadStarts, ThreadAccepts} \<longrightarrow> server_at (loops x) = ServerReceives \<and> nBytesReceived (loops x) = 0)
   \<and> (thread_at x = ThreadAccepts \<longrightarrow> m_socket (listener x) = lfd \<and> GetSocketType (listener x) = SocketTypeTcp)
   \<and> (thread_at x \<in> {ThreadCloses, ThreadEnds} \<longrightarrow> server_at (loops x) = ServerDone)"

text \<open>After a refusal the client is over and nothing is printed; the server may still come to its \<open>Accept\<close>.\<close>

definition refused_ok :: "'w program \<Rightarrow> bool" where
  "refused_ok x \<longleftrightarrow> \<not> crashed (loops x) \<and> printed (loops x) = [] \<and> client_at (loops x) = ClientDone
     \<and> thread_at x \<in> {ThreadStarts, ThreadAccepts}"

definition program_ok ::
  "('w \<Rightarrow> nat) \<Rightarrow> ('w \<Rightarrow> bool) \<Rightarrow> SOCKET \<Rightarrow> SOCKET \<Rightarrow> SOCKET \<Rightarrow> ('w \<Rightarrow> byte list) \<Rightarrow> ('w \<Rightarrow> byte list) \<Rightarrow> 'w program \<Rightarrow> bool" where
  "program_ok made listening a b sfd up down x \<longleftrightarrow>
     (if refused x then refused_ok x
      else \<exists>lfd cfd. {lfd, cfd} = {a, b} \<and> running_ok made listening a lfd cfd sfd up down x)"

lemma running_not_refused: "running_ok made listening a lfd cfd sfd up down x \<Longrightarrow> \<not> refused x"
  unfolding refused_def running_ok_def by blast

lemma program_ok_running:
  assumes "{lfd, cfd} = {a, b}" and "running_ok made listening a lfd cfd sfd up down x"
  shows "program_ok made listening a b sfd up down x"
  unfolding program_ok_def if_not_P [OF running_not_refused [OF assms(2)]] using assms by (intro exI conjI)

text \<open>A bound of the turns that remain.\<close>

definition program_left :: "('w \<Rightarrow> byte list) \<Rightarrow> ('w \<Rightarrow> byte list) \<Rightarrow> 'w program \<Rightarrow> nat" where
  "program_left up down x =
     (case main_at x of MainStarts \<Rightarrow> 3 | MainOpens \<Rightarrow> 2 | MainRuns \<Rightarrow> 1 | MainEnds \<Rightarrow> 0)
     + (case thread_at x of ThreadStarts \<Rightarrow> 4 | ThreadAccepts \<Rightarrow> 3 | ThreadRuns \<Rightarrow> 2 | ThreadCloses \<Rightarrow> 1 | ThreadEnds \<Rightarrow> 0)
     + left_to_do up down (loops x)"

lemma left_to_do_at:
  assumes "server_at t = ServerSends \<Longrightarrow> p = pClient t" and "up w = up (shared t)" and "down w = down (shared t)"
  shows "left_to_do up down (ends q d p f t\<lparr>shared := w\<rparr>) = left_to_do up down t"
  using assms by (simp add: left_to_do_def pending_def ends_def)

lemma left_to_do_ends:
  "(server_at t = ServerSends \<Longrightarrow> p = pClient t) \<Longrightarrow> left_to_do up down (ends q d p f t) = left_to_do up down t"
  by (simp add: left_to_do_def pending_def)

section \<open>Turns\<close>

lemma echo_okI: "stream_end fd p \<Longrightarrow> errno e \<noteq> EINTR \<Longrightarrow> echo_ok fd (p, e, c)"
  by (simp add: stream_end_def echo_ok_def)

text \<open>The objects at the ends of the loops.\<close>

lemma running_ok_loops:
  assumes "running_ok made listening a lfd cfd sfd up down x"
  obtains q d p f where "threads_ok cfd sfd up down (ends q d p f (loops x))"
    "main_at x = MainRuns \<longrightarrow> q = client (loops x) \<and> d = client_env (loops x)"
    "thread_at x = ThreadRuns \<longrightarrow> p = pClient (loops x) \<and> f = server_env (loops x)"
  using assms unfolding running_ok_def by blast

lemma main_starts:
  assumes law: "program_law os made listening a b sfd up down" and roles: "{lfd, cfd} = {a, b}"
    and ok: "running_ok made listening a lfd cfd sfd up down x" and MainStarts: "main_at x = MainStarts"
  shows "\<exists>y. main_run os x = Returns y \<and> program_ok made listening a b sfd up down y \<and> program_left up down y < program_left up down x"
proof -
  let ?t = "loops x"
  let ?e = "(client_env ?t)\<lparr>world := shared ?t\<rparr>"
  obtain q d p f where t: "threads_ok cfd sfd up down (ends q d p f ?t)"
    "main_at x = MainRuns \<longrightarrow> q = client ?t \<and> d = client_env ?t" "thread_at x = ThreadRuns \<longrightarrow> p = pClient ?t \<and> f = server_env ?t"
    by (rule running_ok_loops [OF ok])
  have m: "client_at ?t = ClientSends" "\<not> connected x" "thread_at x \<in> {ThreadStarts, ThreadAccepts}"
    "listening (shared ?t) = (thread_at x \<noteq> ThreadStarts)"
    "if thread_at x = ThreadStarts then made (shared ?t) = 0 else made (shared ?t) = 1 \<and> lfd = a"
    using ok MainStarts by (auto simp: running_ok_def)
  define l c where lc: "l = (if thread_at x = ThreadStarts then b else a)" "c = (if thread_at x = ThreadStarts then a else b)"
  have new: "{l, c} = {a, b}" and old: "thread_at x \<noteq> ThreadStarts \<Longrightarrow> l = lfd \<and> c = cfd"
    using m(5) roles by (auto simp: lc doubleton_eq_iff split: if_splits)
  note pair = program_lawD(2) [OF law new]
  obtain r s1 e1 where I: "Initialize os (CActiveSocket SocketTypeTcp (client ?t)) ?e = (r, s1, e1)" by (metis prod_cases3)
  obtain r2 s2 e2 where N: "SetNonblocking os s1 e1 = (r2, s2, e2)" by (metis prod_cases3)
  have s2: "stream_end c s2" "IsNonblocking s2" "GetConnectTimeoutSec s2 = 1" "errno e2 \<noteq> EINTR" "listening (world e2) = listening (shared ?t)"
    "up (world e2) = up (shared ?t)" "down (world e2) = down (shared ?t)" "made (world e2) = Suc (made (shared ?t))"
    using client_setup [OF pair _ I N] program_lawD(1) [OF law, of 2 1 0] m(5) by (auto simp: lc split: if_splits)
  let ?y = "x\<lparr>main_at := MainOpens, loops := ?t\<lparr>client := s2, client_env := e2, shared := world e2\<rparr>\<rparr>"
  have "main_run os x = Returns ?y" by (simp add: main_run_def MainStarts I N)
  moreover have eq: "ends s2 e2 p f (loops ?y) = ends s2 e2 p f ?t\<lparr>shared := world e2\<rparr>" by (simp add: ends_def)
  have "threads_ok c sfd up down (ends s2 e2 p f (loops ?y))"
    unfolding eq by (rule threads_ok_at [OF t(1) echo_okI [OF s2(1,4)] threads_ok_echo(2) [OF t(1)] refl s2(6,7)])
  then have E: "\<exists>q d p f. threads_ok c sfd up down (ends q d p f (loops ?y))
      \<and> (main_at ?y = MainRuns \<longrightarrow> q = client (loops ?y) \<and> d = client_env (loops ?y))
      \<and> (thread_at ?y = ThreadRuns \<longrightarrow> p = pClient (loops ?y) \<and> f = server_env (loops ?y))"
    using m(3) MainStarts by (intro exI [of _ s2] exI [of _ e2] exI [of _ p] exI [of _ f]) auto
  have "running_ok made listening a l c sfd up down ?y"
    unfolding running_ok_def by (rule conjI, rule E, use ok s2 m old MainStarts in \<open>auto simp: running_ok_def lc\<close>)
  then have "program_ok made listening a b sfd up down ?y" by (rule program_ok_running [OF new])
  moreover have "program_left up down ?y < program_left up down x"
    using MainStarts s2(6,7) by (simp add: program_left_def left_to_do_def pending_def)
  ultimately show ?thesis by blast
qed

text \<open>The client's \<open>Open\<close> succeeds if and only if the server thread has listened.\<close>

lemma main_opens:
  assumes law: "program_law os made listening a b sfd up down" and roles: "{lfd, cfd} = {a, b}"
    and ok: "running_ok made listening a lfd cfd sfd up down x" and MainOpens: "main_at x = MainOpens"
  shows "\<exists>y. main_run os x = Returns y \<and> program_ok made listening a b sfd up down y \<and> main_at y = MainRuns
    \<and> connected y = (thread_at x \<noteq> ThreadStarts) \<and> (refused y \<or> program_left up down y < program_left up down x)"
proof -
  let ?t = "loops x"
  let ?e = "(client_env ?t)\<lparr>world := shared ?t\<rparr>"
  note pair = program_lawD(2) [OF law roles]
  obtain q d p f where t: "threads_ok cfd sfd up down (ends q d p f ?t)"
    "main_at x = MainRuns \<longrightarrow> q = client ?t \<and> d = client_env ?t" "thread_at x = ThreadRuns \<longrightarrow> p = pClient ?t \<and> f = server_env ?t"
    by (rule running_ok_loops [OF ok])
  have s: "stream_end cfd (client ?t)" "IsNonblocking (client ?t)" "GetConnectTimeoutSec (client ?t) = 1"
    "errno ?e \<noteq> EINTR" "client_at ?t = ClientSends" "thread_at x \<in> {ThreadStarts, ThreadAccepts}"
    "listening (world ?e) = (thread_at x \<noteq> ThreadStarts)"
    using ok MainOpens by (auto simp: running_ok_def)
  show ?thesis
  proof (cases "thread_at x = ThreadStarts")
    case True
    obtain s' e' where O: "Open os (Some ''127.0.0.1'') 6789 (client ?t) ?e = Returns (False, s', e')"
      by (rule client_refused [OF pair s(1-4)]) (use s(7) True in simp)
    let ?y = "x\<lparr>main_at := MainRuns, connected := False, loops := ?t\<lparr>client_at := ClientDone, client := s', client_env := e', shared := world e'\<rparr>\<rparr>"
    have "main_run os x = Returns ?y" by (simp add: main_run_def MainOpens O)
    moreover have "refused_ok ?y" using t(1) s(5,6) by (simp add: refused_ok_def threads_ok_def)
    moreover have "refused ?y" by (simp add: refused_def)
    ultimately show ?thesis using True by (intro exI [of _ ?y]) (simp add: program_ok_def)
  next
    case False
    obtain s' e' where O: "Open os (Some ''127.0.0.1'') 6789 (client ?t) ?e = Returns (True, s', e')" "stream_end cfd s'"
      "errno e' \<noteq> EINTR" "up (world e') = up (shared ?t)" "down (world e') = down (shared ?t)"
      by (rule client_opens [OF pair s(1-4)]) (use s(7) False in simp_all)
    let ?y = "x\<lparr>main_at := MainRuns, connected := True, loops := ?t\<lparr>client := s', client_env := e', shared := world e'\<rparr>\<rparr>"
    have "main_run os x = Returns ?y" using s(5) by (simp add: main_run_def MainOpens O(1))
    moreover have eq: "ends s' e' p f (loops ?y) = ends s' e' p f ?t\<lparr>shared := world e'\<rparr>" by (simp add: ends_def)
    have "threads_ok cfd sfd up down (ends s' e' p f (loops ?y))"
      unfolding eq by (rule threads_ok_at [OF t(1) echo_okI [OF O(2,3)] threads_ok_echo(2) [OF t(1)] refl O(4,5)])
    with ok have "running_ok made listening a lfd cfd sfd up down ?y"
      using s False MainOpens unfolding running_ok_def by auto
    then have "program_ok made listening a b sfd up down ?y" by (rule program_ok_running [OF roles])
    moreover have "program_left up down ?y < program_left up down x"
      using MainOpens O(4,5) by (simp add: program_left_def left_to_do_def pending_def)
    ultimately show ?thesis using False by (intro exI [of _ ?y]) simp
  qed
qed

lemma main_ends:
  assumes law: "program_law os made listening a b sfd up down" and roles: "{lfd, cfd} = {a, b}"
    and ok: "running_ok made listening a lfd cfd sfd up down x"
    and MainRuns: "main_at x = MainRuns" and over: "client_at (loops x) = ClientDone"
  shows "\<exists>y. main_run os x = Returns y \<and> program_ok made listening a b sfd up down y \<and> program_left up down y < program_left up down x"
proof -
  let ?t = "loops x"
  let ?e = "(client_env ?t)\<lparr>world := shared ?t\<rparr>"
  note pair = program_lawD(2) [OF law roles]
  obtain q d p f where t: "threads_ok cfd sfd up down (ends q d p f ?t)"
    "main_at x = MainRuns \<longrightarrow> q = client ?t \<and> d = client_env ?t" "thread_at x = ThreadRuns \<longrightarrow> p = pClient ?t \<and> f = server_env ?t"
    by (rule running_ok_loops [OF ok])
  note echo = threads_ok_echo [OF t(1)]
  obtain s' e' where D: "CActiveSocket_destroy os (client ?t) ?e = (s', e')" by fastforce
  then have w: "up (world e') = up (shared ?t)" "down (world e') = down (shared ?t)"
    using Close_setup [OF pair, of "client ?t" ?e] by (auto simp: CActiveSocket_destroy_def split_beta Let_def)
  let ?y = "x\<lparr>main_at := MainEnds, loops := ?t\<lparr>client := s', client_env := e', shared := world e'\<rparr>\<rparr>"
  have "main_run os x = Returns ?y" using over by (simp add: main_run_def MainRuns D)
  moreover have eq: "ends q d p f (loops ?y) = ends q d p f ?t\<lparr>shared := world e'\<rparr>" by (simp add: ends_def)
  have "threads_ok cfd sfd up down (ends q d p f (loops ?y))" unfolding eq by (rule threads_ok_at [OF t(1) echo refl w])
  with ok have "running_ok made listening a lfd cfd sfd up down ?y"
    using ok t(3) over MainRuns unfolding running_ok_def by auto
  then have "program_ok made listening a b sfd up down ?y" by (rule program_ok_running [OF roles])
  moreover have "program_left up down ?y < program_left up down x"
    using MainRuns w by (simp add: program_left_def left_to_do_def pending_def)
  ultimately show ?thesis by blast
qed

lemma refused_ends:
  assumes "refused x" and "refused_ok x" and "main_at x \<noteq> MainEnds"
  shows "\<exists>y. main_run os x = Returns y \<and> refused y \<and> refused_ok y \<and> main_at y = MainEnds"
proof -
  let ?t = "loops x"
  obtain s' e' where D: "CActiveSocket_destroy os (client ?t) ((client_env ?t)\<lparr>world := shared ?t\<rparr>) = (s', e')" by fastforce
  have "main_at x = MainRuns" using assms(1,3) by (auto simp: refused_def)
  then show ?thesis using assms(1,2) D by (auto simp: main_run_def refused_def refused_ok_def)
qed

lemma main_loops:
  assumes law: "program_law os made listening a b sfd up down" and roles: "{lfd, cfd} = {a, b}"
    and ok: "running_ok made listening a lfd cfd sfd up down x"
    and MainRuns: "main_at x = MainRuns" and going: "client_at (loops x) \<noteq> ClientDone"
  shows "\<exists>y. main_run os x = Returns y \<and> program_ok made listening a b sfd up down y
    \<and> (program_left up down y < program_left up down x
       \<or> client_at (loops x) = ClientReads \<and> down (shared (loops x)) = [] \<and> program_left up down y = program_left up down x)"
proof -
  let ?t = "loops x"
  let ?e = "(client_env ?t)\<lparr>world := shared ?t\<rparr>"
  note pair = program_lawD(2) [OF law roles]
  obtain q d p f where t: "threads_ok cfd sfd up down (ends q d p f ?t)"
    "main_at x = MainRuns \<longrightarrow> q = client ?t \<and> d = client_env ?t" "thread_at x = ThreadRuns \<longrightarrow> p = pClient ?t \<and> f = server_env ?t"
    by (rule running_ok_loops [OF ok])
  let ?v = "ends (client ?t) (client_env ?t) p f ?t"
  have v: "threads_ok cfd sfd up down ?v" using t(1,2) MainRuns by simp
  from client_runs [OF pair_lawD(1) [OF pair] v] going obtain z where z: "client_run os ?v = Returns z" "threads_ok cfd sfd up down z"
    "left_to_do up down z < left_to_do up down ?v \<or> idle_poll os down ?v z \<and> left_to_do up down z = left_to_do up down ?v"
    by auto
  then obtain y where y: "client_run os ?t = Returns y" "z = ends (client y) (client_env y) p f y"
    by (auto simp: client_run_ends map_outcome_eq_Returns)
  note fr = run_frames(1) [OF y(1)]
  have l: "left_to_do up down ?v = left_to_do up down ?t" "left_to_do up down z = left_to_do up down y"
  proof -
    have "p = pClient ?t" if "server_at ?t = ServerSends"
      using ok that t(3) by (cases "thread_at x") (auto simp: running_ok_def)
    then show "left_to_do up down ?v = left_to_do up down ?t" "left_to_do up down z = left_to_do up down y"
      using fr unfolding y(2) by (auto intro!: left_to_do_ends)
  qed
  let ?y = "x\<lparr>loops := y\<rparr>"
  have "main_run os x = Returns ?y" using going y(1) by (simp add: main_run_def MainRuns)
  moreover have "running_ok made listening a lfd cfd sfd up down ?y"
    using ok z(2) t(3) fr MainRuns unfolding y(2) running_ok_def by auto
  then have "program_ok made listening a b sfd up down ?y" by (rule program_ok_running [OF roles])
  ultimately show ?thesis
    using z(3) l MainRuns by (intro exI [of _ ?y]) (auto simp: program_left_def idle_poll_def)
qed

lemma main_runs:
  assumes law: "program_law os made listening a b sfd up down" and ok: "program_ok made listening a b sfd up down x"
    and rdy: "main_at x \<noteq> MainEnds"
  shows "\<exists>y. main_run os x = Returns y \<and> program_ok made listening a b sfd up down y
    \<and> (refused y \<or> program_left up down y < program_left up down x
       \<or> main_at x = MainRuns \<and> client_at (loops x) = ClientReads \<and> down (shared (loops x)) = []
         \<and> program_left up down y = program_left up down x)"
proof (cases "refused x")
  case True
  then show ?thesis using refused_ends [OF True _ rdy, of os] ok by (auto simp: program_ok_def)
next
  case False
  then obtain lfd cfd where r: "{lfd, cfd} = {a, b}" "running_ok made listening a lfd cfd sfd up down x"
    using ok by (auto simp: program_ok_def)
  show ?thesis
  proof (cases "main_at x")
    case MainStarts
    from main_starts [OF law r this] show ?thesis by blast
  next
    case MainOpens
    from main_opens [OF law r this] show ?thesis by blast
  next
    case MainRuns
    from main_ends [OF law r this] main_loops [OF law r this] MainRuns show ?thesis
      by (cases "client_at (loops x) = ClientDone") blast+
  qed (use rdy in simp)
qed

lemma thread_starts:
  assumes law: "program_law os made listening a b sfd up down" and roles: "{lfd, cfd} = {a, b}"
    and ok: "running_ok made listening a lfd cfd sfd up down x" and ThreadStarts: "thread_at x = ThreadStarts"
  shows "\<exists>y. thread_run os x = Returns y \<and> program_ok made listening a b sfd up down y \<and> program_left up down y < program_left up down x"
proof -
  let ?t = "loops x"
  let ?e = "(server_env ?t)\<lparr>world := shared ?t\<rparr>"
  let ?dummy = "(client_env ?t)\<lparr>errno := 0\<rparr>"
  obtain q d p f where t: "threads_ok cfd sfd up down (ends q d p f ?t)"
    "main_at x = MainRuns \<longrightarrow> q = client ?t \<and> d = client_env ?t" "thread_at x = ThreadRuns \<longrightarrow> p = pClient ?t \<and> f = server_env ?t"
    by (rule running_ok_loops [OF ok])
  have m: "main_at x \<in> {MainStarts, MainOpens}" "server_at ?t = ServerReceives" "client_at ?t = ClientSends" "\<not> connected x"
    using ok ThreadStarts by (cases "main_at x"; simp add: running_ok_def)+
  have n: "made (shared ?t) = (if main_at x = MainStarts then 0 else 1)" "main_at x = MainOpens \<Longrightarrow> cfd = a"
    using ok ThreadStarts m(1) by (auto simp: running_ok_def)
  have o: "nBytesReceived ?t = 0" "main_at x = MainOpens \<Longrightarrow> stream_end a (client ?t) \<and> IsNonblocking (client ?t)
      \<and> GetConnectTimeoutSec (client ?t) = 1 \<and> errno (client_env ?t) \<noteq> EINTR"
    using ok ThreadStarts by (auto simp: running_ok_def)
  define l c where lc: "l = (if main_at x = MainStarts then a else b)" "c = (if main_at x = MainStarts then b else a)"
  have new: "{l, c} = {a, b}" by (auto simp: lc)
  have old: "main_at x \<noteq> MainStarts \<Longrightarrow> c = cfd" using n(2) m(1) by (simp add: lc)
  note pair = program_lawD(2) [OF law new]
  obtain r s1 e1 where I: "Initialize os (CPassiveSocket SocketTypeTcp (listener x)) ?e = (r, s1, e1)" by (metis prod_cases3)
  obtain r2 s2 e2 where L: "Listen os (pszServerAddr thData) (nPort thData) 30000 s1 e1 = (r2, s2, e2)" by (metis prod_cases3)
  have s2: "m_socket s2 = l" "GetSocketType s2 = SocketTypeTcp" "listening (world e2)" "made (world e2) = Suc (made (shared ?t))"
    "up (world e2) = up (shared ?t)" "down (world e2) = down (shared ?t)"
    using server_setup [OF pair _ I L] program_lawD(1) [OF law, of 2 1 0] n(1) by (auto simp: lc split: if_splits)
  let ?y = "x\<lparr>thread_at := ThreadAccepts, listener := s2, loops := ?t\<lparr>server_env := e2, shared := world e2\<rparr>\<rparr>"
  have "thread_run os x = Returns ?y" by (simp add: thread_run_def ThreadStarts I L)
  moreover define q' d' where qd: "q' = (if main_at x = MainStarts then demo_active SocketTypeTcp c else q)"
    "d' = (if main_at x = MainStarts then ?dummy else d)"
  have q': "echo_ok c (q', d', 0)"
    using pair_lawD(6) [OF pair] threads_ok_echo(1) [OF t(1)] old by (simp add: qd echo_ok_def buffer_ok_def)
  have eq: "ends q' d' p f (loops ?y) = ends q' d' p f ?t\<lparr>shared := world e2\<rparr>" by (simp add: ends_def)
  have "threads_ok c sfd up down (ends q' d' p f (loops ?y))"
    unfolding eq by (rule threads_ok_at [OF t(1) q' threads_ok_echo(2) [OF t(1)] refl s2(5,6)])
  then have E: "\<exists>q d p f. threads_ok c sfd up down (ends q d p f (loops ?y))
      \<and> (main_at ?y = MainRuns \<longrightarrow> q = client (loops ?y) \<and> d = client_env (loops ?y))
      \<and> (thread_at ?y = ThreadRuns \<longrightarrow> p = pClient (loops ?y) \<and> f = server_env (loops ?y))"
    using m(1) by (intro exI [of _ q'] exI [of _ d'] exI [of _ p] exI [of _ f]) auto
  have "running_ok made listening a l c sfd up down ?y"
    unfolding running_ok_def by (rule conjI, rule E, use m(1) in \<open>auto simp: s2 m(2-4) n(1) o(1) lc dest: o(2)\<close>)
  then have "program_ok made listening a b sfd up down ?y" by (rule program_ok_running [OF new])
  moreover have "program_left up down ?y < program_left up down x"
    using ThreadStarts m(2) s2(5,6) by (simp add: program_left_def left_to_do_def pending_def)
  ultimately show ?thesis by blast
qed

lemma refused_listens:
  assumes "refused x" and "refused_ok x" and "thread_ready up x"
  shows "\<exists>y. thread_run os x = Returns y \<and> refused y \<and> refused_ok y"
proof -
  let ?e = "(server_env (loops x))\<lparr>world := shared (loops x)\<rparr>"
  have at: "thread_at x = ThreadStarts" using assms by (auto simp: refused_def refused_ok_def thread_ready_def)
  obtain r s1 e1 where I: "Initialize os (CPassiveSocket SocketTypeTcp (listener x)) ?e = (r, s1, e1)" by (metis prod_cases3)
  obtain r2 s2 e2 where L: "Listen os (pszServerAddr thData) (nPort thData) 30000 s1 e1 = (r2, s2, e2)" by (metis prod_cases3)
  show ?thesis using assms(1,2) by (simp add: thread_run_def at I L refused_def refused_ok_def)
qed

lemma thread_accepts:
  assumes law: "program_law os made listening a b sfd up down" and roles: "{lfd, cfd} = {a, b}"
    and ok: "running_ok made listening a lfd cfd sfd up down x"
    and ThreadAccepts: "thread_at x = ThreadAccepts" and rdy: "thread_ready up x"
  shows "\<exists>y. thread_run os x = Returns y \<and> program_ok made listening a b sfd up down y \<and> program_left up down y < program_left up down x"
proof -
  note pair = program_lawD(2) [OF law roles]
  let ?t = "loops x"
  let ?e = "(server_env ?t)\<lparr>world := shared ?t\<rparr>"
  obtain q d p f where t: "threads_ok cfd sfd up down (ends q d p f ?t)"
    "main_at x = MainRuns \<longrightarrow> q = client ?t \<and> d = client_env ?t" "thread_at x = ThreadRuns \<longrightarrow> p = pClient ?t \<and> f = server_env ?t"
    by (rule running_ok_loops [OF ok])
  note echo = threads_ok_echo [OF t(1)]
  have m: "main_at x = MainRuns" "m_socket (listener x) = lfd" "GetSocketType (listener x) = SocketTypeTcp"
    "server_at ?t = ServerReceives" "nBytesReceived ?t = 0"
    using ok rdy ThreadAccepts by (auto simp: running_ok_def thread_ready_def)
  obtain p' s' e' where A: "Accept os (pClient ?t) (listener x) ?e = Returns (Some p', s', e')" "stream_end sfd p'"
    "errno e' \<noteq> EINTR" "up (world e') = up (shared ?t)" "down (world e') = down (shared ?t)"
    by (rule server_accepts [OF pair m(2,3), where raw = "pClient ?t" and e = ?e]) simp
  let ?y = "x\<lparr>thread_at := ThreadRuns, listener := s', loops := ?t\<lparr>pClient := p', server_env := e', shared := world e'\<rparr>\<rparr>"
  have "thread_run os x = Returns ?y" using m(4,5) by (simp add: thread_run_def ThreadAccepts A(1) thData_def)
  moreover have eq: "ends q d p' e' (loops ?y) = ends q d p' e' ?t\<lparr>shared := world e'\<rparr>" by (simp add: ends_def)
  have "threads_ok cfd sfd up down (ends q d p' e' (loops ?y))"
    unfolding eq using m(4) by (intro threads_ok_at [OF t(1) echo(1) echo_okI [OF A(2,3)] _ A(4,5)]) simp
  with ok have "running_ok made listening a lfd cfd sfd up down ?y"
    using m t(2) ThreadAccepts unfolding running_ok_def by auto
  then have "program_ok made listening a b sfd up down ?y" by (rule program_ok_running [OF roles])
  moreover have "program_left up down ?y < program_left up down x"
    using ThreadAccepts m(4) A(4,5) by (simp add: program_left_def left_to_do_def pending_def)
  ultimately show ?thesis by blast
qed

lemma thread_leaves:
  assumes law: "program_law os made listening a b sfd up down" and roles: "{lfd, cfd} = {a, b}"
    and ok: "running_ok made listening a lfd cfd sfd up down x"
    and ThreadRuns: "thread_at x = ThreadRuns" and over: "server_at (loops x) = ServerDone"
  shows "\<exists>y. thread_run os x = Returns y \<and> program_ok made listening a b sfd up down y \<and> program_left up down y < program_left up down x"
proof -
  note pair = program_lawD(2) [OF law roles]
  let ?t = "loops x"
  let ?e = "(server_env ?t)\<lparr>world := shared ?t\<rparr>"
  obtain q d p f where t: "threads_ok cfd sfd up down (ends q d p f ?t)"
    "main_at x = MainRuns \<longrightarrow> q = client ?t \<and> d = client_env ?t" "thread_at x = ThreadRuns \<longrightarrow> p = pClient ?t \<and> f = server_env ?t"
    by (rule running_ok_loops [OF ok])
  note echo = threads_ok_echo [OF t(1)]
  obtain p' e' where D: "CActiveSocket_destroy os (pClient ?t) ?e = (p', e')" by fastforce
  then have w: "up (world e') = up (shared ?t)" "down (world e') = down (shared ?t)"
    using Close_setup [OF pair, of "pClient ?t" ?e] by (auto simp: CActiveSocket_destroy_def split_beta Let_def)
  let ?y = "x\<lparr>thread_at := ThreadCloses, loops := ?t\<lparr>pClient := p', server_env := e', shared := world e'\<rparr>\<rparr>"
  have "thread_run os x = Returns ?y" using over by (simp add: thread_run_def ThreadRuns D)
  moreover have eq: "ends q d p f (loops ?y) = ends q d p f ?t\<lparr>shared := world e'\<rparr>" by (simp add: ends_def)
  have "threads_ok cfd sfd up down (ends q d p f (loops ?y))" unfolding eq by (rule threads_ok_at [OF t(1) echo refl w])
  with ok have "running_ok made listening a lfd cfd sfd up down ?y"
    using t(2) over ThreadRuns unfolding running_ok_def by auto
  then have "program_ok made listening a b sfd up down ?y" by (rule program_ok_running [OF roles])
  moreover have "program_left up down ?y < program_left up down x"
    using ThreadRuns over w by (simp add: program_left_def left_to_do_def pending_def)
  ultimately show ?thesis by blast
qed

lemma thread_loops:
  assumes law: "program_law os made listening a b sfd up down" and roles: "{lfd, cfd} = {a, b}"
    and ok: "running_ok made listening a lfd cfd sfd up down x"
    and ThreadRuns: "thread_at x = ThreadRuns" and going: "server_at (loops x) \<noteq> ServerDone"
    and rdy: "thread_ready up x"
  shows "\<exists>y. thread_run os x = Returns y \<and> program_ok made listening a b sfd up down y \<and> program_left up down y < program_left up down x"
proof -
  note pair = program_lawD(2) [OF law roles]
  let ?t = "loops x"
  let ?e = "(server_env ?t)\<lparr>world := shared ?t\<rparr>"
  obtain q d p f where t: "threads_ok cfd sfd up down (ends q d p f ?t)"
    "main_at x = MainRuns \<longrightarrow> q = client ?t \<and> d = client_env ?t" "thread_at x = ThreadRuns \<longrightarrow> p = pClient ?t \<and> f = server_env ?t"
    by (rule running_ok_loops [OF ok])
  note echo = threads_ok_echo [OF t(1)]
  let ?v = "ends q d (pClient ?t) (server_env ?t) ?t"
  have v: "threads_ok cfd sfd up down ?v" using t(1,3) ThreadRuns by simp
  have go: "server_at ?v = ServerSends \<or> server_at ?v = ServerReceives \<and> up (shared ?v) \<noteq> []"
    using going rdy ThreadRuns by (cases "server_at ?t") (auto simp: thread_ready_def)
  from server_runs [OF pair_lawD(1) [OF pair] v go] obtain z where z: "server_run os ?v = Returns z" "threads_ok cfd sfd up down z"
    "left_to_do up down z < left_to_do up down ?v" by blast
  then obtain y where y: "server_run os ?t = Returns y" "z = ends q d (pClient y) (server_env y) y"
    by (auto simp: server_run_ends map_outcome_eq_Returns)
  note fr = run_frames(2) [OF y(1)]
  have l: "left_to_do up down y < left_to_do up down ?t" using z(3) unfolding y(2) by (simp add: left_to_do_ends)
  let ?y = "x\<lparr>loops := y\<rparr>"
  have "thread_run os x = Returns ?y" using going y(1) by (simp add: thread_run_def ThreadRuns)
  moreover have "running_ok made listening a lfd cfd sfd up down ?y"
    using ok z(2) t(2) fr ThreadRuns unfolding y(2) running_ok_def by auto
  then have "program_ok made listening a b sfd up down ?y" by (rule program_ok_running [OF roles])
  ultimately show ?thesis using l by (intro exI [of _ ?y]) (simp add: program_left_def)
qed

lemma thread_closes:
  assumes law: "program_law os made listening a b sfd up down" and roles: "{lfd, cfd} = {a, b}"
    and ok: "running_ok made listening a lfd cfd sfd up down x"
    and ThreadCloses: "thread_at x = ThreadCloses"
  shows "\<exists>y. thread_run os x = Returns y \<and> program_ok made listening a b sfd up down y \<and> program_left up down y < program_left up down x"
proof -
  note pair = program_lawD(2) [OF law roles]
  let ?t = "loops x"
  let ?e = "(server_env ?t)\<lparr>world := shared ?t\<rparr>"
  obtain q d p f where t: "threads_ok cfd sfd up down (ends q d p f ?t)"
    "main_at x = MainRuns \<longrightarrow> q = client ?t \<and> d = client_env ?t" "thread_at x = ThreadRuns \<longrightarrow> p = pClient ?t \<and> f = server_env ?t"
    by (rule running_ok_loops [OF ok])
  note echo = threads_ok_echo [OF t(1)]
  have m: "server_at ?t = ServerDone" using ok ThreadCloses by (simp add: running_ok_def)
  obtain c s1 e1 where C: "Close os (listener x) ?e = (c, s1, e1)" by (metis prod_cases3)
  obtain s2 e2 where D: "CPassiveSocket_destroy os s1 e1 = (s2, e2)" by fastforce
  have w: "up (world e2) = up (shared ?t)" "down (world e2) = down (shared ?t)"
    using Close_setup [OF pair, of "listener x" ?e] Close_setup [OF pair, of s1 e1] C D
    by (auto simp: CPassiveSocket_destroy_def split_beta Let_def)
  let ?y = "x\<lparr>thread_at := ThreadEnds, listener := s2, loops := ?t\<lparr>server_env := e2, shared := world e2\<rparr>\<rparr>"
  have "thread_run os x = Returns ?y" by (simp add: thread_run_def ThreadCloses C D)
  moreover have eq: "ends q d p f (loops ?y) = ends q d p f ?t\<lparr>shared := world e2\<rparr>" by (simp add: ends_def)
  have "threads_ok cfd sfd up down (ends q d p f (loops ?y))" unfolding eq by (rule threads_ok_at [OF t(1) echo refl w])
  with ok have "running_ok made listening a lfd cfd sfd up down ?y"
    using t(2) m ThreadCloses unfolding running_ok_def by auto
  then have "program_ok made listening a b sfd up down ?y" by (rule program_ok_running [OF roles])
  moreover have "program_left up down ?y < program_left up down x"
    using ThreadCloses m w by (simp add: program_left_def left_to_do_def pending_def)
  ultimately show ?thesis by blast
qed

lemma thread_runs:
  assumes law: "program_law os made listening a b sfd up down" and ok: "program_ok made listening a b sfd up down x"
    and rdy: "thread_ready up x"
  shows "\<exists>y. thread_run os x = Returns y \<and> program_ok made listening a b sfd up down y
    \<and> (refused x \<or> program_left up down y < program_left up down x)"
proof (cases "refused x")
  case True
  then show ?thesis using refused_listens [OF True _ rdy, of os] ok by (auto simp: program_ok_def)
next
  case False
  then obtain lfd cfd where r: "{lfd, cfd} = {a, b}" "running_ok made listening a lfd cfd sfd up down x"
    using ok by (auto simp: program_ok_def)
  show ?thesis
  proof (cases "thread_at x")
    case ThreadStarts
    from thread_starts [OF law r this] show ?thesis by blast
  next
    case ThreadAccepts
    from thread_accepts [OF law r this rdy] show ?thesis by blast
  next
    case ThreadRuns
    from thread_leaves [OF law r this] thread_loops [OF law r this _ rdy] show ?thesis
      by (cases "server_at (loops x) = ServerDone") blast+
  next
    case ThreadCloses
    from thread_closes [OF law r this] show ?thesis by blast
  qed (use rdy in \<open>simp add: thread_ready_def\<close>)
qed

section \<open>Runs of the program\<close>

lemma program_step_ok:
  assumes law: "program_law os made listening a b sfd up down" and ok: "program_ok made listening a b sfd up down x"
    and step: "program_step os up x y"
  shows "program_ok made listening a b sfd up down y"
  using step
proof (cases rule: program_step.cases)
  case main_moves
  with main_runs [OF law ok] show ?thesis by auto
next
  case thread_moves
  with thread_runs [OF law ok] show ?thesis by auto
next
  case (main_crashes u)
  with main_runs [OF law ok] show ?thesis by auto
next
  case (thread_crashes u)
  with thread_runs [OF law ok] show ?thesis by auto
qed

text \<open>Before anything has run.\<close>

definition program_started ::
  "('w \<Rightarrow> nat) \<Rightarrow> ('w \<Rightarrow> bool) \<Rightarrow> ('w \<Rightarrow> byte list) \<Rightarrow> ('w \<Rightarrow> byte list) \<Rightarrow> 'w program \<Rightarrow> bool" where
  "program_started made listening up down x \<longleftrightarrow>
     main_at x = MainStarts \<and> thread_at x = ThreadStarts \<and> client_at (loops x) = ClientSends \<and> server_at (loops x) = ServerReceives
   \<and> \<not> connected x \<and> printed (loops x) = [] \<and> nBytesReceived (loops x) = 0 \<and> \<not> crashed (loops x)
   \<and> made (shared (loops x)) = 0 \<and> \<not> listening (shared (loops x)) \<and> up (shared (loops x)) = [] \<and> down (shared (loops x)) = []"

lemma program_started_ok:
  assumes law: "program_law os made listening a b sfd up down" and start: "program_started made listening up down x"
  shows "program_ok made listening a b sfd up down x"
proof -
  let ?e = "(client_env (loops x))\<lparr>errno := 0\<rparr>"
  note pair = program_lawD(2) [OF law refl]
  have "threads_ok b sfd up down (ends (demo_active SocketTypeTcp b) ?e (demo_active SocketTypeTcp sfd) ?e (loops x))"
    using start pair_lawD(6,7) [OF pair]
    by (simp add: threads_ok_def program_started_def echo_ok_def buffer_ok_def pending_def)
  then have "running_ok made listening a a b sfd up down x" using start unfolding program_started_def running_ok_def by auto
  then show ?thesis by (rule program_ok_running [OF refl])
qed

interpretation program: invariant_system
    "\<lambda>x. program_started made listening up down x \<and> program_law os made listening a b sfd up down" "program_step os up"
    "\<lambda>x. program_ok made listening a b sfd up down x \<and> program_law os made listening a b sfd up down"
  for os :: "'w os" and made listening a b sfd up down
  by unfold_locales (auto intro: program_started_ok dest: program_step_ok)

lemma program_moves:
  assumes law: "program_law os made listening a b sfd up down" and ok: "program_ok made listening a b sfd up down x"
    and "\<not> refused x" and going: "main_at x \<noteq> MainEnds"
  shows "\<exists>y. program_step os up x y \<and> program_ok made listening a b sfd up down y
    \<and> (refused y \<or> program_left up down y < program_left up down x)"
proof -
  let ?t = "loops x"
  obtain lfd cfd where run: "running_ok made listening a lfd cfd sfd up down x" using ok assms(3) by (auto simp: program_ok_def)
  obtain q d p f where t: "threads_ok cfd sfd up down (ends q d p f ?t)"
    "main_at x = MainRuns \<longrightarrow> q = client ?t \<and> d = client_env ?t" "thread_at x = ThreadRuns \<longrightarrow> p = pClient ?t \<and> f = server_env ?t"
    by (rule running_ok_loops [OF run])
  let ?v = "ends q d p f ?t"
  consider (thread) "thread_ready up x"
    | (main) "\<not> (main_at x = MainRuns \<and> client_at ?t = ClientReads \<and> down (shared ?t) = [])"
    | (stuck) "\<not> thread_ready up x" "main_at x = MainRuns" "client_at ?t = ClientReads" "down (shared ?t) = []"
    by blast
  then show ?thesis
  proof cases
    case thread
    from thread_runs [OF law ok this] assms(3) show ?thesis by (blast intro: program_step.thread_moves [OF thread])
  next
    case main
    from main_runs [OF law ok going] main show ?thesis by (blast intro: program_step.main_moves [OF going])
  next
    case stuck
    have con: "connected x" "thread_at x \<noteq> ThreadStarts" "thread_at x \<in> {ThreadCloses, ThreadEnds} \<Longrightarrow> server_at ?t = ServerDone"
      using run stuck(2) by (simp_all add: running_ok_def)
    have whole: "printed ?t @ down (shared ?t) @ pending ?v @ up (shared ?t) = TEST_PACKET"
      "sint (nBytesReceived ?t) = int (length (printed ?t @ down (shared ?t) @ pending ?v))" "length (printed ?t) < 11"
      "server_at ?t = ServerReceives \<longrightarrow> sint (nBytesReceived ?t) < 11" "server_at ?t = ServerDone \<longrightarrow> sint (nBytesReceived ?t) = 11"
      "server_at ?t \<noteq> ServerSends \<longrightarrow> pending ?v = []"
      using t(1) stuck(3) by (auto simp: threads_ok_def) (simp_all add: pending_def)
    have len: "length (printed ?t) + length (down (shared ?t)) + length (pending ?v) + length (up (shared ?t)) = 11"
      using arg_cong [OF whole(1), of length] by simp
    consider "server_at ?t = ServerDone" | "server_at ?t = ServerReceives" "up (shared ?t) = []"
      using stuck(1,2) con by (cases "thread_at x") (auto simp: thread_ready_def)
    then have False
    proof cases
      case 1
      then show False using whole(2,3,5,6) stuck(4) by simp
    next
      case 2
      then show False using whole(2-4,6) len stuck(4) by simp
    qed
    then show ?thesis ..
  qed
qed

lemma program_finishes:
  assumes law: "program_law os made listening a b sfd up down" and "program_ok made listening a b sfd up down x"
  shows "\<exists>y. (program_step os up)\<^sup>*\<^sup>* x y \<and> main_at y = MainEnds"
  using assms(2)
proof (induction "program_left up down x" arbitrary: x rule: less_induct)
  case less
  have over: "\<exists>y. (program_step os up)\<^sup>*\<^sup>* z y \<and> main_at y = MainEnds"
    if "refused z" "program_ok made listening a b sfd up down z" for z
  proof (cases "main_at z = MainEnds")
    case False
    from refused_ends [OF that(1) _ False, of os] that obtain y where "main_run os z = Returns y" "main_at y = MainEnds"
      by (auto simp: program_ok_def)
    then show ?thesis using program_step.main_moves [OF False] by blast
  qed blast
  show ?case
  proof (cases "refused x \<or> main_at x = MainEnds")
    case True
    then show ?thesis using over less.prems by blast
  next
    case False
    then obtain y where y: "program_step os up x y" "program_ok made listening a b sfd up down y"
      "refused y \<or> program_left up down y < program_left up down x"
      using program_moves [OF law less.prems] by blast
    then have "\<exists>z. (program_step os up)\<^sup>*\<^sup>* y z \<and> main_at z = MainEnds" using over less.hyps by blast
    with y(1) show ?thesis by (blast intro: converse_rtranclp_into_rtranclp)
  qed
qed

lemma program_ok_printed:
  assumes ok: "program_ok made listening a b sfd up down y"
  shows "\<not> crashed (loops y)" "printed (loops y) = take (length (printed (loops y))) TEST_PACKET"
    "main_at y = MainEnds \<Longrightarrow> printed (loops y) = (if connected y then TEST_PACKET else [])"
    "thread_at y \<in> {ThreadCloses, ThreadEnds} \<Longrightarrow>
      connected y \<and> up (shared (loops y)) = [] \<and> printed (loops y) @ down (shared (loops y)) = TEST_PACKET"
proof -
  let ?t = "loops y"
  have "\<not> crashed ?t \<and> printed ?t = take (length (printed ?t)) TEST_PACKET
    \<and> (main_at y = MainEnds \<longrightarrow> printed ?t = (if connected y then TEST_PACKET else []))
    \<and> (thread_at y \<in> {ThreadCloses, ThreadEnds} \<longrightarrow> connected y \<and> up (shared ?t) = [] \<and> printed ?t @ down (shared ?t) = TEST_PACKET)"
  proof (cases "refused y")
    case True
    then show ?thesis using ok by (auto simp: program_ok_def refused_ok_def refused_def)
  next
    case False
    then obtain lfd cfd where run: "running_ok made listening a lfd cfd sfd up down y" using ok by (auto simp: program_ok_def)
    obtain q d p f where t: "threads_ok cfd sfd up down (ends q d p f ?t)" by (rule running_ok_loops [OF run])
    then have whole: "printed ?t @ down (shared ?t) @ pending (ends q d p f ?t) @ up (shared ?t)
        = (if client_at ?t = ClientSends then [] else TEST_PACKET)" by (simp add: threads_ok_def)
    have "\<not> crashed ?t" using t by (simp add: threads_ok_def)
    moreover have "printed ?t = take (length (printed ?t)) TEST_PACKET"
      using whole by (cases "client_at ?t = ClientSends") (auto simp: append_eq_conv_conj)
    moreover have "printed ?t = (if connected y then TEST_PACKET else [])" if "main_at y = MainEnds"
      using run t that by (simp add: running_ok_def threads_ok_def)
    moreover have "connected y \<and> up (shared ?t) = [] \<and> printed ?t @ down (shared ?t) = TEST_PACKET"
      if at: "thread_at y \<in> {ThreadCloses, ThreadEnds}"
    proof -
      have s: "server_at ?t = ServerDone" "connected y" using run at by (cases "main_at y"; auto simp: running_ok_def)+
      then have d: "pending (ends q d p f ?t) = []" "length (printed ?t @ down (shared ?t)) = 11"
        using t by (auto simp: threads_ok_def pending_def)
      then have "printed ?t @ down (shared ?t) @ up (shared ?t) = TEST_PACKET" using whole by (auto split: if_splits)
      moreover from arg_cong [OF this, of length] d(2) have "up (shared ?t) = []" by (simp flip: length_0_conv)
      ultimately show ?thesis using s(2) by simp
    qed
    ultimately show ?thesis by blast
  qed
  then show "\<not> crashed ?t" "printed ?t = take (length (printed ?t)) TEST_PACKET"
    "main_at y = MainEnds \<Longrightarrow> printed ?t = (if connected y then TEST_PACKET else [])"
    "thread_at y \<in> {ThreadCloses, ThreadEnds} \<Longrightarrow> connected y \<and> up (shared ?t) = [] \<and> printed ?t @ down (shared ?t) = TEST_PACKET"
    by blast+
qed

lemma program_ok_opens:
  assumes law: "program_law os made listening a b sfd up down" and ok: "program_ok made listening a b sfd up down y"
    and "main_at y = MainOpens" and "main_run os y = Returns z"
  shows "connected z \<longleftrightarrow> thread_at y \<noteq> ThreadStarts"
proof -
  have "\<not> refused y" using assms(3) by (simp add: refused_def)
  then obtain lfd cfd where "{lfd, cfd} = {a, b}" "running_ok made listening a lfd cfd sfd up down y" using ok by (auto simp: program_ok_def)
  from main_opens [OF law this assms(3)] assms(4) show ?thesis by auto
qed

text \<open>
  C4. \<open>RecvAsync.cpp\<close> from the creation of the server thread to the return of \<open>main\<close>, which ends the process, in every order
  of the turns of its two threads (a turn is one or two method calls, and \<open>sleep(1)\<close> orders nothing), on a machine whose loopback
  works (\<open>program_law\<close>): \<open>bind\<close>, \<open>listen\<close> and \<open>fcntl\<close> succeed, \<open>connect\<close> is refused at once while nobody listens
  and succeeds later, \<open>accept\<close> gives the connection, every \<open>send\<close> takes all its bytes, every \<open>recv\<close> of bytes under way gives
  some of them, and no call is interrupted; \<open>setsockopt\<close>, \<open>getpeername\<close> and \<open>close\<close> may fail. Nothing faults; the client's \<open>Open\<close>
  succeeds if and only if the server thread has listened by then; what has been printed is the beginning of
  the packet, and when \<open>main\<close> has returned it is the whole packet, or nothing if \<open>Open\<close> was refused; when the server
  thread has left its loop it has sent back all that was sent; and from every state that a run reaches \<open>main\<close> can still
  return, so that no order of the turns leaves it waiting for ever. (The server thread need not return: it ends with the process.)
\<close>

theorem async_program_delivers:
  assumes "program_law os made listening a b sfd up down" and "program_started made listening up down x" and "(program_step os up)\<^sup>*\<^sup>* x y"
  shows "\<not> crashed (loops y) \<and> printed (loops y) = take (length (printed (loops y))) TEST_PACKET
    \<and> (\<forall>z. main_at y = MainOpens \<and> main_run os y = Returns z \<longrightarrow> connected z = (thread_at y \<noteq> ThreadStarts))
    \<and> (main_at y = MainEnds \<longrightarrow> printed (loops y) = (if connected y then TEST_PACKET else []))
    \<and> (thread_at y \<in> {ThreadCloses, ThreadEnds} \<longrightarrow>
         connected y \<and> up (shared (loops y)) = [] \<and> printed (loops y) @ down (shared (loops y)) = TEST_PACKET)
    \<and> (\<exists>z. (program_step os up)\<^sup>*\<^sup>* y z \<and> main_at z = MainEnds)"
proof -
  have ok: "program_ok made listening a b sfd up down y" using program.always [OF assms(3)] assms(1,2) by blast
  show ?thesis using program_ok_printed [OF ok] program_ok_opens [OF assms(1) ok] program_finishes [OF assms(1) ok] by blast
qed

text \<open>
  A machine with two sockets, 3 and 8, and one connection, whose server's end is 9; a \<open>connect\<close> that
  is not refused is under way when it returns.
\<close>

type_synonym loopback_state = "nat \<times> bool \<times> byte list \<times> byte list"

definition loopback_os :: "loopback_state os" where
  "loopback_os =
     \<lparr>kernel = (\<lambda>c (n, l, u, d). case c of
         Sys_socket k t p \<Rightarrow> (ok (if n = 0 then 3 else 8), (Suc n, l, u, d))
       | Sys_gethostbyname p \<Rightarrow> ((ok 0)\<lparr>host := Some loopback\<rparr>, (n, l, u, d))
       | Sys_listen fd k \<Rightarrow> (ok 0, (n, True, u, d))
       | Sys_connect fd a \<Rightarrow> (fail (if l then EINPROGRESS else ECONNREFUSED), (n, l, u, d))
       | Sys_select m rd wr ex t \<Rightarrow> ((ok 1)\<lparr>fdsets := Some (rd, wr, {})\<rparr>, (n, l, u, d))
       | Sys_getsockopt fd lv k x \<Rightarrow> ((ok 0)\<lparr>data := to_bytes32 0\<rparr>, (n, l, u, d))
       | Sys_accept fd \<Rightarrow> (ok 9, (n, l, u, d))
       | Sys_getpeername fd \<Rightarrow> ((if fd = 3 then fail ENOTCONN else ok 0), (n, l, u, d))
       | Sys_send fd bs f \<Rightarrow> (let (r, u', d') = kernel wire_os (Sys_send (if fd = 9 then 9 else 8) bs f) (u, d) in (r, (n, l, u', d')))
       | Sys_recv fd m f \<Rightarrow> (let (r, u', d') = kernel wire_os (Sys_recv (if fd = 9 then 9 else 8) m f) (u, d) in (r, (n, l, u', d')))
       | _ \<Rightarrow> (ok 0, (n, l, u, d))),
      clock = (\<lambda>w. (timeval_zero, w)), inet_addr = (\<lambda>p. 0), inet_ntoa = (\<lambda>a. []), uninit = (\<lambda>i. 0)\<rparr>"

abbreviation (input) loop_listens :: "loopback_state \<Rightarrow> bool" where "loop_listens \<equiv> \<lambda>w. fst (snd w)"
abbreviation (input) loop_up :: "loopback_state \<Rightarrow> byte list" where "loop_up \<equiv> \<lambda>w. fst (snd (snd w))"
abbreviation (input) loop_down :: "loopback_state \<Rightarrow> byte list" where "loop_down \<equiv> \<lambda>w. snd (snd (snd w))"

lemma loopback_pair:
  assumes "cfd = 8 \<and> lfd = 3 \<or> cfd = 3 \<and> lfd = 8"
  shows "pair_law loopback_os fst loop_listens lfd cfd 9 loop_up loop_down"
proof -
  have wire: "wire_law loopback_os cfd 9 loop_up loop_down"
    using wire_os_law assms unfolding wire_law_def echo_law_def
    by (auto simp: loopback_os_def Let_def split_beta wire_os_def fd_in_range_def)
  have quiet: "setup_law loopback_os fst loop_listens loop_up loop_down"
    unfolding setup_law_def by (auto simp: loopback_os_def split_beta split: syscall.splits)
  have answers: "answers_law loopback_os lfd cfd 9"
    unfolding answers_law_def by (auto simp: loopback_os_def split_beta)
  have "connect_law loopback_os loop_listens cfd"
    unfolding connect_law_def using loopback_ipv4 by (auto simp: loopback_os_def split_beta Let_def)
  with wire quiet answers assms show ?thesis by (auto simp: pair_law_def)
qed

lemma loopback_law: "program_law loopback_os fst loop_listens 3 8 9 loop_up loop_down"
  using loopback_pair [of 8 3] loopback_pair [of 3 8] by (simp add: program_law_def loopback_os_def split_beta)

definition program_start :: "loopback_state program" where
  "program_start =
     \<lparr>main_at = MainStarts, thread_at = ThreadStarts, listener = demo_passive SocketTypeTcp 0, connected = False,
      loops = \<lparr>client_at = ClientSends, client = demo_active SocketTypeTcp 0,
        client_env = \<lparr>errno = 0, h_errno = 0, world = (0, False, [], []), trace = []\<rparr>, bytesReceived = 0, printed = [],
        server_at = ServerReceives, pClient = demo_active SocketTypeTcp 0,
        server_env = \<lparr>errno = 0, h_errno = 0, world = (0, False, [], []), trace = []\<rparr>, nBytesReceived = 0,
        shared = (0, False, [], []), crashed = False\<rparr>\<rparr>"

lemma program_start_started: "program_started fst loop_listens loop_up loop_down program_start"
  by (simp add: program_started_def program_start_def)

lemma program_frames:
  "main_run os x = Returns y \<Longrightarrow> thread_at y = thread_at x \<and> (main_at x \<noteq> MainOpens \<longrightarrow> connected y = connected x
     \<and> (main_at y \<in> {MainRuns, MainEnds} \<longrightarrow> main_at x \<in> {MainRuns, MainEnds}))"
  "thread_run os x = Returns y \<Longrightarrow> main_at y = main_at x \<and> connected y = connected x \<and> thread_at y \<noteq> ThreadStarts"
  by (cases "main_at x"; auto simp: main_run_def Let_def split_beta obind_eq_Returns split: if_splits)
     (cases "thread_at x"; auto simp: thread_run_def Let_def split_beta obind_eq_Returns split: if_splits option.splits)

text \<open>A run in which the server listens first.\<close>

theorem async_program_delivers_witness:
  "\<exists>z. (program_step loopback_os loop_up)\<^sup>*\<^sup>* program_start z \<and> main_at z = MainEnds \<and> connected z
     \<and> printed (loops z) = TEST_PACKET"
proof -
  note deliver = async_program_delivers [OF loopback_law program_start_started]
  let ?step = "program_step loopback_os loop_up"
  let ?P = "\<lambda>y. thread_at y \<noteq> ThreadStarts \<and> (main_at y \<in> {MainRuns, MainEnds} \<longrightarrow> connected y)"
  obtain y where y: "thread_run loopback_os program_start = Returns y"
    by (simp add: thread_run_def program_start_def Let_def split_beta)
  have first: "?step program_start y"
    by (rule program_step.thread_moves [OF _ y]) (simp add: thread_ready_def program_start_def)
  have P: "?P y" using program_frames(2) [OF y] by (simp add: program_start_def)
  have "?P z" if "?step\<^sup>*\<^sup>* y z" for z
    using that
  proof induction
    case (step v w)
    have v: "?step\<^sup>*\<^sup>* program_start v" using first step.hyps(1) by (rule converse_rtranclp_into_rtranclp)
    from step.hyps(2) show ?case
    proof cases
      case main_moves
      then show ?thesis using program_frames(1) [of loopback_os v w] deliver [OF v] step.IH by (cases "main_at v = MainOpens") auto
    next
      case thread_moves
      then show ?thesis using program_frames(2) [of loopback_os v w] step.IH by simp
    qed (use step.IH in simp_all)
  qed (rule P)
  moreover obtain z where z: "?step\<^sup>*\<^sup>* y z" "main_at z = MainEnds" using deliver [OF r_into_rtranclp [of ?step, OF first]] by blast
  ultimately have "connected z" by blast
  have "?step\<^sup>*\<^sup>* program_start z" using first z(1) by (rule converse_rtranclp_into_rtranclp)
  with deliver [OF this] z(2) \<open>connected z\<close> show ?thesis by auto
qed

end
