(* ===== verification/File_Copy.thy ===== *)
theory File_Copy imports Bulk_Transfer begin

text \<open>
  \<open>SendFile\<close> on a real file: which bytes of it reach the other descriptor. The file is its
  contents and the position that \<open>lseek\<close> and \<open>read\<close> move; the descriptor written to takes
  everything.
\<close>

definition file_law ::
  "'w os \<Rightarrow> int32 \<Rightarrow> int32 \<Rightarrow> byte list \<Rightarrow> ('w \<Rightarrow> nat) \<Rightarrow> ('w \<Rightarrow> byte list) \<Rightarrow> bool" where
  "file_law os outFd inFd content pos out \<longleftrightarrow>
     (\<forall>off w. 0 \<le> sint off \<longrightarrow> (let (r, w') = kernel os (Sys_lseek inFd off SEEK_SET) w in
        ret r = sint off \<and> pos w' = nat (sint off) \<and> out w' = out w))
   \<and> (\<forall>n w. 0 \<le> sint n \<longrightarrow> (let (r, w') = kernel os (Sys_read inFd n) w in
        data r = take (nat (sint n)) (drop (pos w) content) \<and> ret r = int (length (data r))
        \<and> pos w' = pos w + length (data r) \<and> out w' = out w))
   \<and> (\<forall>bs f w. let (r, w') = kernel os (Sys_send outFd bs f) w in
        ret r = int (length bs) \<and> pos w' = pos w \<and> out w' = out w @ bs)"

lemma file_law_seek:
  assumes "file_law os outFd inFd content pos out" and "kernel os (Sys_lseek inFd off 0) w = (r, w')" and "0 \<le> sint off"
  shows "ret r = sint off \<and> pos w' = nat (sint off) \<and> out w' = out w"
  using assms(1) [unfolded file_law_def, THEN conjunct1, rule_format, of off w] assms(2,3) by simp

lemma file_law_read:
  assumes "file_law os outFd inFd content pos out" and "kernel os (Sys_read inFd n) w = (r, w')" and "0 \<le> sint n"
  shows "data r = take (nat (sint n)) (drop (pos w) content) \<and> ret r = int (length (data r))
    \<and> pos w' = pos w + length (data r) \<and> out w' = out w"
  using assms(1) [unfolded file_law_def, THEN conjunct2, THEN conjunct1, rule_format, of n w] assms(2,3) by simp

lemma file_law_send:
  assumes "file_law os outFd inFd content pos out" and "kernel os (Sys_send outFd bs f) w = (r, w')"
  shows "ret r = int (length bs) \<and> pos w' = pos w \<and> out w' = out w @ bs"
  using assms(1) [unfolded file_law_def, THEN conjunct2, THEN conjunct2, rule_format, of bs f w] assms(2) by simp

text \<open>The bytes that a loop copies when \<open>n\<close> are wanted and \<open>rest\<close> are left in the file.\<close>

definition copied :: "nat \<Rightarrow> byte list \<Rightarrow> byte list" where
  "copied n rest = (if n \<le> length rest then take n rest else take (8192 * (length rest div 8192)) rest)"

lemma copied_block:
  assumes "k = min n 8192" and "k \<le> length rest" and "0 < n"
  shows "copied n rest = take k rest @ copied (n - k) (drop k rest)"
proof (cases "n \<le> length rest")
  case True
  then show ?thesis using assms by (simp add: copied_def flip: take_add)
next
  case False
  then have k: "k = 8192" using assms by (simp add: min_def split: if_splits)
  then have "length rest div 8192 = Suc ((length rest - 8192) div 8192)"
    using assms(2) by (simp add: le_div_geq)
  then show ?thesis using False k assms(2) by (simp add: copied_def take_add)
qed

lemma sendfile_loop_copies:
  assumes law: "file_law os outFd inFd content pos out"
    and "sint o1 \<le> sint n" and "sint n - sint o1 < 2 ^ 31"
  shows "\<exists>e'. sendfile_loop os outFd inFd n o1 e =
       Returns (if nat (sint n - sint o1) \<le> length (drop (pos (world e)) content) then Some n else None, e')
     \<and> out (world e') = out (world e) @ copied (nat (sint n - sint o1)) (drop (pos (world e)) content)"
  using assms(2,3)
proof (induction "nat (sint n - sint o1)" arbitrary: o1 e rule: less_induct)
  case less
  let ?rest = "drop (pos (world e)) content"
  show ?case
  proof (cases "sint o1 < sint n")
    case False
    then have "o1 = n" using less.prems by (intro signed_word_eqI) simp
    then show ?thesis by (simp add: sendfile_loop_block [of _ _ _ n n] copied_def)
  next
    case True
    define k where "k = block_size n o1"
    have k: "sint k = min (sint n - sint o1) 8192" "sint (o1 + k) = sint o1 + sint k"
      using sint_block_size [OF True less.prems(2)] sint_next_block [OF True less.prems(2)]
      by (simp_all add: k_def)
    have k0: "0 \<le> sint k" "0 < sint k" using k(1) True by simp_all
    obtain r1 w1 where K1: "kernel os (Sys_read inFd k) (world e) = (r1, w1)" by fastforce
    note rd = file_law_read [OF law K1 k0(1)]
    define e1 where "e1 = snd (invoke os (Sys_read inFd k) e)"
    have w1: "world e1 = w1" by (simp add: e1_def snd_invoke K1)
    obtain r2 w2 where K2: "kernel os (Sys_send outFd (take (nat (sint k)) (data r1)) 0) w1 = (r2, w2)" by fastforce
    note sd = file_law_send [OF law K2]
    define e2 where "e2 = snd (invoke os (Sys_send outFd (take (nat (sint k)) (data r1)) 0) e1)"
    have w2: "world e2 = w2" by (simp add: e2_def snd_invoke K2 w1)
    have small: "length (data r1) \<le> nat (sint k)" "nat (sint k) < 2 ^ 31"
      using rd k(1) by simp_all
    have full: "(i32 (ret r1) = k) = (length (data r1) = nat (sint k))"
    proof -
      have "sint (i32 (ret r1)) = int (length (data r1))"
        using rd small by (simp only: rd [THEN conjunct2, THEN conjunct1]) (rule sint_i32; simp)
      then show ?thesis using k0(1) by (metis eq_nat_nat_iff int_nat_eq nat_int of_nat_0_le_iff signed_word_eqI)
    qed
    have loop: "sendfile_loop os outFd inFd n o1 e =
      (if i32 (ret r1) \<noteq> k then Returns (None, e1)
       else if i32 (ret r2) \<noteq> k then Returns (None, e2)
       else sendfile_loop os outFd inFd n (o1 + k) e2)"
      using True less.prems(2)
      by (subst sendfile_loop_block)
         (simp add: Let_def split_beta fst_invoke K1 w1 K2 flip: k_def e1_def e2_def)
    show ?thesis
    proof (cases "length (data r1) = nat (sint k)")
      case False
      then have short: "length ?rest < nat (sint k)" using rd by simp
      then have "copied (nat (sint n - sint o1)) ?rest = []"
        using k(1) by (simp add: copied_def)
      moreover have "\<not> nat (sint n - sint o1) \<le> length ?rest" using short k(1) by linarith
      moreover have "i32 (ret r1) \<noteq> k" using False full by blast
      then have "sendfile_loop os outFd inFd n o1 e = Returns (None, e1)" by (simp only: loop) simp
      ultimately show ?thesis using rd by (simp add: w1)
    next
      case all: True
      have "ret r2 = sint k" using sd all k0 by simp
      then have r2: "i32 (ret r2) = k" by simp
      have enough: "nat (sint k) \<le> length ?rest" using all rd by simp
      have "nat (sint n - sint (o1 + k)) < nat (sint n - sint o1)" "sint (o1 + k) \<le> sint n"
        "sint n - sint (o1 + k) < 2 ^ 31"
        using True less.prems(2) k by auto
      from less.hyps [OF this, of e2] obtain e' where IH:
        "sendfile_loop os outFd inFd n (o1 + k) e2 =
           Returns (if nat (sint n - sint (o1 + k)) \<le> length (drop (pos w2) content) then Some n else None, e')"
        "out (world e') = out w2 @ copied (nat (sint n - sint (o1 + k))) (drop (pos w2) content)"
        by (auto simp: w2)
      have p: "drop (pos w2) content = drop (nat (sint k)) ?rest"
        using sd rd all by (simp add: add.commute)
      have m: "nat (sint n - sint (o1 + k)) = nat (sint n - sint o1) - nat (sint k)"
        using k by (simp add: nat_diff_distrib' flip: nat_diff_distrib)
      have mk: "nat (sint k) = min (nat (sint n - sint o1)) 8192" using k(1) by simp
      have out: "out w2 = out (world e) @ take (nat (sint k)) ?rest" using sd rd by simp
      have "(nat (sint n - sint (o1 + k)) \<le> length (drop (pos w2) content)) = (nat (sint n - sint o1) \<le> length ?rest)"
      proof -
        have gen: "(a - j \<le> l - j) = (a \<le> l)" if "j \<le> a" "j \<le> l" for a j l :: nat using that by linarith
        have "nat (sint k) \<le> nat (sint n - sint o1)" using mk by simp
        from gen [OF this enough] show ?thesis unfolding p m by (simp only: length_drop [of "nat (sint k)" ?rest])
      qed
      moreover have "out (world e') = out (world e) @ copied (nat (sint n - sint o1)) ?rest"
        using copied_block [OF mk enough] True unfolding IH(2) out p m by simp
      ultimately show ?thesis using IH(1) r2 all by (simp add: loop full)
    qed
  qed
qed

text \<open>
  C22. On a regular file, with everything sent accepted, \<open>SendFile\<close> copies exactly the \<open>nCount + 1\<close>
  bytes from the offset on, in order, if the file has that many, and returns \<open>nCount\<close> with the
  offset advanced by it. If it has not, and so for every request that reaches the end of the
  file, it returns -1 and leaves the offset, having sent all whole blocks of 8192 bytes.
\<close>

theorem SendFile_copies_file:
  assumes "file_law os outFd inFd content pos out" and "0 \<le> sint off"
    and "0 \<le> sint nCount" and "sint nCount < 2 ^ 31 - 1"
  shows "\<exists>s' e'. SendFile os outFd inFd off nCount s e
      = (if nat (sint nCount) < length content - nat (sint off)
         then Returns (nCount, off + scast nCount, s', e') else Returns (-1, off, s, e'))
    \<and> out (world e') = out (world e) @
        (let rest = drop (nat (sint off)) content in
         if nat (sint nCount) < length rest then take (nat (sint nCount) + 1) rest
         else take (8192 * (length rest div 8192)) rest)"
proof -
  let ?c = "Sys_lseek inFd off SEEK_SET" and ?rest = "drop (nat (sint off)) content"
  obtain r w where K: "kernel os ?c (world e) = (r, w)" by fastforce
  note sk = file_law_seek [OF assms(1) K assms(2)]
  define e1 where "e1 = snd (invoke os ?c e)"
  have w: "world e1 = w" by (simp add: e1_def snd_invoke K)
  have "sint (-1 :: int32) \<le> sint nCount" "sint nCount - sint (-1 :: int32) < 2 ^ 31"
    using assms(3,4) by simp_all
  from sendfile_loop_copies [OF assms(1) this, of e1] obtain e' where L:
    "sendfile_loop os outFd inFd nCount (-1) e1 = Returns (if nat (sint nCount + 1) \<le> length ?rest then Some nCount else None, e')"
    "out (world e') = out (world e) @ copied (nat (sint nCount + 1)) ?rest"
    using sk by (auto simp: w)
  have n: "nat (sint nCount + 1) = nat (sint nCount) + 1" using assms(3) by simp
  have S: "SendFile os outFd inFd off nCount s e =
      obind (sendfile_loop os outFd inFd nCount (-1) e1) (\<lambda>(n, e2).
             case n of
               None \<Rightarrow> Returns (-1, off, s, e2)
             | Some n' \<Rightarrow> Returns (n', off + scast n', TranslateSocketError s e2, e2))"
    using sk assms(2) by (simp add: SendFile_def Let_def split_beta e1_def fst_invoke K)
  show ?thesis
    using L unfolding n copied_def by (cases "nat (sint nCount) < length ?rest") (auto simp: S Let_def)
qed

text \<open>A file of five bytes, with its position and what was sent.\<close>

definition disk_os :: "(nat \<times> byte list) os" where
  "disk_os =
     \<lparr>kernel = (\<lambda>c w. case c of
         Sys_lseek fd off wh \<Rightarrow> (ok (sint off), (nat (sint off), snd w))
       | Sys_read fd n \<Rightarrow>
           (let d = take (nat (sint n)) (drop (fst w) [10, 11, 12, 13, 14])
            in ((ok (int (length d)))\<lparr>data := d\<rparr>, (fst w + length d, snd w)))
       | Sys_send fd b f \<Rightarrow> (ok (int (length b)), (fst w, snd w @ b))
       | _ \<Rightarrow> (ok 0, w)),
      clock = (\<lambda>w. (timeval_zero, w)), inet_addr = (\<lambda>p. 0), inet_ntoa = (\<lambda>a. []), uninit = (\<lambda>i. 0)\<rparr>"

lemma disk_law: "file_law disk_os outFd inFd [10, 11, 12, 13, 14] fst snd"
  unfolding file_law_def disk_os_def by (simp add: Let_def ok_def)

theorem SendFile_copies_file_witness:
  "(\<exists>s' e'. SendFile disk_os 8 9 1 2 (demo_socket SocketTypeTcp 7)
        \<lparr>errno = 0, h_errno = 0, world = (0, []), trace = []\<rparr> = Returns (2, 3, s', e') \<and> snd (world e') = [11, 12, 13])
   \<and> (\<exists>e'. SendFile disk_os 8 9 0 5 (demo_socket SocketTypeTcp 7)
        \<lparr>errno = 0, h_errno = 0, world = (0, []), trace = []\<rparr> = Returns (-1, 0, demo_socket SocketTypeTcp 7, e')
        \<and> snd (world e') = [])"
  using SendFile_copies_file [OF disk_law, of 1 2 8 9 "demo_socket SocketTypeTcp 7" "\<lparr>errno = 0, h_errno = 0, world = (0, []), trace = []\<rparr>"]
    SendFile_copies_file [OF disk_law, of 0 5 8 9 "demo_socket SocketTypeTcp 7" "\<lparr>errno = 0, h_errno = 0, world = (0, []), trace = []\<rparr>"]
  by (simp add: Let_def)

end
