(* ===== verification/Windows_Branches.thy ===== *)
theory Windows_Branches imports Passive_Socket begin

text \<open>
  What a Windows build compiles instead: \<open>WSAStartup\<close>, \<open>ioctlsocket\<close>, and errors read
  from \<open>WSAGetLastError\<close>, in the operations whose control flow depends on them; the other operations follow in
  \<open>Windows_Transfer\<close>, \<open>Windows_Options\<close>, \<open>Windows_Connections\<close> and \<open>Windows_Bulk\<close>. The code still clears and sets \<open>errno\<close>, which Windows keeps apart from
  the last socket error: a \<open>winsock\<close> is a process with that error beside its \<open>errno\<close>. A
  reply's \<open>err\<close> is the value that a failing call stores as the last error. \<open>SOCKET\<close> has 32
  bits, as in a 32-bit build, and the times that the
  objects keep are those of the parameter \<open>clock\<close>; what the performance counter makes of them is in
  \<open>Windows_Timer\<close>.
\<close>

section \<open>The last error\<close>

record 'w winsock =
  process :: "'w env"
  wsa_error :: int

definition WSAGetLastError :: "'w winsock \<Rightarrow> int" where
  "WSAGetLastError x = wsa_error x"

definition winsock_call :: "'w os \<Rightarrow> syscall \<Rightarrow> 'w winsock \<Rightarrow> reply \<times> 'w winsock" where
  "winsock_call os c x =
     (let (r, w) = kernel os c (world (process x))
      in (r, x\<lparr>process := (process x)\<lparr>world := w, trace := trace (process x) @ [c]\<rparr>,
              wsa_error := set_errno r (wsa_error x)\<rparr>))"

definition errno_win :: "int \<Rightarrow> 'w winsock \<Rightarrow> 'w winsock" where
  "errno_win n x = x\<lparr>process := (process x)\<lparr>errno := n\<rparr>\<rparr>"

definition timer_start_win :: "'w os \<Rightarrow> 'a csocket_scheme \<Rightarrow> 'w winsock \<Rightarrow> 'a csocket_scheme \<times> 'w winsock" where
  "timer_start_win os s x = (let (s1, e1) = timer_start os s (process x) in (s1, x\<lparr>process := e1\<rparr>))"

definition timer_end_win :: "'w os \<Rightarrow> 'a csocket_scheme \<Rightarrow> 'w winsock \<Rightarrow> 'a csocket_scheme \<times> 'w winsock" where
  "timer_end_win os s x = (let (s1, e1) = timer_end os s (process x) in (s1, x\<lparr>process := e1\<rparr>))"

definition TranslateSocketError_win :: "'a csocket_scheme \<Rightarrow> 'w winsock \<Rightarrow> 'a csocket_scheme" where
  "TranslateSocketError_win s x = SetSocketError (translate_wsa (WSAGetLastError x)) s"

section \<open>CSimpleSocket\<close>

text \<open>The constructor has no raw type, and the address family of IPv6 has another number.\<close>

definition CSimpleSocket_win :: "CSocketType \<Rightarrow> 'a csocket_scheme \<Rightarrow> 'a csocket_scheme" where
  "CSimpleSocket_win nType raw =
     (let s = CSimpleSocket (if nType = SocketTypeRaw then SocketTypeInvalid else nType) raw
      in if nType = SocketTypeTcp6 \<or> nType = SocketTypeUdp6 then s\<lparr>m_nSocketDomain := 23\<rparr> else s)"

text \<open>\<open>MAKEWORD(2, 0)\<close> is 2. The result of \<open>WSAStartup\<close> is not used.\<close>

definition Initialize_win ::
  "'w os \<Rightarrow> 'a csocket_scheme \<Rightarrow> 'w winsock \<Rightarrow> bool \<times> 'a csocket_scheme \<times> 'w winsock" where
  "Initialize_win os s x =
     (let x0 = errno_win (sint (error_code SocketSuccess)) x;
          (r0, x1) = winsock_call os (Sys_WSAStartup 2) x0;
          (s1, x2) = timer_start_win os s x1;
          (r, x3) = winsock_call os (Sys_socket (m_nSocketDomain s1) (socket_type_code (m_nSocketType s1)) 0) x2;
          s2 = s1\<lparr>m_socket := i32 (ret r)\<rparr>;
          (s3, x4) = timer_end_win os s2 x3;
          s4 = TranslateSocketError_win s3 x4
      in (IsSocketValid s4, s4, x4))"

definition Close_win ::
  "'w os \<Rightarrow> 'a csocket_scheme \<Rightarrow> 'w winsock \<Rightarrow> bool \<times> 'a csocket_scheme \<times> 'w winsock" where
  "Close_win os s x =
     (let s1 = (if m_pBuffer s \<noteq> None then s\<lparr>m_pBuffer := None\<rparr> else s);
          (bRetVal, s2, x2) =
            (if IsSocketValid s1 then
               (let (r, x1) = winsock_call os (Sys_close (m_socket s1)) x
                in if i32 (ret r) \<noteq> error_code SocketError
                   then (True, s1\<lparr>m_socket := INVALID_SOCKET\<rparr>, x1)
                   else (False, s1, x1))
             else (False, s1, x))
      in (bRetVal, TranslateSocketError_win s2 x2, x2))"

text \<open>Constants of Windows.\<close>

abbreviation (input) FIONBIO :: int32 where "FIONBIO \<equiv> 0x8004667E"
abbreviation (input) SOL_SOCKET_win :: int32 where "SOL_SOCKET_win \<equiv> 0xFFFF"
abbreviation (input) SO_ERROR_win :: int32 where "SO_ERROR_win \<equiv> 0x1007"
abbreviation (input) SO_REUSEADDR_win :: int32 where "SO_REUSEADDR_win \<equiv> 4"
abbreviation (input) SO_LINGER_win :: int32 where "SO_LINGER_win \<equiv> 0x80"
abbreviation (input) SO_SNDBUF_win :: int32 where "SO_SNDBUF_win \<equiv> 0x1001"
abbreviation (input) SO_RCVBUF_win :: int32 where "SO_RCVBUF_win \<equiv> 0x1002"
abbreviation (input) SO_SNDTIMEO_win :: int32 where "SO_SNDTIMEO_win \<equiv> 0x1005"
abbreviation (input) SO_RCVTIMEO_win :: int32 where "SO_RCVTIMEO_win \<equiv> 0x1006"
abbreviation (input) IP_TOS_win :: int32 where "IP_TOS_win \<equiv> 3"
abbreviation (input) IP_MULTICAST_IF_win :: int32 where "IP_MULTICAST_IF_win \<equiv> 9"
abbreviation (input) IP_MULTICAST_TTL_win :: int32 where "IP_MULTICAST_TTL_win \<equiv> 10"
abbreviation (input) IP_ADD_MEMBERSHIP_win :: int32 where "IP_ADD_MEMBERSHIP_win \<equiv> 12"

definition SetNonblocking_win ::
  "'w os \<Rightarrow> 'a csocket_scheme \<Rightarrow> 'w winsock \<Rightarrow> bool \<times> 'a csocket_scheme \<times> 'w winsock" where
  "SetNonblocking_win os s x =
     (let (r, x1) = winsock_call os (Sys_ioctlsocket (m_socket s) FIONBIO 1) x
      in if i32 (ret r) \<noteq> 0 then (False, TranslateSocketError_win s x1, x1)
         else (True, s\<lparr>m_bIsBlocking := False\<rparr>, x1))"

definition SetBlocking_win ::
  "'w os \<Rightarrow> 'a csocket_scheme \<Rightarrow> 'w winsock \<Rightarrow> bool \<times> 'a csocket_scheme \<times> 'w winsock" where
  "SetBlocking_win os s x =
     (let (r, x1) = winsock_call os (Sys_ioctlsocket (m_socket s) FIONBIO 0) x
      in if i32 (ret r) \<noteq> 0 then (False, s, x1)
         else (True, s\<lparr>m_bIsBlocking := True\<rparr>, x1))"

text \<open>
  \<open>FD_SET\<close> of Windows puts the handle into an array of its own, so no handle is out of range.
\<close>

definition Select_win ::
  "'w os \<Rightarrow> int32 \<Rightarrow> int32 \<Rightarrow> 'a csocket_scheme \<Rightarrow> 'w winsock \<Rightarrow> bool \<times> 'a csocket_scheme \<times> 'w winsock" where
  "Select_win os nTimeoutSec nTimeoutUSec s x =
     (let fd = sint (m_socket s);
          s1 = s\<lparr>m_errorFds := {fd}, m_readFds := {fd}, m_writeFds := {fd}\<rparr>;
          pTimeout = (if 0 < sint nTimeoutSec \<or> 0 < sint nTimeoutUSec
                      then Some (make_timeval nTimeoutSec nTimeoutUSec) else None);
          (r, x1) = winsock_call os (Sys_select (m_socket s1 + 1) (m_readFds s1) (m_writeFds s1)
                                       (m_errorFds s1) pTimeout) x;
          nNumDescriptors = i32 (ret r);
          s2 = (case fdsets r of
                  None \<Rightarrow> s1
                | Some (rd, wr, er) \<Rightarrow> s1\<lparr>m_readFds := rd, m_writeFds := wr, m_errorFds := er\<rparr>)
      in if nNumDescriptors = 0 then (False, SetSocketError SocketTimedout s2, x1)
         else if fd \<in> m_readFds s2 \<or> fd \<in> m_writeFds s2 then
           (let (r2, x2) = winsock_call os (Sys_getsockopt (m_socket s2) SOL_SOCKET_win SO_ERROR_win (LenVar 4)) x1;
                nError = store32 (data r2) 0;
                (bRetVal, x3) = (if i32 (ret r2) = 0 then (nError = 0, errno_win (sint nError) x2)
                                 else (False, x2))
            in (bRetVal, TranslateSocketError_win s2 x3, x3))
         else (False, s2, x1))"

section \<open>CActiveSocket\<close>

definition resolve_server_win ::
  "'w os \<Rightarrow> string \<Rightarrow> uint16 \<Rightarrow> cactive \<Rightarrow> 'w winsock \<Rightarrow> (bool \<times> cactive \<times> 'w winsock) outcome" where
  "resolve_server_win os pAddr nPort s x =
     (let s1 = s\<lparr>m_stServerSockaddr := sockaddr_zero\<lparr>sin_family := ucast AF_INET\<rparr>\<rparr>;
          (r, x1) = winsock_call os (Sys_gethostbyname pAddr) x;
          s2 = s1\<lparr>m_pHE := host r\<rparr>
      in case m_pHE s2 of
           None \<Rightarrow> Returns (False, TranslateSocketError_win s2 x1, x1)
         | Some he \<Rightarrow>
             obind (copy_ip_address os he) (\<lambda>stIpAddress.
               let s3 = s2\<lparr>m_stServerSockaddr := (m_stServerSockaddr s2)\<lparr>sin_addr := stIpAddress\<rparr>\<rparr>
               in if sin_addr (m_stServerSockaddr s3) = error_code SocketError
                  then Returns (False, TranslateSocketError_win s3 x1, x1)
                  else Returns (True,
                    s3\<lparr>m_stServerSockaddr := (m_stServerSockaddr s3)\<lparr>sin_port := htons nPort\<rparr>\<rparr>, x1)))"

definition ConnectTCP_win ::
  "'w os \<Rightarrow> string \<Rightarrow> uint16 \<Rightarrow> cactive \<Rightarrow> 'w winsock \<Rightarrow> (bool \<times> cactive \<times> 'w winsock) outcome" where
  "ConnectTCP_win os pAddr nPort s x =
     obind (resolve_server_win os pAddr nPort s x) (\<lambda>(resolved, s1, x1).
       if \<not> resolved then Returns (False, s1, x1)
       else
         (let (s2, x2) = timer_start_win os s1 x1;
              (r, x3) = winsock_call os (Sys_connect (m_socket s2) (m_stServerSockaddr s2)) x2;
              s3 = TranslateSocketError_win s2 x3;
              (bRetVal, s4, x4) =
                (if i32 (ret r) = error_code SocketError then
                   (if IsNonblocking s3 \<and>
                       (GetSocketError s3 = SocketEwouldblock \<or> GetSocketError s3 = SocketEinprogress)
                    then Select_win os (GetConnectTimeoutSec s3) (GetConnectTimeoutUSec s3) s3 x3
                    else (False, s3, x3))
                 else (True, s3, x3));
              (s5, x5) = timer_end_win os s4 x4
          in Returns (bRetVal, s5, x5)))"

section \<open>CPassiveSocket\<close>

text \<open>\<open>Listen\<close> sets no options.\<close>

definition Listen_win ::
  "'w os \<Rightarrow> string option \<Rightarrow> uint16 \<Rightarrow> int32 \<Rightarrow> cpassive \<Rightarrow> 'w winsock \<Rightarrow> bool \<times> cpassive \<times> 'w winsock" where
  "Listen_win os pAddr nPort nConnectionBacklog s x =
     (let s1 = s\<lparr>m_stServerSockaddr := bind_address os pAddr nPort\<rparr>;
          (s2, x1) = timer_start_win os s1 x;
          (r2, x2) = winsock_call os (Sys_bind (m_socket s2) (m_stServerSockaddr s2)) x1;
          (bRetVal, x3) =
            (if i32 (ret r2) \<noteq> error_code SocketError then
               (if m_nSocketType s2 = SocketTypeTcp then
                  (let (r3, x3) = winsock_call os (Sys_listen (m_socket s2) nConnectionBacklog) x2
                   in (if i32 (ret r3) \<noteq> error_code SocketError then (True, x3) else (False, x3)))
                else (True, x2))
             else (False, x2));
          (s3, x4) = timer_end_win os s2 x3;
          s4 = TranslateSocketError_win s3 x4
      in if bRetVal = False then
           (let error = GetSocketError s4;
                (c, s5, x5) = Close_win os s4 x4
            in (bRetVal, SetSocketError error s5, x5))
         else (bRetVal, s4, x4))"

type_synonym 'w accept_state_win = "cactive \<times> cpassive \<times> 'w winsock \<times> CSocketError"

definition accept_attempt_win :: "'w os \<Rightarrow> 'w accept_state_win \<Rightarrow> 'w accept_state_win outcome" where
  "accept_attempt_win os = (\<lambda>(p, s, x, socketErrno).
     let x0 = errno_win 0 x;
         (r, x1) = winsock_call os (Sys_accept (m_socket s)) x0;
         s1 = (case addr r of None \<Rightarrow> s | Some a \<Rightarrow> s\<lparr>m_stClientSockaddr := a\<rparr>);
         socket = i32 (ret r)
     in if socket \<noteq> -1 then
          (let p1 = TranslateSocketError_win (SetSocketHandle socket p) x1;
               socketErrno1 = GetSocketError p1;
               (r2, x2) = winsock_call os (Sys_getpeername (m_socket s1)) x1;
               p2 = p1\<lparr>m_stClientSockaddr := m_stClientSockaddr s1\<rparr>;
               (r3, x3) = winsock_call os (Sys_getsockname (m_socket s1)) x2;
               p3 = p2\<lparr>m_stServerSockaddr := (case addr r3 of None \<Rightarrow> sockaddr_zero | Some a \<Rightarrow> a)\<rparr>
           in Returns (p3, s1, x3, socketErrno1))
        else
          (let s2 = TranslateSocketError_win s1 x1
           in Returns (p, s2, x1, GetSocketError s2)))"

definition accept_interrupted_win :: "'w accept_state_win \<Rightarrow> bool" where
  "accept_interrupted_win y = (case y of (p, s, x, socketErrno) \<Rightarrow> socketErrno = SocketInterrupted)"

definition CActiveSocket_destroy_win :: "'w os \<Rightarrow> cactive \<Rightarrow> 'w winsock \<Rightarrow> cactive \<times> 'w winsock" where
  "CActiveSocket_destroy_win os s x =
     (let (b, s1, x1) = Close_win os s x in (CSimpleSocket_destroy s1, x1))"

definition Accept_win ::
  "'w os \<Rightarrow> cactive \<Rightarrow> cpassive \<Rightarrow> 'w winsock \<Rightarrow> (cactive option \<times> cpassive \<times> 'w winsock) outcome" where
  "Accept_win os raw s x =
     (if m_nSocketType s \<noteq> SocketTypeTcp
      then Returns (None, SetSocketError SocketProtocolError s, x)
      else
        (let pClientSocket = CSimpleSocket_win SocketTypeTcp raw;
             (s1, x1) = timer_start_win os s x
         in obind (do_while (accept_attempt_win os) accept_interrupted_win (pClientSocket, s1, x1, SocketSuccess))
              (\<lambda>(p, s2, x2, socketErrno).
                 let (s3, x3) = timer_end_win os s2 x2
                 in if socketErrno \<noteq> SocketSuccess
                    then (let (d, x4) = CActiveSocket_destroy_win os p x3 in Returns (None, s3, x4))
                    else Returns (Some p, s3, x3))))"


section \<open>Running the Windows operations\<close>

lemma winsock_call_step:
  assumes "kernel os c (world (process x)) = (r, w)"
  obtains x1 where "winsock_call os c x = (r, x1)" "world (process x1) = w"
    "wsa_error x1 = set_errno r (wsa_error x)" "trace (process x1) = trace (process x) @ [c]"
  using assms by (simp add: winsock_call_def)

lemma timer_win [simp]:
  "m_socket (fst (timer_start_win os s x)) = m_socket s" "m_nSocketType (fst (timer_start_win os s x)) = m_nSocketType s"
  "wsa_error (snd (timer_start_win os s x)) = wsa_error x" "trace (process (snd (timer_start_win os s x))) = trace (process x)"
  "m_socket (fst (timer_end_win os s x)) = m_socket s" "m_socketErrno (fst (timer_end_win os s x)) = m_socketErrno s"
  "wsa_error (snd (timer_end_win os s x)) = wsa_error x" "trace (process (snd (timer_end_win os s x))) = trace (process x)"
  by (simp_all add: timer_start_win_def timer_end_win_def timer_start_eq timer_end_eq)

interpretation accept_win: retry_loop "accept_attempt_win os" accept_interrupted_win "\<lambda>y. snd (snd (snd y))"
  for os :: "'w os"
  by unfold_locales (simp_all add: accept_attempt_win_def accept_interrupted_win_def Let_def split_beta)

text \<open>
  A pass that gets a connection does to the objects what the pass of the Linux build does, but the error
  is the last one that some call left.
\<close>

lemma accept_attempt_win_connected:
  assumes k: "kernel os (Sys_accept (m_socket s)) (world e) = (r, w)"
    and r: "err r = None" "i32 (ret r) \<noteq> -1" and x: "world (process x) = world e" "trace (process x) = trace e"
  shows "\<exists>p1 s1 e1 x1. accept_attempt os (p, s, e, c) = Returns (p1, s1, e1, SocketSuccess)
    \<and> accept_attempt_win os (p, s, x, c)
        = Returns (SetSocketError (translate_wsa (wsa_error x)) p1, s1, x1, translate_wsa (wsa_error x))
    \<and> world (process x1) = world e1 \<and> trace (process x1) = trace e1
    \<and> m_socket p1 = i32 (ret r) \<and> m_pBuffer p1 = m_pBuffer p \<and> GetSocketError p1 = SocketSuccess
    \<and> trace e1 = trace e @ [Sys_accept (m_socket s), Sys_getpeername (m_socket s), Sys_getsockname (m_socket s)]"
proof -
  obtain r2 w2 where k2: "kernel os (Sys_getpeername (m_socket s)) w = (r2, w2)" by fastforce
  obtain r3 w3 where k3: "kernel os (Sys_getsockname (m_socket s)) w2 = (r3, w3)" by fastforce
  have tr: "translate_errno 0 = SocketSuccess" by (simp add: translate_errno_def)
  show ?thesis
    by (cases "addr r"; cases "addr r3")
      (simp_all add: accept_attempt_def accept_attempt_win_def invoke_def winsock_call_def errno_win_def k k2 k3 x
         set_errno_None [OF r(1)] r(2) tr TranslateSocketError_def TranslateSocketError_win_def WSAGetLastError_def
         SetSocketError_def GetSocketError_def SetSocketHandle_def)
qed

lemma CSimpleSocket_win_Tcp: "CSimpleSocket_win SocketTypeTcp raw = CActiveSocket SocketTypeTcp raw"
  by (simp add: CSimpleSocket_win_def CActiveSocket_def)

text \<open>
  A Windows whose calls succeed, except that a \<open>connect\<close> would block; the pending error of a socket is a
  refused connection.
\<close>

definition windows_os :: "unit os" where
  "windows_os =
     \<lparr>kernel = (\<lambda>c w. (case c of
         Sys_accept fd \<Rightarrow> (ok 9)\<lparr>addr := Some sockaddr_zero\<rparr>
       | Sys_gethostbyname p \<Rightarrow> (ok 0)\<lparr>host := Some loopback\<rparr>
       | Sys_connect fd a \<Rightarrow> fail WSAEWOULDBLOCK
       | Sys_select n rd wr ex t \<Rightarrow> ok 1
       | Sys_getsockopt fd l n x \<Rightarrow> (ok 0)\<lparr>data := to_bytes32 10061\<rparr>
       | _ \<Rightarrow> ok 0, w)),
      clock = (\<lambda>w. (timeval_zero, w)), inet_addr = (\<lambda>p. 0), inet_ntoa = (\<lambda>a. []), uninit = (\<lambda>i. 0)\<rparr>"

lemma windows_os_accept: "kernel windows_os (Sys_accept fd) w = ((ok 9)\<lparr>addr := Some sockaddr_zero\<rparr>, w)"
  by (simp add: windows_os_def)

text \<open>
  With no error left over, a connection accepted on Windows is the one accepted on Linux: the
  same object for the client, the same listening object and the same calls.
\<close>

theorem Accept_win_agrees:
  assumes "GetSocketType s = SocketTypeTcp" and "WSAGetLastError x = 0"
    and "kernel os (Sys_accept (m_socket s)) (snd (clock os (world (process x)))) = (r, w)"
    and "err r = None" and "i32 (ret r) \<noteq> -1"
  shows "\<exists>p s' x' e'. Accept_win os raw s x = Returns (Some p, s', x') \<and> Accept os raw s (process x) = Returns (Some p, s', e')
    \<and> m_socket p = i32 (ret r) \<and> GetSocketError p = SocketSuccess
    \<and> world (process x') = world e' \<and> trace (process x') = trace e'"
proof -
  let ?e = "process x" and ?p = "CActiveSocket SocketTypeTcp raw"
  obtain s1 e1 where t: "timer_start os s ?e = (s1, e1)" by fastforce
  then have s1: "m_socket s1 = m_socket s" "world e1 = snd (clock os (world ?e))" by (auto simp: timer_start_eq)
  let ?x1 = "x\<lparr>process := e1\<rparr>"
  have l: "translate_wsa (wsa_error ?x1) = SocketSuccess" using assms(2) by (simp add: WSAGetLastError_def translate_wsa_def)
  have k: "kernel os (Sys_accept (m_socket s1)) (world e1) = (r, w)" using assms(3) s1 by simp
  obtain p2 s2 e2 x2 where P: "accept_attempt os (?p, s1, e1, SocketSuccess) = Returns (p2, s2, e2, SocketSuccess)"
    "accept_attempt_win os (?p, s1, ?x1, SocketSuccess) = Returns (SetSocketError SocketSuccess p2, s2, x2, SocketSuccess)"
    "world (process x2) = world e2" "trace (process x2) = trace e2" "m_socket p2 = i32 (ret r)" "GetSocketError p2 = SocketSuccess"
    using accept_attempt_win_connected [OF k assms(4,5), of ?x1 ?p SocketSuccess] unfolding l by auto
  have p2: "SetSocketError SocketSuccess p2 = p2" using P(6) by (simp add: SetSocketError_def GetSocketError_def)
  have L: "do_while (accept_attempt os) accept_interrupted (?p, s1, e1, SocketSuccess) = Returns (p2, s2, e2, SocketSuccess)"
    by (rule accept.settles [OF P(1)]) simp
  have W: "do_while (accept_attempt_win os) accept_interrupted_win (?p, s1, ?x1, SocketSuccess) = Returns (p2, s2, x2, SocketSuccess)"
    by (rule accept_win.settles [OF P(2) [unfolded p2]]) simp
  show ?thesis
    using assms(1) P(3-6)
    by (simp add: Accept_def Accept_win_def GetSocketType_def t L W timer_start_win_def CSimpleSocket_win_Tcp
        timer_end_win_def timer_end_eq)
qed

theorem Accept_win_agrees_witness:
  "\<exists>p s' x' e'. Accept_win windows_os raw_active (demo_passive SocketTypeTcp 3)
        \<lparr>process = \<lparr>errno = 0, h_errno = 0, world = (), trace = []\<rparr>, wsa_error = 0\<rparr> = Returns (Some p, s', x')
     \<and> Accept windows_os raw_active (demo_passive SocketTypeTcp 3) \<lparr>errno = 0, h_errno = 0, world = (), trace = []\<rparr>
        = Returns (Some p, s', e') \<and> m_socket p = 9"
  using Accept_win_agrees [OF _ _ windows_os_accept, of "demo_passive SocketTypeTcp 3"
      "\<lparr>process = \<lparr>errno = 0, h_errno = 0, world = (), trace = []\<rparr>, wsa_error = 0\<rparr>" raw_active]
  by (auto simp: GetSocketType_def WSAGetLastError_def)

text \<open>
  C24. On Windows a stale error closes new connections: \<open>Accept\<close> clears \<open>errno\<close>, but reads the last
  socket error, which a successful \<open>accept\<close> does not reset. After any earlier failure of some socket
  call, other than an interruption, it takes a connection, closes it and returns null.
\<close>

theorem Accept_win_drops_connection:
  assumes "GetSocketType s = SocketTypeTcp" and "WSAGetLastError x \<notin> {0, WSAEINTR}"
    and "kernel os (Sys_accept (m_socket s)) (snd (clock os (world (process x)))) = (r, w)"
    and "err r = None" and "i32 (ret r) \<noteq> -1"
  shows "\<exists>s' x'. Accept_win os raw s x = Returns (None, s', x')
    \<and> trace (process x') = trace (process x) @ [Sys_accept (m_socket s), Sys_getpeername (m_socket s),
        Sys_getsockname (m_socket s), Sys_close (i32 (ret r))]"
proof -
  let ?e = "process x" and ?p = "CActiveSocket SocketTypeTcp raw"
  obtain s1 e1 where t: "timer_start os s ?e = (s1, e1)" by fastforce
  then have s1: "m_socket s1 = m_socket s" "world e1 = snd (clock os (world ?e))" "trace e1 = trace ?e"
    by (auto simp: timer_start_eq)
  let ?x1 = "x\<lparr>process := e1\<rparr>" and ?c = "translate_wsa (WSAGetLastError x)"
  have l: "translate_wsa (wsa_error ?x1) = ?c" by (simp add: WSAGetLastError_def)
  have c: "?c \<noteq> SocketSuccess" "?c \<noteq> SocketInterrupted"
    using assms(2) windows.success_iff windows.interrupted_iff by simp_all
  have k: "kernel os (Sys_accept (m_socket s1)) (world e1) = (r, w)" using assms(3) s1 by simp
  obtain p2 s2 e2 x2 where P: "accept_attempt_win os (?p, s1, ?x1, SocketSuccess) = Returns (SetSocketError ?c p2, s2, x2, ?c)"
    "m_socket p2 = i32 (ret r)"
    "trace (process x2) = trace ?e @ [Sys_accept (m_socket s), Sys_getpeername (m_socket s), Sys_getsockname (m_socket s)]"
    using accept_attempt_win_connected [OF k assms(4,5), of ?x1 ?p SocketSuccess] s1 unfolding l by auto
  have W: "do_while (accept_attempt_win os) accept_interrupted_win (?p, s1, ?x1, SocketSuccess)
      = Returns (SetSocketError ?c p2, s2, x2, ?c)"
    by (rule accept_win.settles [OF P(1)]) (simp add: c(2))
  show ?thesis
    using assms(1,5) P(2,3) c(1)
    by (simp add: Accept_win_def GetSocketType_def t W timer_start_win_def CSimpleSocket_win_Tcp CActiveSocket_destroy_win_def
        timer_end_win_def timer_end_eq Close_win_def Let_def split_beta IsSocketValid_iff SetSocketError_def winsock_call_def)
qed

theorem Accept_win_drops_connection_witness:
  "\<exists>s' x'. Accept_win windows_os raw_active (demo_passive SocketTypeTcp 3)
        \<lparr>process = \<lparr>errno = 0, h_errno = 0, world = (), trace = []\<rparr>, wsa_error = WSAENOTCONN\<rparr> = Returns (None, s', x')
     \<and> trace (process x') = [Sys_accept 3, Sys_getpeername 3, Sys_getsockname 3, Sys_close 9]"
  using Accept_win_drops_connection [OF _ _ windows_os_accept, of "demo_passive SocketTypeTcp 3"
      "\<lparr>process = \<lparr>errno = 0, h_errno = 0, world = (), trace = []\<rparr>, wsa_error = WSAENOTCONN\<rparr>" raw_active]
  by (simp add: GetSocketType_def WSAGetLastError_def)

text \<open>
  A non-blocking connect on Windows leaves the wrong error: the pending error of the
  socket is stored in \<open>errno\<close>, which is not what is translated, so after the wait the
  error is that of the \<open>connect\<close>, "would block", whether the connection was made or refused.
\<close>

theorem ConnectTCP_win_keeps_would_block:
  assumes "resolve_server_win os pAddr nPort s x = Returns (True, s1, x1)" and "IsNonblocking s1"
    and "kernel os (Sys_connect (m_socket s1) (m_stServerSockaddr s1)) (snd (clock os (world (process x1)))) = (r, w)"
    and "ret r = -1" and "err r = Some WSAEWOULDBLOCK"
    and "\<And>n rd wr ex t. \<exists>r w'. kernel os (Sys_select n rd wr ex t) w = (r, w') \<and> ret r = 1 \<and> err r = None \<and> fdsets r = None
      \<and> fst (kernel os (Sys_getsockopt (m_socket s1) SOL_SOCKET_win SO_ERROR_win (LenVar 4)) w') = (ok 0)\<lparr>data := to_bytes32 pending\<rparr>"
  shows "\<exists>s' x'. ConnectTCP_win os pAddr nPort s x = Returns (pending = 0, s', x')
    \<and> GetSocketError s' = SocketEwouldblock \<and> errno (process x') = sint pending"
proof -
  obtain s2 x2 where t: "timer_start_win os s1 x1 = (s2, x2)" by fastforce
  then have s2: "m_socket s2 = m_socket s1" "m_stServerSockaddr s2 = m_stServerSockaddr s1" "m_bIsBlocking s2 = m_bIsBlocking s1"
    "world (process x2) = snd (clock os (world (process x1)))"
    by (auto simp: timer_start_win_def timer_start_eq)
  obtain x3 where c: "winsock_call os (Sys_connect (m_socket s2) (m_stServerSockaddr s2)) x2 = (r, x3)"
    "world (process x3) = w" "wsa_error x3 = WSAEWOULDBLOCK"
    using assms(3,5) by (auto simp: winsock_call_def s2 set_errno_def)
  define s3 where "s3 = SetSocketError SocketEwouldblock s2"
  have tr: "TranslateSocketError_win s2 x3 = s3"
    by (simp add: TranslateSocketError_win_def WSAGetLastError_def c(3) translate_wsa_def s3_def)
  have s3: "m_socket s3 = m_socket s1" "IsNonblocking s3" "GetSocketError s3 = SocketEwouldblock"
    using s2 assms(2) by (simp_all add: s3_def SetSocketError_def GetSocketError_def IsNonblocking_def)
  have S: "\<exists>s' x'. Select_win os a b s3 x3 = (pending = 0, s', x') \<and> GetSocketError s' = SocketEwouldblock \<and> errno (process x') = sint pending"
    for a b
  proof -
    obtain r2 w2 where k2: "kernel os (Sys_select (m_socket s1 + 1) {sint (m_socket s1)} {sint (m_socket s1)} {sint (m_socket s1)}
        (if 0 < sint a \<or> 0 < sint b then Some (make_timeval a b) else None)) w = (r2, w2)"
      "ret r2 = 1" "err r2 = None" "fdsets r2 = None"
      "fst (kernel os (Sys_getsockopt (m_socket s1) SOL_SOCKET_win SO_ERROR_win (LenVar 4)) w2) = (ok 0)\<lparr>data := to_bytes32 pending\<rparr>"
      using assms(6) by blast
    then show ?thesis
      using s3 c(2,3)
      by (simp add: Select_win_def Let_def split_beta winsock_call_def errno_win_def set_errno_def TranslateSocketError_win_def
          WSAGetLastError_def translate_wsa_def SetSocketError_def GetSocketError_def ok_def)
  qed
  from S [of "GetConnectTimeoutSec s3" "GetConnectTimeoutUSec s3"] show ?thesis
    using assms(1,4) s3
    by (auto simp: ConnectTCP_win_def t s2 c(1) [unfolded s2] tr Let_def split_beta timer_end_win_def timer_end_eq GetSocketError_def)
qed

theorem ConnectTCP_win_keeps_would_block_witness:
  "\<exists>s' x'. ConnectTCP_win windows_os ''127.0.0.1'' 80 ((demo_active SocketTypeTcp 8)\<lparr>m_bIsBlocking := False\<rparr>)
        \<lparr>process = \<lparr>errno = 0, h_errno = 0, world = (), trace = []\<rparr>, wsa_error = 0\<rparr> = Returns (False, s', x')
     \<and> GetSocketError s' = SocketEwouldblock \<and> errno (process x') = WSAECONNREFUSED"
proof -
  let ?s = "(demo_active SocketTypeTcp 8)\<lparr>m_bIsBlocking := False\<rparr>"
  let ?x = "\<lparr>process = \<lparr>errno = 0, h_errno = 0, world = (), trace = []\<rparr>, wsa_error = 0\<rparr> :: unit winsock"
  have g: "kernel windows_os (Sys_gethostbyname p) w = ((ok 0)\<lparr>host := Some loopback\<rparr>, w)"
    "kernel windows_os (Sys_connect fd a) w = (fail WSAEWOULDBLOCK, w)"
    "kernel windows_os (Sys_select n rd wr ex t) w = (ok 1, w)"
    "kernel windows_os (Sys_getsockopt fd l m y) w = ((ok 0)\<lparr>data := to_bytes32 10061\<rparr>, w)"
    for p w fd a n rd wr ex t l m y
    by (simp_all add: windows_os_def)
  obtain s1 x1 where R: "resolve_server_win windows_os ''127.0.0.1'' 80 ?s ?x = Returns (True, s1, x1)" "IsNonblocking s1"
    by (auto simp: resolve_server_win_def winsock_call_def g IsNonblocking_def copy_ip_address_ipv4 [OF loopback_ipv4])
  from ConnectTCP_win_keeps_would_block [OF R g(2), of 10061] show ?thesis by (simp add: g)
qed

section \<open>The blocking mode\<close>

text \<open>
  A failing \<open>SetNonblocking\<close> says why; a failing \<open>SetBlocking\<close> leaves whatever error an earlier
  operation reported. Neither changes the mode.
\<close>

theorem SetBlocking_win_hides_error:
  assumes "kernel os (Sys_ioctlsocket (m_socket s) FIONBIO 0) (world (process x)) = (r, w)"
    and "kernel os (Sys_ioctlsocket (m_socket s) FIONBIO 1) (world (process x)) = (r, w)"
    and "ret r = -1" and "err r = Some n"
  shows "\<exists>x1 x2. SetBlocking_win os s x = (False, s, x1)
    \<and> SetNonblocking_win os s x = (False, SetSocketError (translate_wsa n) s, x2)"
  using assms
  by (simp add: SetBlocking_win_def SetNonblocking_win_def winsock_call_def TranslateSocketError_win_def
      WSAGetLastError_def set_errno_def)

end
