(* ===== verification/Windows_Transfer.thy ===== *)
theory Windows_Transfer imports Windows_Branches begin

text \<open>
  Moving data in a Windows build: \<open>Send\<close>, \<open>Receive\<close>, \<open>Shutdown\<close>. They never touch \<open>errno\<close>, so they
  are the Linux operations over a system whose error and option numbers have been renamed, up to two codes of the
  Windows table: what is proved of those holds of these.
\<close>

section \<open>The transfers\<close>

definition send_attempt_win ::
  "'w os \<Rightarrow> byte list \<Rightarrow> 'a csocket_scheme \<times> 'w winsock \<Rightarrow> ('a csocket_scheme \<times> 'w winsock) outcome" where
  "send_attempt_win os bytes = (\<lambda>(s, x).
     let (r, x1) = winsock_call os (Sys_send (m_socket s) bytes 0) x;
         s1 = s\<lparr>m_nBytesSent := i32 (ret r)\<rparr>
     in Returns (TranslateSocketError_win s1 x1, x1))"

definition sendto_attempt_win ::
  "'w os \<Rightarrow> byte list \<Rightarrow> 'a csocket_scheme \<times> 'w winsock \<Rightarrow> ('a csocket_scheme \<times> 'w winsock) outcome" where
  "sendto_attempt_win os bytes = (\<lambda>(s, x).
     let (r, x1) = winsock_call os (Sys_sendto (m_socket s) bytes 0 (m_stServerSockaddr s)) x;
         s1 = s\<lparr>m_nBytesSent := i32 (ret r)\<rparr>
     in Returns (TranslateSocketError_win s1 x1, x1))"

definition Send_win ::
  "'w os \<Rightarrow> byte list option \<Rightarrow> nat \<Rightarrow> 'a csocket_scheme \<Rightarrow> 'w winsock \<Rightarrow>
     (int32 \<times> 'a csocket_scheme \<times> 'w winsock) outcome" where
  "Send_win os pBuf bytesToSend s x =
     (let s0 = (SetSocketError SocketSuccess s)\<lparr>m_nBytesSent := 0\<rparr>
      in obind
        (case m_nSocketType s0 of
           SocketTypeTcp \<Rightarrow>
             (if IsSocketValid s0 \<and> 0 < bytesToSend \<and> pBuf \<noteq> None then
                (let (s1, x1) = timer_start_win os s0 x
                 in obind (read_buffer (the pBuf) bytesToSend) (\<lambda>bytes.
                    obind (do_while (send_attempt_win os bytes) interrupted (s1, x1)) (\<lambda>(s2, x2).
                    Returns (timer_end_win os s2 x2))))
              else Returns (s0, x))
         | SocketTypeUdp \<Rightarrow>
             (if IsSocketValid s0 \<and> 0 < bytesToSend \<and> pBuf \<noteq> None then
                (let (s1, x1) = timer_start_win os s0 x
                 in obind (read_buffer (the pBuf) bytesToSend) (\<lambda>bytes.
                    obind (do_while (sendto_attempt_win os bytes) interrupted (s1, x1)) (\<lambda>(s2, x2).
                    Returns (timer_end_win os s2 x2))))
              else Returns (s0, x))
         | _ \<Rightarrow> Returns (s0, x))
        (\<lambda>(s', x'). Returns (m_nBytesSent s', s', x')))"

type_synonym ('a, 'w) receive_state_win = "'a csocket_scheme \<times> 'w winsock \<times> byte list"

definition recv_attempt_win ::
  "'w os \<Rightarrow> int32 \<Rightarrow> ('a, 'w) receive_state_win \<Rightarrow> ('a, 'w) receive_state_win outcome" where
  "recv_attempt_win os nMaxBytes = (\<lambda>(s, x, buf).
     let (r, x1) = winsock_call os (Sys_recv (m_socket s) nMaxBytes (m_nFlags s)) x
     in obind (store_at buf (sint (m_nBytesReceived s)) (data r)) (\<lambda>buf1.
        let s1 = s\<lparr>m_nBytesReceived := i32 (ret r)\<rparr>
        in Returns (TranslateSocketError_win s1 x1, x1, buf1)))"

definition recvfrom_multicast_attempt_win ::
  "'w os \<Rightarrow> int32 \<Rightarrow> ('a, 'w) receive_state_win \<Rightarrow> ('a, 'w) receive_state_win outcome" where
  "recvfrom_multicast_attempt_win os nMaxBytes = (\<lambda>(s, x, buf).
     let (r, x1) = winsock_call os (Sys_recvfrom (m_socket s) nMaxBytes 0) x
     in obind (store_at buf 0 (data r)) (\<lambda>buf1.
        let s1 = (case addr r of None \<Rightarrow> s | Some a \<Rightarrow> s\<lparr>m_stMulticastGroup := a\<rparr>);
            s2 = s1\<lparr>m_nBytesReceived := i32 (ret r)\<rparr>
        in Returns (TranslateSocketError_win s2 x1, x1, buf1)))"

definition recvfrom_attempt_win ::
  "'w os \<Rightarrow> int32 \<Rightarrow> ('a, 'w) receive_state_win \<Rightarrow> ('a, 'w) receive_state_win outcome" where
  "recvfrom_attempt_win os nMaxBytes = (\<lambda>(s, x, buf).
     let (r, x1) = winsock_call os (Sys_recvfrom (m_socket s) nMaxBytes 0) x
     in obind (store_at buf 0 (data r)) (\<lambda>buf1.
        let s1 = (case addr r of None \<Rightarrow> s | Some a \<Rightarrow> s\<lparr>m_stClientSockaddr := a\<rparr>);
            s2 = s1\<lparr>m_nBytesReceived := i32 (ret r)\<rparr>
        in Returns (TranslateSocketError_win s2 x1, x1, buf1)))"

definition Receive_win ::
  "'w os \<Rightarrow> int32 \<Rightarrow> byte list option \<Rightarrow> 'a csocket_scheme \<Rightarrow> 'w winsock \<Rightarrow>
     (int32 \<times> byte list option \<times> 'a csocket_scheme \<times> 'w winsock) outcome" where
  "Receive_win os nMaxBytes pBuffer s x =
     (let s0 = s\<lparr>m_nBytesReceived := 0\<rparr>
      in if IsSocketValid s0 = False then Returns (m_nBytesReceived s0, pBuffer, s0, x)
         else
           obind (if pBuffer = None then prepare_buffer os nMaxBytes s0 else Returns s0) (\<lambda>s1.
             let pWorkBuffer = (case pBuffer of None \<Rightarrow> the (m_pBuffer s1) | Some b \<Rightarrow> b);
                 s2 = SetSocketError SocketSuccess s1;
                 (s3, x3) = timer_start_win os s2 x
             in obind
               (case m_nSocketType s3 of
                  SocketTypeTcp \<Rightarrow>
                    do_while (recv_attempt_win os nMaxBytes) interrupted (s3, x3, pWorkBuffer)
                | SocketTypeUdp \<Rightarrow>
                    (if GetMulticast s3 = True
                     then do_while (recvfrom_multicast_attempt_win os nMaxBytes) interrupted (s3, x3, pWorkBuffer)
                     else do_while (recvfrom_attempt_win os nMaxBytes) interrupted (s3, x3, pWorkBuffer))
                | _ \<Rightarrow> Returns (s3, x3, pWorkBuffer))
               (\<lambda>(s4, x4, buf).
                  let s5 = (if pBuffer = None then s4\<lparr>m_pBuffer := Some buf\<rparr> else s4);
                      (s6, x6) = timer_end_win os s5 x4;
                      s7 = TranslateSocketError_win s6 x6;
                      s8 = (if m_nBytesReceived s7 = error_code SocketError \<and> m_pBuffer s7 \<noteq> None
                            then s7\<lparr>m_pBuffer := None\<rparr> else s7)
                  in Returns (m_nBytesReceived s8, (if pBuffer = None then None else Some buf), s8, x6))))"

definition Shutdown_win ::
  "'w os \<Rightarrow> CShutdownMode \<Rightarrow> 'a csocket_scheme \<Rightarrow> 'w winsock \<Rightarrow> bool \<times> 'a csocket_scheme \<times> 'w winsock" where
  "Shutdown_win os nShutdown s x =
     (let (r, x1) = winsock_call os (Sys_shutdown (m_socket s) (shutdown_code nShutdown)) x;
          nRetVal = i32 (ret r);
          s1 = TranslateSocketError_win s x1
      in (nRetVal = error_code SocketSuccess, s1, x1))"

section \<open>Renaming the errors\<close>

text \<open>
  A Linux number for each Windows number, with the same translation as far as there is one. Two codes the Linux build
  never gives to a call that failed: the invalid pointer, which is \<open>WSAEFAULT\<close>, is the invalid buffer of \<open>EFAULT\<close> there,
  and the invalid address of \<open>WSANO_DATA\<close>, an error about host names for which no \<open>errno\<close> exists, is an unknown
  error. \<open>linux_code\<close> renames these two, \<open>linux_names\<close> in an object.
\<close>

definition posix_error :: "int \<Rightarrow> int" where
  "posix_error n = (case translate_wsa n of
     SocketSuccess \<Rightarrow> 0 | SocketNotconnected \<Rightarrow> ENOTCONN | SocketInterrupted \<Rightarrow> EINTR | SocketInvalidSocket \<Rightarrow> ENOTSOCK
   | SocketConnectionRefused \<Rightarrow> ECONNREFUSED | SocketTimedout \<Rightarrow> ETIMEDOUT | SocketEinprogress \<Rightarrow> EINPROGRESS
   | SocketConnectionAborted \<Rightarrow> ECONNABORTED | SocketEwouldblock \<Rightarrow> EWOULDBLOCK | SocketConnectionReset \<Rightarrow> ECONNRESET
   | SocketAddressInUse \<Rightarrow> EADDRINUSE | SocketInvalidPointer \<Rightarrow> EFAULT | _ \<Rightarrow> -1)"

fun linux_code :: "CSocketError \<Rightarrow> CSocketError" where
  "linux_code SocketInvalidPointer = SocketInvalidSocketBuffer"
| "linux_code SocketInvalidAddress = SocketEunknown"
| "linux_code c = c"

definition linux_names :: "'a csocket_scheme \<Rightarrow> 'a csocket_scheme" where
  "linux_names s = s\<lparr>m_socketErrno := linux_code (m_socketErrno s)\<rparr>"

lemma translate_posix_error: "translate_errno (posix_error n) = linux_code (translate_wsa n)"
  by (simp add: posix_error_def translate_wsa_def translate_errno_def)

lemma linux_code_eq [simp]:
  "linux_code c = SocketSuccess \<longleftrightarrow> c = SocketSuccess" "linux_code c = SocketInterrupted \<longleftrightarrow> c = SocketInterrupted"
  "linux_code c = SocketNotconnected \<longleftrightarrow> c = SocketNotconnected"
  by (cases c; simp)+

lemma linux_names_sel [simp]:
  "m_socketErrno (linux_names s) = linux_code (m_socketErrno s)" "m_socket (linux_names s) = m_socket s"
  "m_pBuffer (linux_names s) = m_pBuffer s" "m_nBufferSize (linux_names s) = m_nBufferSize s"
  "m_nSocketType (linux_names s) = m_nSocketType s" "m_nBytesReceived (linux_names s) = m_nBytesReceived s"
  "m_nBytesSent (linux_names s) = m_nBytesSent s" "m_nFlags (linux_names s) = m_nFlags s"
  "m_bIsBlocking (linux_names s) = m_bIsBlocking s" "m_bIsMulticast (linux_names s) = m_bIsMulticast s"
  "m_stServerSockaddr (linux_names s) = m_stServerSockaddr s" "m_stClientSockaddr (linux_names s) = m_stClientSockaddr s"
  "m_stMulticastGroup (linux_names s) = m_stMulticastGroup s" "m_timer (linux_names s) = m_timer s"
  "m_stLinger (linux_names s) = m_stLinger s" "m_stRecvTimeout (linux_names s) = m_stRecvTimeout s"
  "m_stSendTimeout (linux_names s) = m_stSendTimeout s"
  by (simp_all add: linux_names_def)

lemma linux_names_upd [simp]:
  fixes s :: "'a csocket_scheme"
  shows "m_nBytesSent_update f1 (linux_names s) = linux_names (m_nBytesSent_update f1 s)"
    "m_nBytesReceived_update f2 (linux_names s) = linux_names (m_nBytesReceived_update f2 s)"
    "m_socket_update f3 (linux_names s) = linux_names (m_socket_update f3 s)"
    "m_pBuffer_update f4 (linux_names s) = linux_names (m_pBuffer_update f4 s)"
    "m_nBufferSize_update f5 (linux_names s) = linux_names (m_nBufferSize_update f5 s)"
    "m_timer_update f6 (linux_names s) = linux_names (m_timer_update f6 s)"
    "m_stMulticastGroup_update f7 (linux_names s) = linux_names (m_stMulticastGroup_update f7 s)"
    "m_stClientSockaddr_update f8 (linux_names s) = linux_names (m_stClientSockaddr_update f8 s)"
    "m_stServerSockaddr_update f9 (linux_names s) = linux_names (m_stServerSockaddr_update f9 s)"
    "m_bIsMulticast_update f10 (linux_names s) = linux_names (m_bIsMulticast_update f10 s)"
    "m_stLinger_update f11 (linux_names s) = linux_names (m_stLinger_update f11 s)"
    "m_stRecvTimeout_update f12 (linux_names s) = linux_names (m_stRecvTimeout_update f12 s)"
    "m_stSendTimeout_update f13 (linux_names s) = linux_names (m_stSendTimeout_update f13 s)"
  by (simp_all add: linux_names_def)

lemma linux_names_error [simp]:
  "linux_code c = c \<Longrightarrow> SetSocketError c (linux_names s) = linux_names (SetSocketError c s)"
  "linux_code c = c \<Longrightarrow> m_socketErrno_update (\<lambda>_. c) (linux_names s) = linux_names (m_socketErrno_update (\<lambda>_. c) s)"
  by (simp_all add: linux_names_def SetSocketError_def)

lemma linux_names_query [simp]:
  "IsSocketValid (linux_names s) = IsSocketValid s" "GetMulticast (linux_names s) = GetMulticast s"
  "GetSocketType (linux_names s) = GetSocketType s" "GetData (linux_names s) = GetData s"
  "GetSocketError (linux_names s) = linux_code (GetSocketError s)" "GetBytesReceived (linux_names s) = GetBytesReceived s"
  "IsNonblocking (linux_names s) = IsNonblocking s" "interrupted (linux_names s, y) = interrupted (s, y)"
  "buffer_ok (linux_names s) = buffer_ok s"
  by (simp_all add: IsSocketValid_iff GetMulticast_def GetSocketType_def GetData_def GetSocketError_def GetBytesReceived_def
      IsNonblocking_def interrupted_def buffer_ok_def split: option.split)

text \<open>
  The levels and the names of socket options have other numbers too. The calls of the file library,
  which Windows keeps apart from the sockets, store their errors in \<open>errno\<close>.
\<close>

definition windows_option :: "int32 \<Rightarrow> int32 \<Rightarrow> int32 \<times> int32" where
  "windows_option l n =
     (if l = SOL_SOCKET then
        (SOL_SOCKET_win,
         if n = SO_REUSEADDR then SO_REUSEADDR_win else if n = SO_ERROR then SO_ERROR_win
         else if n = SO_SNDBUF then SO_SNDBUF_win else if n = SO_RCVBUF then SO_RCVBUF_win
         else if n = SO_LINGER then SO_LINGER_win else if n = SO_RCVTIMEO then SO_RCVTIMEO_win
         else if n = SO_SNDTIMEO then SO_SNDTIMEO_win else n)
      else if l = IPPROTO_IP then
        (l, if n = IP_TOS then IP_TOS_win else if n = IP_MULTICAST_IF then IP_MULTICAST_IF_win
            else if n = IP_MULTICAST_TTL then IP_MULTICAST_TTL_win
            else if n = IP_ADD_MEMBERSHIP then IP_ADD_MEMBERSHIP_win else n)
      else (l, n))"

definition linux_option :: "int32 \<Rightarrow> int32 \<Rightarrow> int32 \<times> int32" where
  "linux_option l n =
     (if l = SOL_SOCKET_win then
        (SOL_SOCKET,
         if n = SO_REUSEADDR_win then SO_REUSEADDR else if n = SO_ERROR_win then SO_ERROR
         else if n = SO_SNDBUF_win then SO_SNDBUF else if n = SO_RCVBUF_win then SO_RCVBUF
         else if n = SO_LINGER_win then SO_LINGER else if n = SO_RCVTIMEO_win then SO_RCVTIMEO
         else if n = SO_SNDTIMEO_win then SO_SNDTIMEO else n)
      else if l = IPPROTO_IP then
        (l, if n = IP_TOS_win then IP_TOS else if n = IP_MULTICAST_IF_win then IP_MULTICAST_IF
            else if n = IP_MULTICAST_TTL_win then IP_MULTICAST_TTL
            else if n = IP_ADD_MEMBERSHIP_win then IP_ADD_MEMBERSHIP else n)
      else (l, n))"

fun map_option_of_call :: "(int32 \<Rightarrow> int32 \<Rightarrow> int32 \<times> int32) \<Rightarrow> syscall \<Rightarrow> syscall" where
  "map_option_of_call f (Sys_setsockopt fd l n v) = (let (l', n') = f l n in Sys_setsockopt fd l' n' v)"
| "map_option_of_call f (Sys_getsockopt fd l n v) = (let (l', n') = f l n in Sys_getsockopt fd l' n' v)"
| "map_option_of_call f c = c"

lemma map_option_of_call_iff [simp]:
  "map_option_of_call f c = Sys_send fd b g \<longleftrightarrow> c = Sys_send fd b g"
  "map_option_of_call f c = Sys_recv fd n h \<longleftrightarrow> c = Sys_recv fd n h"
  "map_option_of_call f c = Sys_close fd \<longleftrightarrow> c = Sys_close fd"
  "map_option_of_call f c = Sys_accept fd \<longleftrightarrow> c = Sys_accept fd"
  "map_option_of_call f c = Sys_getpeername fd \<longleftrightarrow> c = Sys_getpeername fd"
  "map_option_of_call f c = Sys_getsockname fd \<longleftrightarrow> c = Sys_getsockname fd"
  "map_option_of_call f c = Sys_bind fd a \<longleftrightarrow> c = Sys_bind fd a"
  by (cases c; auto split: prod.splits)+

fun file_call :: "syscall \<Rightarrow> bool" where
  "file_call (Sys_lseek fd n k) = True"
| "file_call (Sys_read fd n) = True"
| "file_call c = False"

abbreviation (input) windows_call :: "syscall \<Rightarrow> syscall" where
  "windows_call \<equiv> map_option_of_call windows_option"

abbreviation (input) linux_call :: "syscall \<Rightarrow> syscall" where
  "linux_call \<equiv> map_option_of_call linux_option"

text \<open>
  The system with its errors and options renamed, and a Windows process as a Linux one: the last error
  takes the place of \<open>errno\<close>.
\<close>

definition posix_reply :: "syscall \<Rightarrow> reply \<Rightarrow> reply" where
  "posix_reply c r = r\<lparr>err := (if file_call c then None else map_option posix_error (err r)), herr := None\<rparr>"

definition posix_os :: "'w os \<Rightarrow> 'w os" where
  "posix_os os = os\<lparr>kernel := (\<lambda>c w. let (r, w') = kernel os (windows_call c) w in (posix_reply c r, w'))\<rparr>"

definition posix_env :: "'w winsock \<Rightarrow> 'w env" where
  "posix_env x = (process x)\<lparr>errno := posix_error (wsa_error x), trace := map linux_call (trace (process x))\<rparr>"

lemma posix_reply_sel [simp]:
  "ret (posix_reply c r) = ret r" "data (posix_reply c r) = data r" "addr (posix_reply c r) = addr r"
  "host (posix_reply c r) = host r" "herr (posix_reply c r) = None"
  by (simp_all add: posix_reply_def)

lemma posix_os_sel [simp]:
  "clock (posix_os os) = clock os" "uninit (posix_os os) = uninit os" "inet_addr (posix_os os) = inet_addr os"
  by (simp_all add: posix_os_def)

lemma posix_env_world [simp]: "world (posix_env x) = world (process x)"
  by (simp add: posix_env_def)

text \<open>A call that has the same name in both.\<close>

definition named :: "syscall \<Rightarrow> bool" where
  "named c \<longleftrightarrow> linux_call (windows_call c) = c"

lemma named_simps [simp]:
  "named (Sys_send fd b f)" "named (Sys_sendto fd b f a)" "named (Sys_recv fd n g)" "named (Sys_recvfrom fd n g)"
  "named (Sys_shutdown fd n)" "named (Sys_close fd)" "named (Sys_gethostbyname p)" "named (Sys_connect fd a)"
  "named (Sys_getpeername fd)" "named (Sys_getsockname fd)" "named (Sys_bind fd a)" "named (Sys_read i j)" "named (Sys_lseek i k j)"
  by (simp_all add: named_def)

lemma posix_call:
  assumes "named c" and "\<not> file_call c"
  shows "invoke (posix_os os) c (posix_env x) =
     (posix_reply c (fst (winsock_call os (windows_call c) x)), posix_env (snd (winsock_call os (windows_call c) x)))"
  using assms
  by (cases "err (fst (kernel os (windows_call c) (world (process x))))")
     (simp_all add: invoke_def winsock_call_def posix_os_def posix_env_def posix_reply_def named_def Let_def split_beta set_errno_def)

lemma posix_timer:
  "timer_start (posix_os os) (linux_names s) (posix_env x)
     = (linux_names (fst (timer_start_win os s x)), posix_env (snd (timer_start_win os s x)))"
  "timer_end (posix_os os) (linux_names s) (posix_env x)
     = (linux_names (fst (timer_end_win os s x)), posix_env (snd (timer_end_win os s x)))"
  by (simp_all add: timer_start_eq timer_end_eq timer_start_win_def timer_end_win_def posix_env_def)

lemma posix_translate: "TranslateSocketError (linux_names s) (posix_env x) = linux_names (TranslateSocketError_win s x)"
  by (simp add: TranslateSocketError_def TranslateSocketError_win_def WSAGetLastError_def posix_env_def translate_posix_error
      SetSocketError_def linux_names_def)

lemma prepare_buffer_posix: "prepare_buffer (posix_os os) n (linux_names s) = map_outcome linux_names (prepare_buffer os n s)"
  by (auto simp: prepare_buffer_def Let_def split: option.split)

section \<open>The passes\<close>

abbreviation (input) posix_send :: "'a csocket_scheme \<times> 'w winsock \<Rightarrow> 'a csocket_scheme \<times> 'w env" where
  "posix_send \<equiv> \<lambda>(s, x). (linux_names s, posix_env x)"

abbreviation (input) posix_receive :: "('a, 'w) receive_state_win \<Rightarrow> ('a, 'w) receive_state" where
  "posix_receive \<equiv> \<lambda>(s, x, buf). (linux_names s, posix_env x, buf)"

lemma send_pass_posix:
  "send_attempt (posix_os os) b (posix_send y) = map_outcome posix_send (send_attempt_win os b y)"
  "sendto_attempt (posix_os os) b (posix_send y) = map_outcome posix_send (sendto_attempt_win os b y)"
  "interrupted (posix_send y) = interrupted y"
  by (simp_all add: send_attempt_def send_attempt_win_def sendto_attempt_def sendto_attempt_win_def posix_call Let_def split_beta
      posix_translate interrupted_def)

lemma send_loop_posix:
  shows "do_while (send_attempt (posix_os os) b) interrupted (linux_names s, posix_env x)
      = map_outcome posix_send (do_while (send_attempt_win os b) interrupted (s, x))"
    and "do_while (sendto_attempt (posix_os os) b) interrupted (linux_names s, posix_env x)
      = map_outcome posix_send (do_while (sendto_attempt_win os b) interrupted (s, x))"
proof -
  have "do_while (send_attempt (posix_os os) b) interrupted (posix_send (s, x))
      = map_outcome posix_send (do_while (send_attempt_win os b) interrupted (s, x))"
    by (rule do_while_map [where P = "\<lambda>y. True"]) (simp_all only: send_pass_posix simp_thms)
  then show "do_while (send_attempt (posix_os os) b) interrupted (linux_names s, posix_env x)
      = map_outcome posix_send (do_while (send_attempt_win os b) interrupted (s, x))" by simp
  have "do_while (sendto_attempt (posix_os os) b) interrupted (posix_send (s, x))
      = map_outcome posix_send (do_while (sendto_attempt_win os b) interrupted (s, x))"
    by (rule do_while_map [where P = "\<lambda>y. True"]) (simp_all only: send_pass_posix simp_thms)
  then show "do_while (sendto_attempt (posix_os os) b) interrupted (linux_names s, posix_env x)
      = map_outcome posix_send (do_while (sendto_attempt_win os b) interrupted (s, x))" by simp
qed

lemma Send_posix:
  "Send (posix_os os) pBuf n (linux_names s) (posix_env x)
    = map_outcome (\<lambda>(k, s', x'). (k, linux_names s', posix_env x')) (Send_win os pBuf n s x)"
  by (cases "m_nSocketType s"; cases pBuf)
    (simp_all add: Send_def Send_win_def Let_def posix_timer split_beta obind_map_outcome map_obind obind_assoc send_loop_posix
      SetSocketError_def)

text \<open>
  A pass of the loops of \<open>Receive\<close>, in both builds.
\<close>

definition posix_pass ::
  "(('a, 'w) receive_state \<Rightarrow> ('a, 'w) receive_state outcome) \<Rightarrow>
     (('a, 'w) receive_state_win \<Rightarrow> ('a, 'w) receive_state_win outcome) \<Rightarrow> bool" where
  "posix_pass body body_win \<longleftrightarrow>
     (\<forall>s x buf. body (linux_names s, posix_env x, buf) = map_outcome posix_receive (body_win (s, x, buf)))"

lemma receive_pass_posix:
  "posix_pass (recv_attempt (posix_os os) n) (recv_attempt_win os n)"
  "posix_pass (recvfrom_attempt (posix_os os) n) (recvfrom_attempt_win os n)"
  "posix_pass (recvfrom_multicast_attempt (posix_os os) n) (recvfrom_multicast_attempt_win os n)"
  by (auto simp: posix_pass_def recv_attempt_def recv_attempt_win_def recvfrom_attempt_def recvfrom_attempt_win_def recvfrom_multicast_attempt_def
      recvfrom_multicast_attempt_win_def posix_call Let_def split_beta map_obind posix_translate
      intro!: obind_cong_Returns split: option.split)

lemma receive_loop_posix:
  assumes "posix_pass body body_win"
  shows "do_while body interrupted (linux_names s, posix_env x, buf)
    = map_outcome posix_receive (do_while body_win interrupted (s, x, buf))"
proof -
  have "do_while body interrupted (posix_receive (s, x, buf)) = map_outcome posix_receive (do_while body_win interrupted (s, x, buf))"
    by (rule do_while_map [where P = "\<lambda>y. True"]) (use assms in \<open>auto simp: posix_pass_def interrupted_def\<close>)
  then show ?thesis by simp
qed

text \<open>What follows the loop.\<close>

lemma posix_obind:
  assumes "l' = map_outcome posix_receive l"
    and "\<And>s x buf. f' (linux_names s, posix_env x, buf) = map_outcome g (f (s, x, buf))"
  shows "obind l' f' = map_outcome g (obind l f)"
  using assms by (cases l) auto

lemma Receive_posix:
  "Receive (posix_os os) n pBuffer (linux_names s) (posix_env x)
    = map_outcome (\<lambda>(k, b, s', x'). (k, b, linux_names s', posix_env x')) (Receive_win os n pBuffer s x)"
proof (cases "IsSocketValid s")
  case False
  then show ?thesis by (simp add: Receive_def Receive_win_def IsSocketValid_iff)
next
  case True
  let ?s0 = "s\<lparr>m_nBytesReceived := 0\<rparr>"
  have v: "IsSocketValid ?s0 = True" using True by (simp add: IsSocketValid_iff)
  note loops = receive_pass_posix [THEN receive_loop_posix]
  have first: "(if pBuffer = None then prepare_buffer (posix_os os) n (linux_names ?s0) else Returns (linux_names ?s0))
      = map_outcome linux_names (if pBuffer = None then prepare_buffer os n ?s0 else Returns ?s0)"
    by (simp add: prepare_buffer_posix)
  show ?thesis
  proof (cases "if pBuffer = None then prepare_buffer os n ?s0 else Returns ?s0")
    case (Returns s1)
    obtain s3 x3 where t: "timer_start_win os (SetSocketError SocketSuccess s1) x = (s3, x3)" by fastforce
    have t': "timer_start (posix_os os) (linux_names (SetSocketError SocketSuccess s1)) (posix_env x) = (linux_names s3, posix_env x3)"
      by (simp add: posix_timer t)
    show ?thesis
      unfolding Receive_def Receive_win_def Let_def
      by (simp only: linux_names_upd linux_names_query v first Returns outcome.map obind.simps t case_prod_conv simp_thms if_False
          linux_names_sel linux_names_error linux_code.simps t', rule posix_obind)
        ((cases "m_nSocketType s3"; simp add: loops) [1],
         (cases "pBuffer = None"; auto simp: split_beta posix_timer posix_translate) [1])
  qed (simp_all only: Receive_def Receive_win_def linux_names_upd linux_names_query first Let_def v if_False simp_thms obind.simps outcome.map)
qed

section \<open>The last error stays within a set\<close>

text \<open>
  Calls that succeed keep the last error, so it stays in a set that holds it and all errors that
  failing calls store.
\<close>

definition error_in :: "int set \<Rightarrow> 'w winsock \<Rightarrow> bool" where
  "error_in E x \<longleftrightarrow> wsa_error x \<in> E"

definition errors_in :: "int set \<Rightarrow> 'w os \<Rightarrow> bool" where
  "errors_in E os \<longleftrightarrow> (\<forall>c w n. err (fst (kernel os c w)) = Some n \<longrightarrow> n \<in> E)"

lemma error_in_call: "errors_in E os \<Longrightarrow> error_in E x \<Longrightarrow> error_in E (snd (winsock_call os c x))"
  by (cases "err (fst (kernel os c (world (process x))))")
     (auto simp: winsock_call_def errors_in_def error_in_def Let_def split_beta set_errno_def)

lemma error_in_update [simp]:
  "error_in E (errno_win n x) = error_in E x"
  "error_in E (snd (timer_start_win os s x)) = error_in E x" "error_in E (snd (timer_end_win os s x)) = error_in E x"
  by (simp_all add: error_in_def errno_win_def timer_start_win_def timer_end_win_def timer_start_eq timer_end_eq)

lemma error_in_timer: "error_in E x \<Longrightarrow> timer_end_win os s x = (s', x') \<Longrightarrow> error_in E x'" "error_in E x \<Longrightarrow> timer_start_win os s x = (s', x') \<Longrightarrow> error_in E x'"
  by (metis snd_conv error_in_update(3)) (metis snd_conv error_in_update(2))

lemma error_in_Close:
  assumes "errors_in E os" and "error_in E x"
  shows "error_in E (snd (snd (Close_win os s x)))"
  using assms by (auto simp: Close_win_def Let_def split_beta error_in_call)

lemma error_in_send_pass:
  assumes "errors_in E os" and "error_in E (snd u)"
  shows "pred_outcome (\<lambda>v. error_in E (snd v)) (send_attempt_win os b u)"
    and "pred_outcome (\<lambda>v. error_in E (snd v)) (sendto_attempt_win os b u)"
  using assms by (auto simp: send_attempt_win_def sendto_attempt_win_def Let_def split_beta error_in_call)

lemma error_in_Send:
  assumes "errors_in E os" and "error_in E x"
  shows "pred_outcome (\<lambda>(k, s', x'). error_in E x') (Send_win os pBuf n s x)"
proof -
  have loop: "pred_outcome (\<lambda>v. error_in E (snd v)) (do_while (send_attempt_win os b) interrupted y)"
    "pred_outcome (\<lambda>v. error_in E (snd v)) (do_while (sendto_attempt_win os b) interrupted y)" if "error_in E (snd y)" for b and y :: "'b csocket_scheme \<times> 'a winsock"
    by (rule pred_do_while, rule that, rule error_in_send_pass [OF assms(1)], assumption)+
  have read: "pred_outcome (\<lambda>_. True) m" for m :: "byte list outcome" by (cases m) auto
  show ?thesis
    unfolding Send_win_def Let_def
    by (rule pred_obind [where Q = "\<lambda>(s, x). error_in E x"])
       (auto simp: assms(2) split_beta split: CSocketType.split intro!: pred_obind [OF read] pred_obind [OF loop(1)] pred_obind [OF loop(2)])
qed

lemma error_in_receive_pass:
  assumes "errors_in E os" and "error_in E (fst (snd u))"
  shows "pred_outcome (\<lambda>v. error_in E (fst (snd v))) (recv_attempt_win os n u)"
    and "pred_outcome (\<lambda>v. error_in E (fst (snd v))) (recvfrom_attempt_win os n u)"
    and "pred_outcome (\<lambda>v. error_in E (fst (snd v))) (recvfrom_multicast_attempt_win os n u)"
  using assms
  by (auto simp: recv_attempt_win_def recvfrom_attempt_win_def recvfrom_multicast_attempt_win_def Let_def split_beta
      error_in_call intro!: pred_obind [where Q = "\<lambda>_. True"] simp: store_at_def)

lemma error_in_Receive:
  assumes "errors_in E os" and "error_in E x"
  shows "pred_outcome (\<lambda>(k, b, s', x'). error_in E x') (Receive_win os n p s x)"
proof -
  let ?P = "\<lambda>v. error_in E (fst (snd v))"
  have loop: "pred_outcome ?P (do_while (recv_attempt_win os n) interrupted y)"
    "pred_outcome ?P (do_while (recvfrom_attempt_win os n) interrupted y)"
    "pred_outcome ?P (do_while (recvfrom_multicast_attempt_win os n) interrupted y)" if "?P y"
    for y :: "('b, 'a) receive_state_win"
    by (rule pred_do_while, rule that, rule error_in_receive_pass [OF assms(1)], assumption)+
  have any: "pred_outcome (\<lambda>_. True) m" for m :: "'b csocket_scheme outcome" by (cases m) auto
  show ?thesis
    unfolding Receive_win_def Let_def split_beta
    by (auto simp: assms(2) split_beta intro!: pred_obind [OF any] pred_obind [where Q = ?P] loop split: CSocketType.split)
qed

lemma Close_posix:
  "Close (posix_os os) (linux_names s) (posix_env x) = (let (b, s', x') = Close_win os s x in (b, linux_names s', posix_env x'))"
  by (simp add: Close_def Close_win_def posix_call posix_translate Let_def split_beta)

section \<open>The refinement\<close>

text \<open>
  C25. On Windows \<open>Send\<close>, \<open>Receive\<close>, \<open>Shutdown\<close> and \<open>Close\<close> refine the Linux operations, whatever the system
  answers: with the error numbers renamed and the last socket error seen as \<open>errno\<close>, they make the same calls and give
  the same results, faults, loops that never end and objects, but for the error code in an object where
  no Linux call has it: the invalid pointer of \<open>WSAEFAULT\<close> stands for the invalid buffer of \<open>EFAULT\<close>,
  and the invalid address of \<open>WSANO_DATA\<close>, for which there is no \<open>errno\<close>, for an unknown error (\<open>linux_names\<close>).
\<close>

theorem transfers_win_refine:
  "Send (posix_os os) pBuf n (linux_names s) (posix_env x)
      = map_outcome (\<lambda>(k, s', x'). (k, linux_names s', posix_env x')) (Send_win os pBuf n s x)
    \<and> Receive (posix_os os) m pBuffer (linux_names s) (posix_env x)
        = map_outcome (\<lambda>(k, b, s', x'). (k, b, linux_names s', posix_env x')) (Receive_win os m pBuffer s x)
    \<and> Shutdown (posix_os os) h (linux_names s) (posix_env x)
        = (let (b, s', x') = Shutdown_win os h s x in (b, linux_names s', posix_env x'))
    \<and> Close (posix_os os) (linux_names s) (posix_env x) = (let (b, s', x') = Close_win os s x in (b, linux_names s', posix_env x'))"
proof (intro conjI)
  show "Send (posix_os os) pBuf n (linux_names s) (posix_env x)
      = map_outcome (\<lambda>(k, s', x'). (k, linux_names s', posix_env x')) (Send_win os pBuf n s x)"
    by (rule Send_posix)
  show "Receive (posix_os os) m pBuffer (linux_names s) (posix_env x)
      = map_outcome (\<lambda>(k, b, s', x'). (k, b, linux_names s', posix_env x')) (Receive_win os m pBuffer s x)"
    by (rule Receive_posix)
  show "Shutdown (posix_os os) h (linux_names s) (posix_env x)
      = (let (b, s', x') = Shutdown_win os h s x in (b, linux_names s', posix_env x'))"
    by (simp add: Shutdown_def Shutdown_win_def posix_call posix_translate Let_def split_beta)
  show "Close (posix_os os) (linux_names s) (posix_env x) = (let (b, s', x') = Close_win os s x in (b, linux_names s', posix_env x'))"
    by (rule Close_posix)
qed

theorem transfers_win_refine_witness:
  "\<exists>s' x'. Send_win windows_os (Some [104, 105]) 2 (demo_active SocketTypeTcp 8)
        \<lparr>process = \<lparr>errno = 0, h_errno = 0, world = (), trace = []\<rparr>, wsa_error = WSAENOTCONN\<rparr> = Returns (0, s', x')
     \<and> GetSocketError s' = SocketNotconnected \<and> trace (process x') = [Sys_send 8 [104, 105] 0]"
proof -
  let ?s = "demo_active SocketTypeTcp 8"
  let ?x = "\<lparr>process = \<lparr>errno = 0, h_errno = 0, world = (), trace = []\<rparr>, wsa_error = WSAENOTCONN\<rparr> :: unit winsock"
  have sd: "sends_data (Some [104, 105]) 2 (linux_names ?s)" by (simp add: sends_data_def IsSocketValid_iff)
  have sc: "send_call (linux_names ?s) b = Sys_send 8 b 0" for b by (simp add: send_call_def)
  have k: "kernel (posix_os windows_os) (Sys_send 8 b 0) w = (posix_reply (Sys_send 8 b 0) (ok 0), w)" for b w
    by (simp add: posix_os_def windows_os_def)
  have e: "set_errno (posix_reply c (ok 0)) m = m" for c m by (simp add: set_errno_def posix_reply_def)
  have p: "posix_error WSAENOTCONN = ENOTCONN" by (simp add: posix_error_def translate_wsa_def)
  obtain s' e' where L: "Send (posix_os windows_os) (Some [104, 105]) 2 (linux_names ?s) (posix_env ?x) = Returns (0, s', e')"
    "GetSocketError s' = SocketNotconnected" "trace e' = [Sys_send 8 [104, 105] 0]"
    using Send_once [OF sd _ k [folded sc], of "posix_env ?x"] by (auto simp: e p sc posix_env_def translate_errno_def)
  with transfers_win_refine [of windows_os "Some [104, 105]" 2 ?s ?x]
  obtain s2 x' where "Send_win windows_os (Some [104, 105]) 2 ?s ?x = Returns (0, s2, x')"
    "s' = linux_names s2" "e' = posix_env x'"
    by (cases "Send_win windows_os (Some [104, 105]) 2 ?s ?x") auto
  then show ?thesis using L by (auto simp: posix_env_def map_eq_Cons_conv)
qed

end
