(* ===== verification/Windows_Options.thy ===== *)
theory Windows_Options imports Windows_Transfer begin

text \<open>
  The socket options in a Windows build: the same operations with the option numbers of Windows Sockets
  and the error read from \<open>WSAGetLastError\<close>. \<open>agrees\<close> says that an operation is the Linux one over
  the renamed system. The renaming is of names only: a value that Windows reads in another way, the timeouts,
  means something else.
\<close>

section \<open>The options\<close>

definition setsockopt_win ::
  "'w os \<Rightarrow> SOCKET \<Rightarrow> int32 \<Rightarrow> int32 \<Rightarrow> optval \<Rightarrow> 'w winsock \<Rightarrow> int32 \<times> 'w winsock" where
  "setsockopt_win os fd level name v x =
     (let (r, x1) = winsock_call os (Sys_setsockopt fd level name v) x in (i32 (ret r), x1))"

definition BindInterface_win ::
  "'w os \<Rightarrow> string option \<Rightarrow> 'a csocket_scheme \<Rightarrow> 'w winsock \<Rightarrow> bool \<times> 'a csocket_scheme \<times> 'w winsock" where
  "BindInterface_win os pInterface s x =
     (if GetMulticast s = True then
        (case pInterface of
           Some ifname \<Rightarrow>
             (let stInterfaceAddr = inet_addr os ifname;
                  (r, x1) = setsockopt_win os (m_socket s) IPPROTO_IP IP_MULTICAST_IF_win (Opt_in_addr stInterfaceAddr) x
              in if r = error_code SocketSuccess then (True, s, x1) else (False, s, x1))
         | None \<Rightarrow> (False, s, x))
      else (False, SetSocketError SocketProtocolError s, x))"

definition SetMulticast_win ::
  "'w os \<Rightarrow> bool \<Rightarrow> uint8 \<Rightarrow> 'a csocket_scheme \<Rightarrow> 'w winsock \<Rightarrow> bool \<times> 'a csocket_scheme \<times> 'w winsock" where
  "SetMulticast_win os bEnable multicastTTL s x =
     (if GetSocketType s = SocketTypeUdp then
        (let s1 = s\<lparr>m_bIsMulticast := bEnable\<rparr>;
             (r, x1) = setsockopt_win os (m_socket s1) IPPROTO_IP IP_MULTICAST_TTL_win (Opt_byte multicastTTL) x
         in if r = error_code SocketError then (False, TranslateSocketError_win s1 x1, x1) else (True, s1, x1))
      else (False, s\<lparr>m_socketErrno := SocketProtocolError\<rparr>, x))"

definition SetSocketDscp_win ::
  "'w os \<Rightarrow> int32 \<Rightarrow> 'a csocket_scheme \<Rightarrow> 'w winsock \<Rightarrow> bool \<times> 'a csocket_scheme \<times> 'w winsock" where
  "SetSocketDscp_win os nDscp s x =
     (let nTempVal = c_div (push_bit 4 nDscp) 4
      in if IsSocketValid s then
           (let (r, x1) = setsockopt_win os (m_socket s) IPPROTO_IP IP_TOS_win (Opt_int nTempVal) x
            in if r = error_code SocketError then (False, TranslateSocketError_win s x1, x1) else (True, s, x1))
         else (True, s, x))"

definition GetSocketDscp_win ::
  "'w os \<Rightarrow> 'a csocket_scheme \<Rightarrow> 'w winsock \<Rightarrow> int32 \<times> 'a csocket_scheme \<times> 'w winsock" where
  "GetSocketDscp_win os s x =
     (if IsSocketValid s then
        (let nLen = 0;
             (r, x1) = winsock_call os (Sys_getsockopt (m_socket s) IPPROTO_IP IP_TOS_win (LenVar nLen)) x;
             nTempVal = store32 (data r) 0;
             s1 = (if i32 (ret r) = error_code SocketError then TranslateSocketError_win s x1 else s)
         in (signed_drop_bit 4 (nTempVal * 4), s1, x1))
      else (0, s, x))"

definition GetWindowSize_win ::
  "'w os \<Rightarrow> int32 \<Rightarrow> 'a csocket_scheme \<Rightarrow> 'w winsock \<Rightarrow> uint32 \<times> 'a csocket_scheme \<times> 'w winsock" where
  "GetWindowSize_win os nOptionName s x =
     (if m_socket s \<noteq> error_code SocketError then
        (let nLen = 4;
             (r, x1) = winsock_call os (Sys_getsockopt (m_socket s) SOL_SOCKET_win nOptionName (LenVar nLen)) x;
             nTcpWinSize = store32 (data r) 0
         in (nTcpWinSize, TranslateSocketError_win s x1, x1))
      else (0, SetSocketError SocketInvalidSocket s, x))"

definition SetWindowSize_win ::
  "'w os \<Rightarrow> int32 \<Rightarrow> uint32 \<Rightarrow> 'a csocket_scheme \<Rightarrow> 'w winsock \<Rightarrow> uint32 \<times> 'a csocket_scheme \<times> 'w winsock" where
  "SetWindowSize_win os nOptionName nWindowSize s x =
     (if m_socket s \<noteq> error_code SocketError then
        (let (r, x1) = setsockopt_win os (m_socket s) SOL_SOCKET_win nOptionName (Opt_int nWindowSize) x
         in (nWindowSize, TranslateSocketError_win s x1, x1))
      else (nWindowSize, SetSocketError SocketInvalidSocket s, x))"

definition GetReceiveWindowSize_win ::
  "'w os \<Rightarrow> 'a csocket_scheme \<Rightarrow> 'w winsock \<Rightarrow> uint32 \<times> 'a csocket_scheme \<times> 'w winsock" where
  "GetReceiveWindowSize_win os s x = GetWindowSize_win os SO_RCVBUF_win s x"

definition GetSendWindowSize_win ::
  "'w os \<Rightarrow> 'a csocket_scheme \<Rightarrow> 'w winsock \<Rightarrow> uint32 \<times> 'a csocket_scheme \<times> 'w winsock" where
  "GetSendWindowSize_win os s x = GetWindowSize_win os SO_SNDBUF_win s x"

definition SetReceiveWindowSize_win ::
  "'w os \<Rightarrow> uint32 \<Rightarrow> 'a csocket_scheme \<Rightarrow> 'w winsock \<Rightarrow> uint32 \<times> 'a csocket_scheme \<times> 'w winsock" where
  "SetReceiveWindowSize_win os nWindowSize s x = SetWindowSize_win os SO_RCVBUF_win nWindowSize s x"

definition SetSendWindowSize_win ::
  "'w os \<Rightarrow> uint32 \<Rightarrow> 'a csocket_scheme \<Rightarrow> 'w winsock \<Rightarrow> uint32 \<times> 'a csocket_scheme \<times> 'w winsock" where
  "SetSendWindowSize_win os nWindowSize s x = SetWindowSize_win os SO_SNDBUF_win nWindowSize s x"

definition DisableNagleAlgoritm_win ::
  "'w os \<Rightarrow> 'a csocket_scheme \<Rightarrow> 'w winsock \<Rightarrow> bool \<times> 'a csocket_scheme \<times> 'w winsock" where
  "DisableNagleAlgoritm_win os s x =
     (let nTcpNoDelay = 1;
          (r, x1) = setsockopt_win os (m_socket s) IPPROTO_TCP TCP_NODELAY (Opt_int nTcpNoDelay) x;
          bRetVal = (if r = 0 then True else False)
      in (bRetVal, TranslateSocketError_win s x1, x1))"

definition EnableNagleAlgoritm_win ::
  "'w os \<Rightarrow> 'a csocket_scheme \<Rightarrow> 'w winsock \<Rightarrow> bool \<times> 'a csocket_scheme \<times> 'w winsock" where
  "EnableNagleAlgoritm_win os s x =
     (let nTcpNoDelay = 0;
          (r, x1) = setsockopt_win os (m_socket s) IPPROTO_TCP TCP_NODELAY (Opt_int nTcpNoDelay) x;
          bRetVal = (if r = 0 then True else False)
      in (bRetVal, TranslateSocketError_win s x1, x1))"

definition SetOptionReuseAddr_win ::
  "'w os \<Rightarrow> 'a csocket_scheme \<Rightarrow> 'w winsock \<Rightarrow> bool \<times> 'a csocket_scheme \<times> 'w winsock" where
  "SetOptionReuseAddr_win os s x =
     (let nReuse = IPTOS_LOWDELAY;
          (r, x1) = setsockopt_win os (m_socket s) SOL_SOCKET_win SO_REUSEADDR_win (Opt_int nReuse) x;
          bRetVal = (if r = 0 then True else False)
      in (bRetVal, TranslateSocketError_win s x1, x1))"

definition SetOptionLinger_win ::
  "'w os \<Rightarrow> bool \<Rightarrow> uint16 \<Rightarrow> 'a csocket_scheme \<Rightarrow> 'w winsock \<Rightarrow> bool \<times> 'a csocket_scheme \<times> 'w winsock" where
  "SetOptionLinger_win os bEnable nTime s x =
     (let s1 = s\<lparr>m_stLinger := \<lparr>l_onoff = (if bEnable = True then 1 else 0), l_linger = ucast nTime\<rparr>\<rparr>;
          (r, x1) = setsockopt_win os (m_socket s1) SOL_SOCKET_win SO_LINGER_win (Opt_linger (m_stLinger s1)) x;
          bRetVal = (if r = 0 then True else False)
      in (bRetVal, TranslateSocketError_win s1 x1, x1))"

definition SetReceiveTimeout_win ::
  "'w os \<Rightarrow> int32 \<Rightarrow> int32 \<Rightarrow> 'a csocket_scheme \<Rightarrow> 'w winsock \<Rightarrow> bool \<times> 'a csocket_scheme \<times> 'w winsock" where
  "SetReceiveTimeout_win os nRecvTimeoutSec nRecvTimeoutUsec s x =
     (let s1 = s\<lparr>m_stRecvTimeout := make_timeval nRecvTimeoutSec nRecvTimeoutUsec\<rparr>;
          (r, x1) = setsockopt_win os (m_socket s1) SOL_SOCKET_win SO_RCVTIMEO_win (Opt_timeval (m_stRecvTimeout s1)) x
      in if r = error_code SocketError then (False, TranslateSocketError_win s1 x1, x1) else (True, s1, x1))"

definition SetSendTimeout_win ::
  "'w os \<Rightarrow> int32 \<Rightarrow> int32 \<Rightarrow> 'a csocket_scheme \<Rightarrow> 'w winsock \<Rightarrow> bool \<times> 'a csocket_scheme \<times> 'w winsock" where
  "SetSendTimeout_win os nSendTimeoutSec nSendTimeoutUsec s x =
     (let s1 = s\<lparr>m_stSendTimeout := make_timeval nSendTimeoutSec nSendTimeoutUsec\<rparr>;
          (r, x1) = setsockopt_win os (m_socket s1) SOL_SOCKET_win SO_SNDTIMEO_win (Opt_timeval (m_stSendTimeout s1)) x
      in if r = error_code SocketError then (False, TranslateSocketError_win s1 x1, x1) else (True, s1, x1))"

section \<open>Agreement with the Linux build\<close>

definition agrees ::
  "('a csocket_scheme \<Rightarrow> 'w env \<Rightarrow> 'r \<times> 'a csocket_scheme \<times> 'w env) \<Rightarrow>
     ('a csocket_scheme \<Rightarrow> 'w winsock \<Rightarrow> 'r \<times> 'a csocket_scheme \<times> 'w winsock) \<Rightarrow> 'a csocket_scheme \<Rightarrow> 'w winsock \<Rightarrow> bool" where
  "agrees f f_win s x \<longleftrightarrow> f (linux_names s) (posix_env x) = (let (b, s', x') = f_win s x in (b, linux_names s', posix_env x'))"

text \<open>The option calls of both builds.\<close>

lemma named_options [simp]:
  "named (Sys_setsockopt fd IPPROTO_IP IP_MULTICAST_IF v)" "named (Sys_setsockopt fd IPPROTO_IP IP_MULTICAST_TTL v)"
  "named (Sys_setsockopt fd IPPROTO_IP IP_ADD_MEMBERSHIP v)" "named (Sys_setsockopt fd IPPROTO_IP IP_TOS v)"
  "named (Sys_getsockopt fd IPPROTO_IP IP_TOS k)" "named (Sys_setsockopt fd IPPROTO_TCP TCP_NODELAY v)"
  "named (Sys_getsockopt fd IPPROTO_TCP TCP_NODELAY k)"
  "named (Sys_getsockopt fd SOL_SOCKET SO_RCVBUF k)" "named (Sys_getsockopt fd SOL_SOCKET SO_SNDBUF k)"
  "named (Sys_setsockopt fd SOL_SOCKET SO_RCVBUF v)" "named (Sys_setsockopt fd SOL_SOCKET SO_SNDBUF v)"
  "named (Sys_setsockopt fd SOL_SOCKET SO_REUSEADDR v)" "named (Sys_setsockopt fd SOL_SOCKET SO_LINGER v)"
  "named (Sys_setsockopt fd SOL_SOCKET SO_RCVTIMEO v)" "named (Sys_setsockopt fd SOL_SOCKET SO_SNDTIMEO v)"
  by (simp_all add: named_def windows_option_def linux_option_def)

lemma setsockopt_posix:
  assumes "named (Sys_setsockopt fd l n v)"
  shows "setsockopt (posix_os os) fd l n v (posix_env x) =
    (let (r, x') = setsockopt_win os fd (fst (windows_option l n)) (snd (windows_option l n)) v x in (r, posix_env x'))"
  using assms by (simp add: setsockopt_def setsockopt_win_def posix_call Let_def split_beta)

lemmas option_defs =
  BindInterface_def BindInterface_win_def SetMulticast_def SetMulticast_win_def SetSocketDscp_def
  SetSocketDscp_win_def GetSocketDscp_def GetSocketDscp_win_def GetReceiveWindowSize_def GetReceiveWindowSize_win_def
  GetSendWindowSize_def GetSendWindowSize_win_def SetReceiveWindowSize_def SetReceiveWindowSize_win_def
  SetSendWindowSize_def SetSendWindowSize_win_def GetWindowSize_def GetWindowSize_win_def SetWindowSize_def
  SetWindowSize_win_def DisableNagleAlgoritm_def DisableNagleAlgoritm_win_def EnableNagleAlgoritm_def
  EnableNagleAlgoritm_win_def SetOptionReuseAddr_def SetOptionReuseAddr_win_def SetOptionLinger_def
  SetOptionLinger_win_def SetReceiveTimeout_def SetReceiveTimeout_win_def SetSendTimeout_def SetSendTimeout_win_def

lemmas option_simps = agrees_def setsockopt_posix posix_call posix_translate windows_option_def
  Let_def split_beta

text \<open>
  C29. The option operations of a Windows build are those of the Linux build with the errors and the options
  renamed, whether the system accepts the option or not and whatever error it gives: the same one call on the socket's
  handle with the same value, the same result, and the same object, but for its error code where
  no Linux call gives that code: the invalid pointer of \<open>WSAEFAULT\<close>, which the length of 0 in \<open>GetSocketDscp\<close> brings about, stands
  for the invalid buffer of \<open>EFAULT\<close>, and the invalid address of \<open>WSANO_DATA\<close> for an unknown error.
\<close>

theorem options_win_refine:
  "agrees (BindInterface (posix_os os) ifname) (BindInterface_win os ifname) s x
    \<and> agrees (SetMulticast (posix_os os) b ttl) (SetMulticast_win os b ttl) s x
    \<and> agrees (SetSocketDscp (posix_os os) d) (SetSocketDscp_win os d) s x
    \<and> agrees (GetSocketDscp (posix_os os)) (GetSocketDscp_win os) s x
    \<and> agrees (GetReceiveWindowSize (posix_os os)) (GetReceiveWindowSize_win os) s x
    \<and> agrees (GetSendWindowSize (posix_os os)) (GetSendWindowSize_win os) s x
    \<and> agrees (SetReceiveWindowSize (posix_os os) n) (SetReceiveWindowSize_win os n) s x
    \<and> agrees (SetSendWindowSize (posix_os os) n) (SetSendWindowSize_win os n) s x
    \<and> agrees (DisableNagleAlgoritm (posix_os os)) (DisableNagleAlgoritm_win os) s x
    \<and> agrees (EnableNagleAlgoritm (posix_os os)) (EnableNagleAlgoritm_win os) s x
    \<and> agrees (SetOptionReuseAddr (posix_os os)) (SetOptionReuseAddr_win os) s x
    \<and> agrees (SetOptionLinger (posix_os os) b t) (SetOptionLinger_win os b t) s x
    \<and> agrees (SetReceiveTimeout (posix_os os) sec usec) (SetReceiveTimeout_win os sec usec) s x
    \<and> agrees (SetSendTimeout (posix_os os) sec usec) (SetSendTimeout_win os sec usec) s x"
proof (intro conjI)
  show "agrees (BindInterface (posix_os os) ifname) (BindInterface_win os ifname) s x"
    by (cases ifname) (simp_all add: option_defs option_simps)
qed (simp_all add: option_defs option_simps)

text \<open>A Windows that takes one option, the window size.\<close>

theorem options_win_refine_witness:
  "\<exists>s1 x1 s2 x2. SetReceiveWindowSize_win windows_os 65536 (demo_active SocketTypeTcp 8)
        \<lparr>process = \<lparr>errno = 0, h_errno = 0, world = (), trace = []\<rparr>, wsa_error = WSAENOTCONN\<rparr> = (65536, s1, x1)
     \<and> SetReceiveWindowSize (posix_os windows_os) 65536 (linux_names (demo_active SocketTypeTcp 8))
        (posix_env \<lparr>process = \<lparr>errno = 0, h_errno = 0, world = (), trace = []\<rparr>, wsa_error = WSAENOTCONN\<rparr>) = (65536, linux_names s1, posix_env x1)
     \<and> GetSocketError s1 = SocketNotconnected \<and> trace (process x1) = [Sys_setsockopt 8 0xFFFF 0x1002 (Opt_int 65536)]
     \<and> trace (posix_env x1) = [Sys_setsockopt 8 SOL_SOCKET SO_RCVBUF (Opt_int 65536)]"
proof -
  let ?s = "demo_active SocketTypeTcp 8"
  let ?x = "\<lparr>process = \<lparr>errno = 0, h_errno = 0, world = (), trace = []\<rparr>, wsa_error = WSAENOTCONN\<rparr> :: unit winsock"
  obtain s1 x1 where W: "SetReceiveWindowSize_win windows_os 65536 ?s ?x = (65536, s1, x1)"
    "GetSocketError s1 = SocketNotconnected" "trace (process x1) = [Sys_setsockopt 8 0xFFFF 0x1002 (Opt_int 65536)]"
    by (simp add: SetReceiveWindowSize_win_def SetWindowSize_win_def setsockopt_win_def winsock_call_def windows_os_def
        TranslateSocketError_win_def SetSocketError_def GetSocketError_def WSAGetLastError_def translate_wsa_def set_errno_def ok_def)
  have "agrees (SetReceiveWindowSize (posix_os windows_os) 65536) (SetReceiveWindowSize_win windows_os 65536) ?s ?x"
    using options_win_refine [of windows_os] by blast
  then have "SetReceiveWindowSize (posix_os windows_os) 65536 (linux_names ?s) (posix_env ?x) = (65536, linux_names s1, posix_env x1)"
    using W(1) by (simp add: agrees_def)
  then show ?thesis using W by (simp add: posix_env_def linux_option_def)
qed

section \<open>The timeouts\<close>

text \<open>
  Windows Sockets reads the value of the two timeout options as a \<open>DWORD\<close> of milliseconds; given a
  \<open>timeval\<close>, it reads the first four bytes, the seconds. \<open>waits fd\<close> is how long a \<open>recv\<close> on the socket
  waits, in milliseconds.
\<close>

definition first_dword :: "timeval \<Rightarrow> uint32" where
  "first_dword t = ucast (tv_sec t)"

definition timeout_in_milliseconds :: "'w os \<Rightarrow> SOCKET \<Rightarrow> ('w \<Rightarrow> uint32) \<Rightarrow> bool" where
  "timeout_in_milliseconds os fd waits \<longleftrightarrow>
     (\<forall>t w. let (r, w') = kernel os (Sys_setsockopt fd SOL_SOCKET_win SO_RCVTIMEO_win (Opt_timeval t)) w in
        ret r = 0 \<and> waits w' = first_dword t \<or> ret r = -1)"

text \<open>
  A timeout of \<open>n\<close> seconds becomes one of \<open>n\<close> milliseconds on Windows, and the microseconds are
  lost: the object reports the timeout that was asked for, the socket waits a thousandth of it.
\<close>

theorem SetReceiveTimeout_win_milliseconds:
  assumes "timeout_in_milliseconds os (m_socket s) waits" and "SetReceiveTimeout_win os sec usec s x = (True, s', x')"
  shows "waits (world (process x')) = sec \<and> GetReceiveTimeoutSec s' = sec \<and> GetReceiveTimeoutUSec s' = usec"
proof -
  let ?c = "Sys_setsockopt (m_socket s) SOL_SOCKET_win SO_RCVTIMEO_win (Opt_timeval (make_timeval sec usec))"
  obtain r w where k: "kernel os ?c (world (process x)) = (r, w)" by fastforce
  have "ret r = 0 \<and> waits w = first_dword (make_timeval sec usec) \<or> ret r = -1"
    using assms(1) [unfolded timeout_in_milliseconds_def, rule_format, of "make_timeval sec usec" "world (process x)"] k by simp
  then show ?thesis
    using assms(2) k
    by (auto simp: SetReceiveTimeout_win_def setsockopt_win_def winsock_call_def Let_def first_dword_def GetReceiveTimeoutSec_def
        GetReceiveTimeoutUSec_def make_timeval_def ucast_scast_int32 split: if_splits)
qed

text \<open>A Windows whose state is the timeout of one socket.\<close>

definition timeout_os :: "uint32 os" where
  "timeout_os =
     \<lparr>kernel = (\<lambda>c w. case c of
         Sys_setsockopt fd l n (Opt_timeval t) \<Rightarrow> (ok 0, first_dword t)
       | _ \<Rightarrow> (fail WSAEINVAL, w)),
      clock = (\<lambda>w. (timeval_zero, w)), inet_addr = (\<lambda>p. 0), inet_ntoa = (\<lambda>a. []), uninit = (\<lambda>i. 0)\<rparr>"

theorem SetReceiveTimeout_win_milliseconds_witness:
  "\<exists>s' x'. SetReceiveTimeout_win timeout_os 5 0 (demo_active SocketTypeTcp 8)
       \<lparr>process = \<lparr>errno = 0, h_errno = 0, world = 0, trace = []\<rparr>, wsa_error = 0\<rparr> = (True, s', x')
     \<and> world (process x') = 5 \<and> GetReceiveTimeoutSec s' = 5"
proof -
  let ?x = "\<lparr>process = \<lparr>errno = 0, h_errno = 0, world = 0, trace = []\<rparr>, wsa_error = 0\<rparr> :: uint32 winsock"
  have law: "timeout_in_milliseconds timeout_os fd (\<lambda>w. w)" for fd
    by (simp add: timeout_in_milliseconds_def timeout_os_def)
  obtain s' x' where "SetReceiveTimeout_win timeout_os 5 0 (demo_active SocketTypeTcp 8) ?x = (True, s', x')"
    by (simp add: SetReceiveTimeout_win_def setsockopt_win_def winsock_call_def timeout_os_def)
  with SetReceiveTimeout_win_milliseconds [OF law this] show ?thesis by simp
qed

end
