(* ===== verification/Windows_Connections.thy ===== *)
theory Windows_Connections imports Windows_Options begin

text \<open>
  Connecting, binding to a multicast group and answering datagrams in a Windows build. An address that
  resolves, on a blocking socket, is connected to as on Linux; the failures to resolve are reported by another
  code, and the wait for a connection (\<open>Select_win\<close>) reads another error.
\<close>

section \<open>CActiveSocket\<close>

definition ConnectUDP_win ::
  "'w os \<Rightarrow> string \<Rightarrow> uint16 \<Rightarrow> cactive \<Rightarrow> 'w winsock \<Rightarrow> (bool \<times> cactive \<times> 'w winsock) outcome" where
  "ConnectUDP_win os pAddr nPort s x =
     obind (resolve_server_win os pAddr nPort s x) (\<lambda>(resolved, s1, x1).
       if \<not> resolved then Returns (False, s1, x1)
       else
         (let (s2, x2) = timer_start_win os s1 x1;
              (r, x3) = winsock_call os (Sys_connect (m_socket s2) (m_stServerSockaddr s2)) x2;
              bRetVal = (i32 (ret r) \<noteq> error_code SocketError);
              s3 = TranslateSocketError_win s2 x3;
              (s4, x4) = timer_end_win os s3 x3
          in Returns (bRetVal, s4, x4)))"

definition ConnectRAW_win ::
  "'w os \<Rightarrow> string \<Rightarrow> uint16 \<Rightarrow> cactive \<Rightarrow> 'w winsock \<Rightarrow> (bool \<times> cactive \<times> 'w winsock) outcome" where
  "ConnectRAW_win os pAddr nPort s x =
     obind (resolve_server_win os pAddr nPort s x) (\<lambda>(resolved, s1, x1).
       if \<not> resolved then Returns (False, s1, x1)
       else
         (let (s2, x2) = timer_start_win os s1 x1;
              (r, x3) = winsock_call os (Sys_connect (m_socket s2) (m_stServerSockaddr s2)) x2;
              bRetVal = (i32 (ret r) \<noteq> error_code SocketError);
              s3 = TranslateSocketError_win s2 x3;
              (s4, x4) = timer_end_win os s3 x3
          in Returns (bRetVal, s4, x4)))"

definition store_addresses_win :: "'w os \<Rightarrow> cactive \<Rightarrow> 'w winsock \<Rightarrow> cactive \<times> 'w winsock" where
  "store_addresses_win os s x =
     (let (r1, x1) = winsock_call os (Sys_getpeername (m_socket s)) x;
          s1 = s\<lparr>m_stServerSockaddr := (case addr r1 of None \<Rightarrow> sockaddr_zero | Some a \<Rightarrow> a)\<rparr>;
          (r2, x2) = winsock_call os (Sys_getsockname (m_socket s1)) x1;
          s2 = s1\<lparr>m_stClientSockaddr := (case addr r2 of None \<Rightarrow> sockaddr_zero | Some a \<Rightarrow> a)\<rparr>
      in (SetSocketError SocketSuccess s2, x2))"

definition Open_win ::
  "'w os \<Rightarrow> string option \<Rightarrow> uint16 \<Rightarrow> cactive \<Rightarrow> 'w winsock \<Rightarrow> (bool \<times> cactive \<times> 'w winsock) outcome" where
  "Open_win os pAddr nPort s x =
     (if IsSocketValid s = False then Returns (False, SetSocketError SocketInvalidSocket s, x)
      else (case pAddr of
        None \<Rightarrow> Returns (False, SetSocketError SocketInvalidAddress s, x)
      | Some address \<Rightarrow>
          if nPort = 0 then Returns (False, SetSocketError SocketInvalidPort s, x)
          else
            obind
              (case m_nSocketType s of
                 SocketTypeTcp \<Rightarrow> ConnectTCP_win os address nPort s x
               | SocketTypeUdp \<Rightarrow> ConnectUDP_win os address nPort s x
               | SocketTypeRaw \<Rightarrow> Returns (False, s, x)
               | _ \<Rightarrow> Returns (False, s, x))
              (\<lambda>(bRetVal, s1, x1).
                 if bRetVal then (let (s2, x2) = store_addresses_win os s1 x1 in Returns (True, s2, x2))
                 else Returns (False, s1, x1))))"

section \<open>CPassiveSocket\<close>

definition BindMulticast_win ::
  "'w os \<Rightarrow> string option \<Rightarrow> string \<Rightarrow> uint16 \<Rightarrow> cpassive \<Rightarrow> 'w winsock \<Rightarrow> bool \<times> cpassive \<times> 'w winsock" where
  "BindMulticast_win os pInterface pGroup nPort s x =
     (let s1 = s\<lparr>m_stMulticastGroup := bind_address os pInterface nPort\<rparr>;
          (r, x1) = winsock_call os (Sys_bind (m_socket s1) (m_stMulticastGroup s1)) x;
          (bRetVal, s2, x2) =
            (if i32 (ret r) = 0 then
               (let s1' = s1\<lparr>m_stMulticastRequest :=
                              \<lparr>imr_multiaddr = inet_addr os pGroup,
                               imr_interface = sin_addr (m_stMulticastGroup s1)\<rparr>\<rparr>;
                    (r1, x1') = setsockopt_win os (m_socket s1') IPPROTO_IP IP_ADD_MEMBERSHIP_win
                                  (Opt_ip_mreq (m_stMulticastRequest s1')) x1;
                    b = (r1 = error_code SocketSuccess);
                    (s1'', x1'') = timer_end_win os s1' x1'
                in (b, s1'', x1''))
             else (False, s1, x1));
          (s3, x3) = timer_start_win os s2 x2;
          s4 = TranslateSocketError_win s3 x3
      in if bRetVal = False then (let (c, s5, x5) = Close_win os s4 x3 in (bRetVal, s5, x5))
         else (bRetVal, s4, x3))"

definition Passive_Send_win ::
  "'w os \<Rightarrow> byte list option \<Rightarrow> nat \<Rightarrow> cpassive \<Rightarrow> 'w winsock \<Rightarrow> (int32 \<times> cpassive \<times> 'w winsock) outcome" where
  "Passive_Send_win os pBuf bytesToSend s x =
     (let s0 = (SetSocketError SocketSuccess s)\<lparr>m_nBytesSent := 0\<rparr>
      in obind
        (case m_nSocketType s0 of
           SocketTypeUdp \<Rightarrow>
             (if IsSocketValid s0 \<and> 0 < bytesToSend \<and> pBuf \<noteq> None then
                (let (s1, x1) = timer_start_win os s0 x
                 in obind (read_buffer (the pBuf) bytesToSend) (\<lambda>bytes.
                    let (r, x2) = winsock_call os (Sys_sendto (m_socket s1) bytes 0 (m_stClientSockaddr s1)) x1;
                        s2 = s1\<lparr>m_nBytesSent := i32 (ret r)\<rparr>;
                        (s3, x3) = timer_end_win os s2 x2
                    in Returns (if m_nBytesSent s3 = error_code SocketError
                                then TranslateSocketError_win s3 x3 else s3, x3)))
              else Returns (s0, x))
         | SocketTypeTcp \<Rightarrow>
             obind (Send_win os pBuf bytesToSend s0 x) (\<lambda>(n, s1, x1). Returns (s1, x1))
         | _ \<Rightarrow> Returns (SetSocketError SocketProtocolError s0, x))
        (\<lambda>(s', x'). Returns (m_nBytesSent s', s', x')))"

section \<open>Agreement with the Linux build\<close>

abbreviation (input) posix_open :: "bool \<times> cactive \<times> 'w winsock \<Rightarrow> bool \<times> cactive \<times> 'w env" where
  "posix_open \<equiv> \<lambda>(b, s, x). (b, linux_names s, posix_env x)"

lemma copy_ip_address_posix: "copy_ip_address (posix_os os) he = copy_ip_address os he"
  by (simp add: copy_ip_address_def cong: list.case_cong if_cong)

lemma linux_names_members [simp]:
  "m_stMulticastRequest_update f (linux_names q) = linux_names (m_stMulticastRequest_update f q)"
  "m_stMulticastRequest (linux_names q) = m_stMulticastRequest q"
  "m_pHE_update g (linux_names s) = linux_names (m_pHE_update g s)" "m_pHE (linux_names s) = m_pHE s"
  by (simp_all add: linux_names_def)

text \<open>Where a name resolves, both builds store the same address.\<close>

definition resolves :: "'w os \<Rightarrow> string \<Rightarrow> 'w winsock \<Rightarrow> bool" where
  "resolves os p x \<longleftrightarrow> host (fst (kernel os (Sys_gethostbyname p) (world (process x)))) \<noteq> None"

lemma resolve_posix:
  assumes "resolves os p x"
  shows "resolve_server (posix_os os) p n (linux_names s) (posix_env x) = map_outcome posix_open (resolve_server_win os p n s x)"
    and "pred_outcome (\<lambda>(b, s', x'). m_bIsBlocking s' = m_bIsBlocking s) (resolve_server_win os p n s x)"
proof -
  obtain he where he: "host (fst (winsock_call os (Sys_gethostbyname p) x)) = Some he"
    using assms by (auto simp: resolves_def winsock_call_def split_beta Let_def)
  show "resolve_server (posix_os os) p n (linux_names s) (posix_env x) = map_outcome posix_open (resolve_server_win os p n s x)"
    by (cases "copy_ip_address os he")
      (simp_all add: resolve_server_def resolve_server_win_def posix_call he Let_def split_beta copy_ip_address_posix posix_translate)
  show "pred_outcome (\<lambda>(b, s', x'). m_bIsBlocking s' = m_bIsBlocking s) (resolve_server_win os p n s x)"
    by (cases "copy_ip_address os he")
      (simp_all add: resolve_server_win_def he Let_def split_beta TranslateSocketError_win_def SetSocketError_def)
qed

lemma ConnectTCP_posix:
  assumes "resolves os p x" and "\<not> IsNonblocking s"
  shows "ConnectTCP (posix_os os) p n (linux_names s) (posix_env x) = map_outcome posix_open (ConnectTCP_win os p n s x)"
proof -
  have b: "\<not> IsNonblocking (TranslateSocketError_win (fst (timer_start_win os s' y)) z)" if "m_bIsBlocking s' = m_bIsBlocking s" for s' :: cactive and y z
    using assms(2) that by (simp add: IsNonblocking_def TranslateSocketError_win_def SetSocketError_def timer_start_win_def timer_start_eq)
  show ?thesis
    unfolding ConnectTCP_def ConnectTCP_win_def
    by (rule map_obind_pred [OF resolve_posix [OF assms(1)]])
       (auto simp: Let_def split_beta posix_timer posix_call posix_translate b)
qed

lemma ConnectUDP_posix:
  assumes "resolves os p x"
  shows "ConnectUDP (posix_os os) p n (linux_names s) (posix_env x) = map_outcome posix_open (ConnectUDP_win os p n s x)"
    and "ConnectRAW (posix_os os) p n (linux_names s) (posix_env x) = map_outcome posix_open (ConnectRAW_win os p n s x)"
  unfolding ConnectUDP_def ConnectUDP_win_def ConnectRAW_def ConnectRAW_win_def
  by (rule map_obind_pred [OF resolve_posix [OF assms]], auto simp: Let_def split_beta posix_timer posix_call posix_translate)+

lemma store_addresses_posix:
  "store_addresses (posix_os os) (linux_names s) (posix_env x) = (let (s', x') = store_addresses_win os s x in (linux_names s', posix_env x'))"
  by (simp add: store_addresses_def store_addresses_win_def posix_call Let_def split_beta)

text \<open>
  C27. On Windows \<open>Open\<close> on a blocking socket to an address that resolves is the Linux \<open>Open\<close>, stream or datagram,
  connected or refused; and \<open>BindMulticast\<close> and the answers of a listening object are the Linux ones on any socket and
  whatever the system answers: with the errors and the options renamed, the same calls and results,
  and the same objects, but for the error code where no Linux call gives it: the invalid pointer of \<open>WSAEFAULT\<close>
  stands for the invalid buffer of \<open>EFAULT\<close>, and the invalid address of \<open>WSANO_DATA\<close> for an unknown error.
\<close>

theorem connections_win_refine:
  "(resolves os p x \<and> \<not> IsNonblocking s \<longrightarrow>
      Open (posix_os os) (Some p) nPort (linux_names s) (posix_env x) = map_outcome posix_open (Open_win os (Some p) nPort s x))
    \<and> agrees (BindMulticast (posix_os os) ifname grp port) (BindMulticast_win os ifname grp port) q x
    \<and> Passive_Send (posix_os os) pBuf n (linux_names q) (posix_env x)
        = map_outcome (\<lambda>(k, s', x'). (k, linux_names s', posix_env x')) (Passive_Send_win os pBuf n q x)"
proof (intro conjI impI)
  assume "resolves os p x \<and> \<not> IsNonblocking s"
  then have tcp: "ConnectTCP (posix_os os) p nPort (linux_names s) (posix_env x) = map_outcome posix_open (ConnectTCP_win os p nPort s x)"
    and udp: "ConnectUDP (posix_os os) p nPort (linux_names s) (posix_env x) = map_outcome posix_open (ConnectUDP_win os p nPort s x)"
    using ConnectTCP_posix ConnectUDP_posix(1) by blast+
  show "Open (posix_os os) (Some p) nPort (linux_names s) (posix_env x) = map_outcome posix_open (Open_win os (Some p) nPort s x)"
    by (cases "m_nSocketType s")
      (auto simp: Open_def Open_win_def tcp udp obind_map_outcome map_obind store_addresses_posix Let_def split_beta
        intro!: obind_cong_Returns)
next
  have bind: "bind_address (posix_os os) ifname port = bind_address os ifname port" by (simp add: bind_address_def Let_def split: option.split)
  show "agrees (BindMulticast (posix_os os) ifname grp port) (BindMulticast_win os ifname grp port) q x"
    by (simp add: agrees_def BindMulticast_def BindMulticast_win_def bind posix_call setsockopt_posix windows_option_def posix_timer
        posix_translate Close_posix Let_def split_beta)
  show "Passive_Send (posix_os os) pBuf n (linux_names q) (posix_env x)
      = map_outcome (\<lambda>(k, s', x'). (k, linux_names s', posix_env x')) (Passive_Send_win os pBuf n q x)"
    by (cases "m_nSocketType q"; cases pBuf)
      (auto simp: Passive_Send_def Passive_Send_win_def SetSocketError_def Let_def posix_timer split_beta obind_map_outcome map_obind obind_assoc
        Send_posix posix_call posix_translate intro!: obind_cong_Returns)
qed

text \<open>A Windows that resolves every name and whose calls succeed.\<close>

definition windows_peer :: "unit os" where
  "windows_peer =
     \<lparr>kernel = (\<lambda>c w. (case c of Sys_gethostbyname p \<Rightarrow> (ok 0)\<lparr>host := Some loopback\<rparr> | _ \<Rightarrow> ok 0, w)),
      clock = (\<lambda>w. (timeval_zero, w)), inet_addr = (\<lambda>p. 0), inet_ntoa = (\<lambda>a. []), uninit = (\<lambda>i. 0)\<rparr>"

lemma windows_peer_kernel:
  "kernel windows_peer (Sys_gethostbyname p) w = ((ok 0)\<lparr>host := Some loopback\<rparr>, w)"
  "kernel windows_peer (Sys_connect fd a) w = (ok 0, w)"
  "kernel windows_peer (Sys_getpeername fd) w = (ok 0, w)" "kernel windows_peer (Sys_getsockname fd) w = (ok 0, w)"
  by (simp_all add: windows_peer_def)

theorem connections_win_refine_witness:
  "\<exists>s' x' a. Open_win windows_peer (Some ''127.0.0.1'') 80 (demo_active SocketTypeTcp 8)
        \<lparr>process = \<lparr>errno = 0, h_errno = 0, world = (), trace = []\<rparr>, wsa_error = WSAENOTCONN\<rparr> = Returns (True, s', x')
     \<and> trace (process x') = [Sys_gethostbyname ''127.0.0.1'', Sys_connect 8 a, Sys_getpeername 8, Sys_getsockname 8]
     \<and> Open (posix_os windows_peer) (Some ''127.0.0.1'') 80 (linux_names (demo_active SocketTypeTcp 8))
        (posix_env \<lparr>process = \<lparr>errno = 0, h_errno = 0, world = (), trace = []\<rparr>, wsa_error = WSAENOTCONN\<rparr>)
        = Returns (True, linux_names s', posix_env x')"
proof -
  let ?s = "demo_active SocketTypeTcp 8"
  let ?x = "\<lparr>process = \<lparr>errno = 0, h_errno = 0, world = (), trace = []\<rparr>, wsa_error = WSAENOTCONN\<rparr> :: unit winsock"
  have h: "resolves windows_peer ''127.0.0.1'' ?x" by (simp add: resolves_def windows_peer_kernel)
  have b: "\<not> IsNonblocking ?s" by (simp add: IsNonblocking_def)
  obtain s1 x1 where R: "resolve_server_win windows_peer ''127.0.0.1'' 80 ?s ?x = Returns (True, s1, x1)"
    "m_socket s1 = 8" "trace (process x1) = [Sys_gethostbyname ''127.0.0.1'']"
    by (simp add: resolve_server_win_def winsock_call_def windows_peer_kernel copy_ip_address_ipv4 [OF loopback_ipv4])
  obtain s' x' a where W: "Open_win windows_peer (Some ''127.0.0.1'') 80 ?s ?x = Returns (True, s', x')"
    "trace (process x') = [Sys_gethostbyname ''127.0.0.1'', Sys_connect 8 a, Sys_getpeername 8, Sys_getsockname 8]"
    using R
    by (simp add: Open_win_def ConnectTCP_win_def IsSocketValid_iff winsock_call_def windows_peer_kernel store_addresses_win_def
        timer_start_win_def timer_end_win_def timer_start_eq timer_end_eq TranslateSocketError_win_def SetSocketError_def Let_def)
  then show ?thesis using connections_win_refine [of windows_peer "''127.0.0.1''" ?x ?s 80] h b by auto
qed

section \<open>Names that do not resolve\<close>

abbreviation (input) WSAHOST_NOT_FOUND :: int where "WSAHOST_NOT_FOUND \<equiv> 11001"

text \<open>
  A host that does not exist is an invalid address on Linux; on Windows the translation does not know
  the error, and \<open>Open\<close> reports an unknown one.
\<close>

theorem Open_unknown_host_differs:
  assumes "IsSocketValid s" and "GetSocketType s = SocketTypeTcp" and "nPort \<noteq> 0"
    and "kernel os (Sys_gethostbyname p) (world (process x)) = (r, w)" and "host r = None"
    and "err r = Some WSAHOST_NOT_FOUND" and "herr r = Some HOST_NOT_FOUND"
  shows "\<exists>s1 x1 s2 e2. Open_win os (Some p) nPort s x = Returns (False, s1, x1) \<and> GetSocketError s1 = SocketEunknown
    \<and> Open os (Some p) nPort s (process x) = Returns (False, s2, e2) \<and> GetSocketError s2 = SocketInvalidAddress"
  using assms
  by (simp add: Open_win_def Open_def ConnectTCP_win_def ConnectTCP_def resolve_server_win_def resolve_server_def GetSocketType_def
      winsock_call_def invoke_def TranslateSocketError_win_def SetSocketError_def GetSocketError_def WSAGetLastError_def set_errno_def
      translate_wsa_def IsSocketValid_iff)

theorem Open_unknown_host_differs_witness:
  "\<exists>s1 x1. Open_win (windows_peer\<lparr>kernel := \<lambda>c w. ((fail WSAHOST_NOT_FOUND)\<lparr>herr := Some HOST_NOT_FOUND\<rparr>, w)\<rparr>) (Some ''nowhere'') 80
        (demo_active SocketTypeTcp 8) \<lparr>process = \<lparr>errno = 0, h_errno = 0, world = (), trace = []\<rparr>, wsa_error = 0\<rparr> = Returns (False, s1, x1)
     \<and> GetSocketError s1 = SocketEunknown"
  using Open_unknown_host_differs [of "demo_active SocketTypeTcp 8" 80 "windows_peer\<lparr>kernel := \<lambda>c w. ((fail WSAHOST_NOT_FOUND)\<lparr>herr := Some HOST_NOT_FOUND\<rparr>, w)\<rparr>"
      "''nowhere''" "\<lparr>process = \<lparr>errno = 0, h_errno = 0, world = (), trace = []\<rparr>, wsa_error = 0\<rparr>"]
  by (auto simp: IsSocketValid_iff GetSocketType_def)

end
