(* ===== verification/Windows_Bulk.thy ===== *)
theory Windows_Bulk imports Windows_Connections Bulk_Transfer begin

text \<open>
  \<open>Flush\<close>, \<open>Writev\<close>, the vector \<open>Send\<close> and \<open>SendFile\<close> in a Windows build. There is no \<open>writev\<close>: the
  macro \<open>WRITEV\<close> names the library's own \<open>Writev\<close>. The file calls are those of the C library, which stores
  its errors in \<open>errno\<close>; a file offset has 32 bits.
\<close>

section \<open>Flush and Writev\<close>

type_synonym ('a, 'w) send_method_win =
  "byte list option \<Rightarrow> nat \<Rightarrow> 'a csocket_scheme \<Rightarrow> 'w winsock \<Rightarrow>
     (int32 \<times> 'a csocket_scheme \<times> 'w winsock) outcome"

definition Flush_win ::
  "'w os \<Rightarrow> ('a, 'w) send_method_win \<Rightarrow> 'a csocket_scheme \<Rightarrow> 'w winsock \<Rightarrow>
     (bool \<times> 'a csocket_scheme \<times> 'w winsock) outcome" where
  "Flush_win os send s x =
     (let nTcpNoDelay = 1;
          (r, x1) = winsock_call os (Sys_getsockopt (m_socket s) IPPROTO_TCP TCP_NODELAY (WildPointer 4)) x;
          nCurFlags = store32 (data r) 0
      in if i32 (ret r) = 0 then
           (let (r2, x2) = setsockopt_win os (m_socket s) IPPROTO_TCP TCP_NODELAY (Opt_int nTcpNoDelay) x1
            in obind
              (if r2 = 0 then
                 obind (send (Some [0]) 0 s x2) (\<lambda>(n, s3, x3).
                 Returns (n \<noteq> error_code SocketError, TranslateSocketError_win s3 x3, x3))
               else Returns (False, s, x2))
              (\<lambda>(bRetVal, s4, x4).
                 let (r5, x5) = setsockopt_win os (m_socket s4) IPPROTO_TCP TCP_NODELAY (Opt_int nCurFlags) x4
                 in Returns (bRetVal, s4, x5)))
         else Returns (False, s, x1))"

definition Writev_win ::
  "'w os \<Rightarrow> ('a, 'w) send_method_win \<Rightarrow> iovec list \<Rightarrow> 'a csocket_scheme \<Rightarrow> 'w winsock \<Rightarrow>
     (int32 \<times> 'a csocket_scheme \<times> 'w winsock) outcome" where
  "Writev_win os send pVector s x =
     obind (writev_loop send pVector 0 0 s x) (\<lambda>(i, nBytesSent, s1, x1).
       if 0 < i then
         obind (Flush_win os send s1 x1) (\<lambda>(b, s2, x2). Returns (nBytesSent, s2, x2))
       else Returns (nBytesSent, s1, x1))"

text \<open>The vector is the list of its \<open>nNumItems\<close> elements.\<close>

definition Send_vector_win ::
  "'w os \<Rightarrow> ('a, 'w) send_method_win \<Rightarrow> iovec list \<Rightarrow> 'a csocket_scheme \<Rightarrow> 'w winsock \<Rightarrow>
     (int32 \<times> 'a csocket_scheme \<times> 'w winsock) outcome" where
  "Send_vector_win os send sendVector s x =
     (let s0 = (SetSocketError SocketSuccess s)\<lparr>m_nBytesSent := 0\<rparr>
      in obind (Writev_win os send sendVector s0 x) (\<lambda>(n, s1, x1).
         let s2 = s1\<lparr>m_nBytesSent := n\<rparr>;
             s3 = (if m_nBytesSent s2 = error_code SocketError then TranslateSocketError_win s2 x1 else s2)
         in Returns (m_nBytesSent s3, s3, x1)))"

section \<open>SendFile\<close>

text \<open>A call of the C library: its error goes to \<open>errno\<close>, the last socket error stays.\<close>

definition crt_call :: "'w os \<Rightarrow> syscall \<Rightarrow> 'w winsock \<Rightarrow> reply \<times> 'w winsock" where
  "crt_call os c x =
     (let (r, w) = kernel os c (world (process x))
      in (r, x\<lparr>process := (process x)\<lparr>errno := set_errno r (errno (process x)), world := w, trace := trace (process x) @ [c]\<rparr>\<rparr>))"

function sendfile_loop_win ::
  "'w os \<Rightarrow> int32 \<Rightarrow> int32 \<Rightarrow> int32 \<Rightarrow> int32 \<Rightarrow> 'w winsock \<Rightarrow> (int32 option \<times> 'w winsock) outcome" where
  "sendfile_loop_win os nOutFd nInFd nCount nOutCount x =
     (if sint nOutCount < sint nCount then
        (if 2 ^ 31 \<le> sint nCount - sint nOutCount then Faults SignedOverflow
         else
           (let nInCount = (if sint (nCount - nOutCount) < sint SOCKET_SENDFILE_BLOCKSIZE
                            then nCount - nOutCount else SOCKET_SENDFILE_BLOCKSIZE);
                (r1, x1) = crt_call os (Sys_read nInFd nInCount) x
            in if i32 (ret r1) \<noteq> nInCount then Returns (None, x1)
               else
                 (let (r2, x2) = winsock_call os (Sys_send nOutFd (take (nat (sint nInCount)) (data r1)) 0) x1
                  in if i32 (ret r2) \<noteq> nInCount then Returns (None, x2)
                     else sendfile_loop_win os nOutFd nInFd nCount (nOutCount + nInCount) x2)))
      else Returns (Some nOutCount, x))"
  by pat_completeness auto

termination sendfile_loop_win
proof (relation "measure (\<lambda>(os, nOutFd, nInFd, nCount, nOutCount, x). nat (sint nCount - sint nOutCount))", goal_cases)
  case (2 os nOutFd nInFd nCount nOutCount x)
  then have "sint nOutCount < sint nCount" "sint nCount - sint nOutCount < 2 ^ 31" by auto
  with 2(3) sint_next_block [of nOutCount nCount] show ?case by (simp add: block_size_def)
qed simp

declare sendfile_loop_win.simps [simp del]

definition SendFile_win ::
  "'w os \<Rightarrow> int32 \<Rightarrow> int32 \<Rightarrow> int32 \<Rightarrow> int32 \<Rightarrow> 'a csocket_scheme \<Rightarrow> 'w winsock \<Rightarrow>
     (int32 \<times> int32 \<times> 'a csocket_scheme \<times> 'w winsock) outcome" where
  "SendFile_win os nOutFd nInFd pOffset nCount s x =
     (let nOutCount = error_code SocketError;
          (r, x1) = crt_call os (Sys_lseek nInFd (scast pOffset) SEEK_SET) x
      in if ret r = -1 then Returns (-1, pOffset, s, x1)
         else
           obind (sendfile_loop_win os nOutFd nInFd nCount nOutCount x1) (\<lambda>(n, x2).
             case n of
               None \<Rightarrow> Returns (-1, pOffset, s, x2)
             | Some n' \<Rightarrow>
                 (if sint pOffset + sint n' < - (2 ^ 31) \<or> 2 ^ 31 \<le> sint pOffset + sint n' then Faults SignedOverflow
                  else Returns (n', pOffset + n', TranslateSocketError_win s x2, x2))))"

section \<open>Agreement with the Linux build\<close>

text \<open>A \<open>Send\<close> method of both builds.\<close>

definition sender_agrees :: "('a, 'w) send_method \<Rightarrow> ('a, 'w) send_method_win \<Rightarrow> bool" where
  "sender_agrees send send_win \<longleftrightarrow>
     (\<forall>p n s x. send p n (linux_names s) (posix_env x) = map_outcome (\<lambda>(k, s', x'). (k, linux_names s', posix_env x')) (send_win p n s x))"

lemma sender_agreesD:
  "sender_agrees send send_win \<Longrightarrow>
     send p n (linux_names s) (posix_env x) = map_outcome (\<lambda>(k, s', x'). (k, linux_names s', posix_env x')) (send_win p n s x)"
  by (simp add: sender_agrees_def)

lemma Send_agrees: "sender_agrees (Send (posix_os os)) (Send_win os)"
  by (simp add: sender_agrees_def Send_posix)

lemma Flush_posix:
  assumes "sender_agrees send send_win"
  shows "Flush (posix_os os) send (linux_names s) (posix_env x)
    = map_outcome (\<lambda>(b, s', x'). (b, linux_names s', posix_env x')) (Flush_win os send_win s x)"
  by (auto simp: Flush_def Flush_win_def Let_def split_beta posix_call setsockopt_posix windows_option_def posix_translate
      sender_agreesD [OF assms] obind_map_outcome map_obind obind_assoc intro!: obind_cong_Returns)

lemma writev_loop_posix:
  assumes "sender_agrees send send_win"
  shows "writev_loop send vs i m (linux_names s) (posix_env x)
    = map_outcome (\<lambda>(k, n, s', x'). (k, n, linux_names s', posix_env x')) (writev_loop send_win vs i m s x)"
proof (induction vs arbitrary: i m s x)
  case (Cons v vs)
  show ?case
    by (auto simp: sender_agreesD [OF assms] obind_map_outcome map_obind split_beta Cons.IH intro!: obind_cong_Returns)
qed simp

lemma Writev_posix:
  assumes "sender_agrees send send_win"
  shows "Writev (posix_os os) send vs (linux_names s) (posix_env x)
    = map_outcome (\<lambda>(k, s', x'). (k, linux_names s', posix_env x')) (Writev_win os send_win vs s x)"
  by (auto simp: Writev_def Writev_win_def writev_loop_posix [OF assms] Flush_posix [OF assms] obind_map_outcome map_obind split_beta
      intro!: obind_cong_Returns)

lemma crt_posix:
  assumes "file_call c"
  shows "invoke (posix_os os) c (posix_env x) = (posix_reply c (fst (crt_call os c x)), posix_env (snd (crt_call os c x)))"
  using assms
  by (cases c; simp add: invoke_def crt_call_def posix_os_def posix_env_def posix_reply_def Let_def split_beta set_errno_def)+

lemma sendfile_loop_win_block:
  "sendfile_loop_win os o1 i1 n out x =
     (if sint out < sint n then
        (if 2 ^ 31 \<le> sint n - sint out then Faults SignedOverflow
         else
           (let k = block_size n out;
                (r1, x1) = crt_call os (Sys_read i1 k) x
            in if i32 (ret r1) \<noteq> k then Returns (None, x1)
               else
                 (let (r2, x2) = winsock_call os (Sys_send o1 (take (nat (sint k)) (data r1)) 0) x1
                  in if i32 (ret r2) \<noteq> k then Returns (None, x2)
                     else sendfile_loop_win os o1 i1 n (out + k) x2)))
      else Returns (Some out, x))"
  by (subst sendfile_loop_win.simps) (simp only: block_size_def [symmetric])

lemma sendfile_loop_posix:
  shows "sendfile_loop (posix_os os) o1 i1 n out (posix_env x) = map_outcome (\<lambda>(k, x'). (k, posix_env x')) (sendfile_loop_win os o1 i1 n out x)
    \<and> pred_outcome (\<lambda>(k, x'). \<forall>m. k = Some m \<longrightarrow> sint m = max (sint out) (sint n)) (sendfile_loop_win os o1 i1 n out x)"
proof (induction os o1 i1 n out x rule: sendfile_loop_win.induct)
  case (1 os o1 i1 n out x)
  let ?k = "block_size n out"
  show ?case
  proof (cases "sint out < sint n \<and> sint n - sint out < 2 ^ 31")
    case False
    then show ?thesis by (subst sendfile_loop_block, subst (1 2) sendfile_loop_win_block) auto
  next
    case True
    obtain r1 x1 where r1: "crt_call os (Sys_read i1 ?k) x = (r1, x1)" by fastforce
    obtain r2 x2 where r2: "winsock_call os (Sys_send o1 (take (nat (sint ?k)) (data r1)) 0) x1 = (r2, x2)" by fastforce
    have p1: "invoke (posix_os os) (Sys_read i1 ?k) (posix_env x) = (posix_reply (Sys_read i1 ?k) r1, posix_env x1)"
      by (simp add: crt_posix r1)
    have p2: "invoke (posix_os os) (Sys_send o1 (take (nat (sint ?k)) (data r1)) 0) (posix_env x1)
        = (posix_reply (Sys_send o1 (take (nat (sint ?k)) (data r1)) 0) r2, posix_env x2)"
      by (simp add: posix_call r2)
    have next_: "sint (out + ?k) = sint out + min (sint n - sint out) 8192" using True by (simp add: sint_next_block)
    have IH: "i32 (ret r1) = ?k \<Longrightarrow> i32 (ret r2) = ?k \<Longrightarrow> sendfile_loop (posix_os os) o1 i1 n (out + ?k) (posix_env x2) =
        map_outcome (\<lambda>(k, x'). (k, posix_env x')) (sendfile_loop_win os o1 i1 n (out + ?k) x2)
      \<and> pred_outcome (\<lambda>(k, x'). \<forall>m. k = Some m \<longrightarrow> sint m = max (sint (out + ?k)) (sint n)) (sendfile_loop_win os o1 i1 n (out + ?k) x2)"
      using True by (intro "1.IH" [OF _ _ _ r1 [symmetric] refl _ r2 [symmetric] refl]) (simp_all add: block_size_def)
    have "max (sint (out + ?k)) (sint n) = max (sint out) (sint n)" unfolding next_ using True by auto
    then show ?thesis
      using True IH
      by (subst sendfile_loop_block, subst (1 2) sendfile_loop_win_block) (simp add: Let_def r1 r2 p1 p2)
  qed
qed

lemma SendFile_posix:
  assumes "- (2 ^ 31) < sint pOffset" and "sint pOffset + max (- 1) (sint nCount) < 2 ^ 31"
  shows "SendFile (posix_os os) o1 i1 (scast pOffset) nCount (linux_names s) (posix_env x)
    = map_outcome (\<lambda>(k, off, s', x'). (k, scast off, linux_names s', posix_env x')) (SendFile_win os o1 i1 pOffset nCount s x)"
proof -
  obtain r x1 where r: "crt_call os (Sys_lseek i1 (scast pOffset) SEEK_SET) x = (r, x1)" by fastforce
  have i: "invoke (posix_os os) (Sys_lseek i1 (scast pOffset) 0) (posix_env x) = (posix_reply (Sys_lseek i1 (scast pOffset) 0) r, posix_env x1)"
    by (simp add: crt_posix r)
  note loop = sendfile_loop_posix [of os o1 i1 nCount "-1" x1]
  have sum: "scast (pOffset + m) = (scast pOffset + scast m :: int64)"
    if "- (2 ^ 31) \<le> sint pOffset + sint m" "sint pOffset + sint m < 2 ^ 31" for m
    by (simp only: scast_eq sint_plus_range [OF that] of_int_add)
  have fin: "(case k of None \<Rightarrow> Returns (-1, scast pOffset, linux_names s, posix_env x2)
        | Some m \<Rightarrow> Returns (m, scast pOffset + scast m, TranslateSocketError (linux_names s) (posix_env x2), posix_env x2))
      = map_outcome (\<lambda>(k, off, s', x'). (k, scast off :: int64, linux_names s', posix_env x'))
         (case k of None \<Rightarrow> Returns (-1, pOffset, s, x2)
          | Some m \<Rightarrow> (if sint pOffset + sint m < - (2 ^ 31) \<or> 2 ^ 31 \<le> sint pOffset + sint m then Faults SignedOverflow
                      else Returns (m, pOffset + m, TranslateSocketError_win s x2, x2)))"
    if "\<forall>m. k = Some m \<longrightarrow> sint m = max (sint (-1 :: int32)) (sint nCount)" for k x2
  proof (cases k)
    case (Some m)
    then have "sint m = max (- 1) (sint nCount)" using that by simp
    then have "- (2 ^ 31) \<le> sint pOffset + sint m" "sint pOffset + sint m < 2 ^ 31" using assms by linarith+
    with sum [OF this] that show ?thesis by (simp add: Some posix_translate)
  qed simp
  show ?thesis
  proof (cases "ret r = -1")
    case True
    then show ?thesis by (simp add: SendFile_def SendFile_win_def i r)
  next
    case False
    then have "SendFile (posix_os os) o1 i1 (scast pOffset) nCount (linux_names s) (posix_env x)
        = obind (sendfile_loop (posix_os os) o1 i1 nCount (-1) (posix_env x1)) (\<lambda>(n, e2). case n of None \<Rightarrow> Returns (-1, scast pOffset, linux_names s, e2)
            | Some n' \<Rightarrow> Returns (n', scast pOffset + scast n', TranslateSocketError (linux_names s) e2, e2))"
      by (simp add: SendFile_def i)
    also have "\<dots> = map_outcome (\<lambda>(k, off, s', x'). (k, scast off, linux_names s', posix_env x'))
        (obind (sendfile_loop_win os o1 i1 nCount (-1) x1) (\<lambda>(n, x2). case n of None \<Rightarrow> Returns (-1, pOffset, s, x2)
          | Some m \<Rightarrow> (if sint pOffset + sint m < - (2 ^ 31) \<or> 2 ^ 31 \<le> sint pOffset + sint m then Faults SignedOverflow
                      else Returns (m, pOffset + m, TranslateSocketError_win s x2, x2))))"
      by (rule map_obind_pred [OF conjunct1 [OF loop] conjunct2 [OF loop]]) (simp only: split_paired_all case_prod_conv, rule fin, assumption)
    also have "\<dots> = map_outcome (\<lambda>(k, off, s', x'). (k, scast off, linux_names s', posix_env x')) (SendFile_win os o1 i1 pOffset nCount s x)"
      using False by (simp add: SendFile_win_def r)
    finally show ?thesis .
  qed
qed

text \<open>
  C28. On Windows \<open>Flush\<close>, \<open>Writev\<close> and \<open>SendFile\<close> are the Linux operations with the errors renamed, whatever
  the system answers, and the last as long as the file offset stays below 2 GB: the same calls and blocks, the same
  result, the same fault or stop on each failure, also where \<open>Flush\<close> is refused for its length pointer, and the same object, but for its error code where
  no Linux call gives that code: the invalid pointer of \<open>WSAEFAULT\<close> stands for the invalid buffer of
  \<open>EFAULT\<close>, and the invalid address of \<open>WSANO_DATA\<close> for an unknown error.
\<close>

theorem bulk_transfers_win_refine:
  assumes "- (2 ^ 31) < sint pOffset" and "sint pOffset + max (- 1) (sint nCount) < 2 ^ 31"
  shows "Flush (posix_os os) (Send (posix_os os)) (linux_names s) (posix_env x)
        = map_outcome (\<lambda>(b, s', x'). (b, linux_names s', posix_env x')) (Flush_win os (Send_win os) s x)
    \<and> Writev (posix_os os) (Send (posix_os os)) vs (linux_names s) (posix_env x)
        = map_outcome (\<lambda>(k, s', x'). (k, linux_names s', posix_env x')) (Writev_win os (Send_win os) vs s x)
    \<and> SendFile (posix_os os) o1 i1 (scast pOffset) nCount (linux_names s) (posix_env x)
        = map_outcome (\<lambda>(k, off, s', x'). (k, scast off, linux_names s', posix_env x')) (SendFile_win os o1 i1 pOffset nCount s x)"
  using Flush_posix [OF Send_agrees] Writev_posix [OF Send_agrees] SendFile_posix [OF assms] by blast

text \<open>A Windows with a file of zeros and a socket that takes what it is given.\<close>

definition windows_file :: "unit os" where
  "windows_file =
     \<lparr>kernel = (\<lambda>c w. (case c of
         Sys_read fd n \<Rightarrow> (ok (sint n))\<lparr>data := replicate (nat (sint n)) 0\<rparr>
       | Sys_send fd b f \<Rightarrow> ok (int (length b))
       | _ \<Rightarrow> ok 0, w)),
      clock = (\<lambda>w. (timeval_zero, w)), inet_addr = (\<lambda>p. 0), inet_ntoa = (\<lambda>a. []), uninit = (\<lambda>i. 0)\<rparr>"

theorem bulk_transfers_win_refine_witness:
  "\<exists>s' x' e'. SendFile_win windows_file 8 5 100 2 (demo_active SocketTypeTcp 8)
        \<lparr>process = \<lparr>errno = 0, h_errno = 0, world = (), trace = []\<rparr>, wsa_error = 0\<rparr> = Returns (2, 102, s', x')
     \<and> SendFile (posix_os windows_file) 8 5 100 2 (linux_names (demo_active SocketTypeTcp 8))
        (posix_env \<lparr>process = \<lparr>errno = 0, h_errno = 0, world = (), trace = []\<rparr>, wsa_error = 0\<rparr>) = Returns (2, 102, linux_names s', e')
     \<and> trace e' = [Sys_lseek 5 100 0, Sys_read 5 3, Sys_send 8 [0, 0, 0] 0]"
proof -
  let ?s = "demo_active SocketTypeTcp 8"
  let ?x = "\<lparr>process = \<lparr>errno = 0, h_errno = 0, world = (), trace = []\<rparr>, wsa_error = 0\<rparr> :: unit winsock"
  have b: "block_size 2 (-1) = 3" by (simp add: block_size_def)
  obtain s' x' where W: "SendFile_win windows_file 8 5 100 2 ?s ?x = Returns (2, 102, s', x')"
    "trace (posix_env x') = [Sys_lseek 5 100 0, Sys_read 5 3, Sys_send 8 [0, 0, 0] 0]"
    by (simp add: SendFile_win_def sendfile_loop_win_block [of _ _ _ 2 "-1"] sendfile_loop_win_block [of _ _ _ 2 2] b crt_call_def
        winsock_call_def windows_file_def posix_env_def numeral_3_eq_3)
  have "SendFile (posix_os windows_file) 8 5 (scast (100 :: int32)) 2 (linux_names ?s) (posix_env ?x)
      = map_outcome (\<lambda>(k, off, s', x'). (k, scast off, linux_names s', posix_env x')) (SendFile_win windows_file 8 5 100 2 ?s ?x)"
    by (rule bulk_transfers_win_refine [of 100 2, THEN conjunct2, THEN conjunct2]) simp_all
  then show ?thesis using W by simp
qed

section \<open>The vector Send\<close>

text \<open>
  On Windows the vector \<open>Send\<close> never says that it failed: when the first element cannot be sent it
  returns 0, as for an empty vector, where the Linux build returns -1.
\<close>

theorem vector_send_hides_failure:
  assumes "Send_win os (iov_base v) (iov_len v) ((SetSocketError SocketSuccess s)\<lparr>m_nBytesSent := 0\<rparr>) x = Returns (-1, s1, x1)"
    and "kernel os' (Sys_writev (m_socket s) bs n) (world e) = (r, w)" and "ret r = -1"
  shows "\<exists>s2. Send_vector_win os (Send_win os) (v # vs) s x = Returns (0, s2, x1) \<and> GetBytesSent s2 = 0
    \<and> fst (Send_vector os' bs n s e) = -1"
  using assms
  by (simp add: Send_vector_win_def Writev_win_def Send_vector_def GetBytesSent_def Let_def split_beta fst_invoke SetSocketError_def
      TranslateSocketError_def)

text \<open>A connection that has been reset.\<close>

definition windows_reset :: "unit os" where
  "windows_reset =
     \<lparr>kernel = (\<lambda>c w. (fail WSAECONNRESET, w)),
      clock = (\<lambda>w. (timeval_zero, w)), inet_addr = (\<lambda>p. 0), inet_ntoa = (\<lambda>a. []), uninit = (\<lambda>i. 0)\<rparr>"

theorem vector_send_hides_failure_witness:
  "\<exists>s2 x1. Send_vector_win windows_reset (Send_win windows_reset) [\<lparr>iov_base = Some [1], iov_len = 1\<rparr>] (demo_active SocketTypeTcp 8)
        \<lparr>process = \<lparr>errno = 0, h_errno = 0, world = (), trace = []\<rparr>, wsa_error = 0\<rparr> = Returns (0, s2, x1)
     \<and> GetBytesSent s2 = 0 \<and> trace (process x1) = [Sys_send 8 [1] 0]"
proof -
  let ?s = "(SetSocketError SocketSuccess (demo_active SocketTypeTcp 8))\<lparr>m_nBytesSent := 0\<rparr>"
  let ?x = "\<lparr>process = \<lparr>errno = 0, h_errno = 0, world = (), trace = []\<rparr>, wsa_error = 0\<rparr> :: unit winsock"
  obtain s0 x0 where t: "timer_start_win windows_reset ?s ?x = (s0, x0)" by fastforce
  then have 0: "m_socket s0 = 8" "trace (process x0) = []"
    by (auto simp: timer_start_win_def timer_start_eq SetSocketError_def)
  obtain s2 x2 where A: "send_attempt_win windows_reset [1] (s0, x0) = Returns (s2, x2)" "GetSocketError s2 = SocketConnectionReset"
    "m_nBytesSent s2 = -1" "trace (process x2) = [Sys_send 8 [1] 0]"
    using 0 by (simp add: send_attempt_win_def winsock_call_def windows_reset_def TranslateSocketError_win_def WSAGetLastError_def
        SetSocketError_def GetSocketError_def translate_wsa_def)
  have L: "do_while (send_attempt_win windows_reset [1]) interrupted (s0, x0) = Returns (s2, x2)"
    by (rule do_while_once) (simp_all add: A(1,2) interrupted_def)
  have s: "SetSocketError SocketSuccess ?s = SetSocketError SocketSuccess (demo_active SocketTypeTcp 8)\<lparr>m_nBytesSent := 0\<rparr>"
    by (simp add: SetSocketError_def)
  obtain s1 x1 where W: "Send_win windows_reset (Some [1]) 1 ?s ?x = Returns (-1, s1, x1)" "trace (process x1) = [Sys_send 8 [1] 0]"
    using A(3,4) t L
    by (simp add: Send_win_def s IsSocketValid_iff read_buffer_def timer_end_win_def timer_end_eq SetSocketError_def)
  have v: "Send_win windows_reset (iov_base \<lparr>iov_base = Some [1], iov_len = 1\<rparr>) (iov_len \<lparr>iov_base = Some [1], iov_len = 1\<rparr>) ?s ?x
      = Returns (-1, s1, x1)"
    using W(1) by simp
  have k: "kernel windows_reset (Sys_writev (m_socket (demo_active SocketTypeTcp 8)) [[1]] 1) (world (process ?x)) = (fail WSAECONNRESET, ())"
    by (simp add: windows_reset_def)
  from vector_send_hides_failure [OF v k, where vs = "[]"] W(2) show ?thesis by auto
qed

end
