(* ===== verification/Windows_Server.thy ===== *)
theory Windows_Server imports Windows_Transfer Example_Programs begin

text \<open>
  The echo server in a Windows build. Its loop lives on \<open>Accept\<close>, which calls \<open>getpeername\<close> on the
  listening socket; that call fails, and leaves the error that the next \<open>Accept\<close> takes for its own.
\<close>

section \<open>EchoServer\<close>

text \<open>
  The count passed to \<open>Send\<close> is a \<open>size_t\<close>; a negative one is longer than the buffer at 32 bits as at 64.
\<close>

definition CPassiveSocket_destroy_win :: "'w os \<Rightarrow> cpassive \<Rightarrow> 'w winsock \<Rightarrow> cpassive \<times> 'w winsock" where
  "CPassiveSocket_destroy_win os s x =
     (let (b, s1, x1) = Close_win os s x in (CSimpleSocket_destroy s1, x1))"

definition serve_client_win :: "'w os \<Rightarrow> cactive \<Rightarrow> 'w winsock \<Rightarrow> 'w winsock outcome" where
  "serve_client_win os pClient x =
     obind (Receive_win os MAX_PACKET None pClient x) (\<lambda>(n, b, p1, x1).
     obind
       (if n \<noteq> 0 then
          obind (Send_win os (GetData p1) (to_size (GetBytesReceived p1)) p1 x1) (\<lambda>(k, p2, x2).
            let (c, p3, x3) = Close_win os p2 x2 in Returns (p3, x3))
        else Returns (p1, x1))
       (\<lambda>(p4, x4). Returns (snd (CActiveSocket_destroy_win os p4 x4))))"

definition echo_pass_win ::
  "'w os \<Rightarrow> cactive \<Rightarrow> cpassive \<times> 'w winsock \<Rightarrow> (cpassive \<times> 'w winsock) outcome" where
  "echo_pass_win os raw = (\<lambda>(s, x).
     obind (Accept_win os raw s x) (\<lambda>(pClient, s1, x1).
       case pClient of
         None \<Rightarrow> Returns (s1, x1)
       | Some p \<Rightarrow> obind (serve_client_win os p x1) (\<lambda>x2. Returns (s1, x2))))"

definition EchoServer_win :: "'w os \<Rightarrow> cpassive \<Rightarrow> cactive \<Rightarrow> 'w winsock \<Rightarrow> (int32 \<times> 'w winsock) outcome" where
  "EchoServer_win os raw_server raw x =
     (let s = CSimpleSocket_win SocketTypeTcp raw_server;
          (b, s1, x1) = Initialize_win os s x;
          (listening, s2, x2) = Listen_win os (Some ''127.0.0.1'') 6789 30000 s1 x1
      in if \<not> listening then
           (let (s3, x3) = CPassiveSocket_destroy_win os s2 x2 in Returns (1, x3))
         else
           obind (if IsSocketValid s2
                  then do_while (echo_pass_win os raw) (\<lambda>(s, x). IsSocketValid s) (s2, x2)
                  else Returns (s2, x2))
             (\<lambda>(s3, x3).
                let (c, s4, x4) = Close_win os s3 x3;
                    (s5, x5) = CPassiveSocket_destroy_win os s4 x4
                in Returns (1, x5)))"

lemma stale_serve_client:
  assumes "errors_in lasting os" and "error_in lasting x"
  shows "pred_outcome (error_in lasting) (serve_client_win os p x)"
  unfolding serve_client_win_def
  by (rule pred_obind [OF error_in_Receive [OF assms]])
     (auto simp: CActiveSocket_destroy_win_def Let_def split_beta error_in_Close [OF assms(1)]
       intro!: pred_obind [where Q = "\<lambda>(p, x). error_in lasting x"] pred_obind [OF error_in_Send [OF assms(1)]])


section \<open>The listening socket\<close>

text \<open>
  A listening socket of Windows with clients waiting for ever: every \<open>accept\<close> succeeds and leaves the last error
  as it was, \<open>getpeername\<close> says that the socket is not connected, and no call stores a zero or an
  interruption as the last error. Winsock lets a call that succeeds reset the last error to zero; this is
  the behaviour of a system on which none does.
\<close>

abbreviation (input) lasting :: "int set" where "lasting \<equiv> - {0, WSAEINTR}"

definition winsock_listener :: "'w os \<Rightarrow> SOCKET \<Rightarrow> bool" where
  "winsock_listener os fd \<longleftrightarrow> errors_in lasting os
   \<and> (\<forall>w. err (fst (kernel os (Sys_accept fd) w)) = None \<and> i32 (ret (fst (kernel os (Sys_accept fd) w))) \<noteq> -1)
   \<and> (\<forall>w. err (fst (kernel os (Sys_getpeername fd) w)) = Some WSAENOTCONN)"

lemma accept_pass_winsock:
  assumes "winsock_listener os (m_socket s)"
  shows "\<exists>p1 s1 x1. accept_attempt_win os (p, s, x, c) = Returns (p1, s1, x1, translate_wsa (wsa_error x))
    \<and> m_socket p1 \<noteq> -1 \<and> m_pBuffer p1 = m_pBuffer p \<and> error_in lasting x1
    \<and> m_socket s1 = m_socket s \<and> m_nSocketType s1 = m_nSocketType s
    \<and> trace (process x1) = trace (process x) @ [Sys_accept (m_socket s), Sys_getpeername (m_socket s), Sys_getsockname (m_socket s)]"
proof -
  let ?x0 = "errno_win 0 x"
  obtain r x1 where 1: "winsock_call os (Sys_accept (m_socket s)) ?x0 = (r, x1)" by fastforce
  obtain r2 x2 where 2: "winsock_call os (Sys_getpeername (m_socket s)) x1 = (r2, x2)" by fastforce
  obtain r3 x3 where 3: "winsock_call os (Sys_getsockname (m_socket s)) x2 = (r3, x3)" by fastforce
  have law: "errors_in lasting os" using assms by (simp add: winsock_listener_def)
  have r: "i32 (ret r) \<noteq> -1" "wsa_error x1 = wsa_error x" "wsa_error x2 = WSAENOTCONN"
    using 1 2 assms by (auto simp: winsock_call_def winsock_listener_def Let_def split_beta set_errno_def errno_win_def)
  have "error_in lasting x2" using r(3) by (simp add: error_in_def)
  then have "error_in lasting x3" using error_in_call [OF law, of x2 "Sys_getsockname (m_socket s)"] by (simp add: 3)
  moreover have "trace (process x3) = trace (process x) @ [Sys_accept (m_socket s), Sys_getpeername (m_socket s), Sys_getsockname (m_socket s)]"
    using 1 2 3 by (auto simp: winsock_call_def Let_def split_beta errno_win_def)
  ultimately show ?thesis
    using r(1) by (cases "addr r")
      (simp_all add: accept_attempt_win_def 1 2 3 r(2) TranslateSocketError_win_def WSAGetLastError_def SetSocketError_def
        GetSocketError_def SetSocketHandle_def)
qed

lemma Accept_winsock:
  assumes law: "winsock_listener os (m_socket s)" and ty: "m_nSocketType s = SocketTypeTcp"
  shows "pred_outcome (\<lambda>(c, s', x'). error_in lasting x' \<and> m_socket s' = m_socket s \<and> m_nSocketType s' = SocketTypeTcp) (Accept_win os raw s x)"
proof -
  obtain s1 x1 where t: "timer_start_win os s x = (s1, x1)" by fastforce
  have s1: "m_socket s1 = m_socket s" "m_nSocketType s1 = SocketTypeTcp"
    using t ty by (auto simp: timer_start_win_def timer_start_eq)
  let ?P = "\<lambda>(p, s', x', c). m_socket s' = m_socket s \<and> m_nSocketType s' = SocketTypeTcp"
  let ?Q = "\<lambda>(p, s', x', c). error_in lasting x' \<and> m_socket s' = m_socket s \<and> m_nSocketType s' = SocketTypeTcp"
  have pass: "?Q y" if "?P u" "accept_attempt_win os u = Returns y" for u y
  proof (cases u)
    case (fields p s' x' c)
    then show ?thesis using that law accept_pass_winsock [of os s' p x' c] by auto
  qed
  have loop: "pred_outcome ?Q (do_while (accept_attempt_win os) accept_interrupted_win (CSimpleSocket_win SocketTypeTcp raw, s1, x1, SocketSuccess))"
  proof (cases "do_while (accept_attempt_win os) accept_interrupted_win (CSimpleSocket_win SocketTypeTcp raw, s1, x1, SocketSuccess)")
    case (Returns y)
    have "?Q y \<and> \<not> accept_interrupted_win y"
    proof (rule do_while_rule [OF Returns, where P = ?P])
      show "?P (CSimpleSocket_win SocketTypeTcp raw, s1, x1, SocketSuccess)" using s1 by simp
      show "?Q v" if "?P u" "accept_attempt_win os u = Returns v" for u v by (rule pass [OF that])
      show "?P v" if "?Q v" for v using that by (cases v) simp
    qed
    then show ?thesis unfolding Returns by simp
  qed simp_all
  have last: "errors_in lasting os" using law by (simp add: winsock_listener_def)
  have te: "error_in lasting (snd (timer_end_win os s2 x2)) = error_in lasting x2" "m_socket (fst (timer_end_win os s2 x2)) = m_socket s2"
    "m_nSocketType (fst (timer_end_win os s2 x2)) = m_nSocketType s2" for s2 :: cpassive and x2
    by simp (simp_all add: timer_end_win_def timer_end_eq)
  have fin: "pred_outcome (\<lambda>(c, s', x'). error_in lasting x' \<and> m_socket s' = m_socket s \<and> m_nSocketType s' = SocketTypeTcp)
      (let (s3, x3) = timer_end_win os s2 x2
       in if c \<noteq> SocketSuccess then (let (d, x4) = CActiveSocket_destroy_win os p x3 in Returns (None, s3, x4)) else Returns (Some p, s3, x3))"
    if "?Q (p, s2, x2, c)" for p and s2 :: cpassive and x2 c
    using that te [of s2 x2] error_in_Close [OF last, of "snd (timer_end_win os s2 x2)" p]
    by (simp add: CActiveSocket_destroy_win_def Let_def split_beta del: error_in_update)
  show ?thesis
    unfolding Accept_win_def t Let_def [of "CSimpleSocket_win SocketTypeTcp raw"] case_prod_conv
    using ty loop fin by (auto intro!: pred_obind [where Q = ?Q])
qed

lemma Accept_winsock_stale:
  assumes law: "winsock_listener os (m_socket s)" and ty: "m_nSocketType s = SocketTypeTcp" and x: "error_in lasting x"
  shows "\<exists>s' x' c. Accept_win os raw s x = Returns (None, s', x') \<and> error_in lasting x' \<and> m_socket s' = m_socket s \<and> m_nSocketType s' = SocketTypeTcp
    \<and> trace (process x') = trace (process x) @ [Sys_accept (m_socket s), Sys_getpeername (m_socket s), Sys_getsockname (m_socket s), Sys_close c]"
proof -
  let ?p = "CSimpleSocket_win SocketTypeTcp raw"
  obtain s1 x1 where t: "timer_start_win os s x = (s1, x1)" by fastforce
  have s1: "m_socket s1 = m_socket s" "m_nSocketType s1 = SocketTypeTcp" "wsa_error x1 = wsa_error x" "trace (process x1) = trace (process x)"
    using t ty by (auto simp: timer_start_win_def timer_start_eq)
  let ?c = "translate_wsa (wsa_error x)"
  have c: "?c \<noteq> SocketSuccess" "?c \<noteq> SocketInterrupted"
    using x windows.success_iff windows.interrupted_iff by (simp_all add: error_in_def)
  obtain p2 s2 x2 where P: "accept_attempt_win os (?p, s1, x1, SocketSuccess) = Returns (p2, s2, x2, ?c)"
    "m_socket p2 \<noteq> -1" "error_in lasting x2" "m_socket s2 = m_socket s" "m_nSocketType s2 = SocketTypeTcp"
    "trace (process x2) = trace (process x) @ [Sys_accept (m_socket s), Sys_getpeername (m_socket s), Sys_getsockname (m_socket s)]"
    using accept_pass_winsock [of os s1 ?p x1 SocketSuccess] law s1 by auto
  have W: "do_while (accept_attempt_win os) accept_interrupted_win (?p, s1, x1, SocketSuccess) = Returns (p2, s2, x2, ?c)"
    by (rule accept_win.settles [OF P(1)]) (simp add: c(2))
  obtain s3 x3 where te: "timer_end_win os s2 x2 = (s3, x3)" by fastforce
  have 3: "m_socket s3 = m_socket s2" "m_nSocketType s3 = m_nSocketType s2" "error_in lasting x3" "trace (process x3) = trace (process x2)"
    using te error_in_update(3) [of lasting os s2 x2] P(3) by (auto simp: timer_end_win_def timer_end_eq)
  obtain d x4 where D: "CActiveSocket_destroy_win os p2 x3 = (d, x4)" by fastforce
  have 4: "error_in lasting x4" "trace (process x4) = trace (process x3) @ [Sys_close (m_socket p2)]"
    using D error_in_Close [of lasting os x3 p2] 3(3) law P(2)
    by (auto simp: CActiveSocket_destroy_win_def winsock_listener_def Close_win_def Let_def split_beta IsSocketValid_iff winsock_call_def)
  have "Accept_win os raw s x = Returns (None, s3, x4)"
    using ty c(1) by (simp add: Accept_win_def t W te D)
  then show ?thesis using 3 4 P by auto
qed

section \<open>One client\<close>

text \<open>Passes of a loop whose test stays true.\<close>

fun passes :: "('s \<Rightarrow> 's outcome) \<Rightarrow> nat \<Rightarrow> 's \<Rightarrow> 's outcome" where
  "passes body 0 s = Returns s"
| "passes body (Suc n) s = obind (body s) (passes body n)"

lemma echo_pass_winsock:
  assumes law: "winsock_listener os (m_socket s)" and ty: "m_nSocketType s = SocketTypeTcp"
  shows "pred_outcome (\<lambda>(s', x'). error_in lasting x' \<and> m_socket s' = m_socket s \<and> m_nSocketType s' = SocketTypeTcp) (echo_pass_win os raw (s, x))"
proof -
  have last: "errors_in lasting os" using law by (simp add: winsock_listener_def)
  show ?thesis
    unfolding echo_pass_win_def case_prod_conv
    by (rule pred_obind [OF Accept_winsock [OF law ty]])
       (auto split: option.split intro!: pred_obind [OF stale_serve_client [OF last]])
qed

lemma echo_pass_stale:
  assumes "winsock_listener os (m_socket s)" and "m_nSocketType s = SocketTypeTcp" and "error_in lasting x"
  shows "\<exists>s' x' c. echo_pass_win os raw (s, x) = Returns (s', x') \<and> error_in lasting x' \<and> m_socket s' = m_socket s \<and> m_nSocketType s' = SocketTypeTcp
    \<and> trace (process x') = trace (process x) @ [Sys_accept (m_socket s), Sys_getpeername (m_socket s), Sys_getsockname (m_socket s), Sys_close c]"
  using Accept_winsock_stale [OF assms, of raw] by (auto simp: echo_pass_win_def)

lemma passes_stale:
  assumes "winsock_listener os (m_socket s)" and "m_nSocketType s = SocketTypeTcp" and "error_in lasting x"
  shows "\<exists>s' x' cs. passes (echo_pass_win os raw) n (s, x) = Returns (s', x') \<and> length cs = n
    \<and> trace (process x') = trace (process x)
        @ concat (map (\<lambda>c. [Sys_accept (m_socket s), Sys_getpeername (m_socket s), Sys_getsockname (m_socket s), Sys_close c]) cs)"
  using assms
proof (induction n arbitrary: s x)
  case (Suc n)
  obtain s1 x1 c where 1: "echo_pass_win os raw (s, x) = Returns (s1, x1)" "error_in lasting x1" "m_socket s1 = m_socket s" "m_nSocketType s1 = SocketTypeTcp"
    "trace (process x1) = trace (process x) @ [Sys_accept (m_socket s), Sys_getpeername (m_socket s), Sys_getsockname (m_socket s), Sys_close c]"
    using echo_pass_stale [OF Suc.prems, of raw] by blast
  from Suc.IH [of s1 x1] Suc.prems 1 obtain s' x' cs where "passes (echo_pass_win os raw) n (s1, x1) = Returns (s', x')" "length cs = n"
    "trace (process x') = trace (process x1)
        @ concat (map (\<lambda>c. [Sys_accept (m_socket s), Sys_getpeername (m_socket s), Sys_getsockname (m_socket s), Sys_close c]) cs)"
    by auto
  then show ?case using 1 by (intro exI [of _ s'] exI [of _ x'] exI [of _ "c # cs"]) simp
qed simp

text \<open>
  C26. The echo server of a Windows build serves one client at most, for as long as every \<open>accept\<close> succeeds,
  no call is interrupted, and the calls that succeed leave the last error as it was (\<open>winsock_listener\<close>): this
  Winsock permits and does not promise, since a call that succeeds may reset the last error, and the
  property is about runs on which none does. There \<open>getpeername\<close> on the listening socket fails with \<open>WSAENOTCONN\<close>, and then,
  after any pass of the loop that returns, each further pass takes a connection and closes it with no byte
  received or sent, and the loop goes on for ever.
\<close>

theorem echo_server_win_serves_one_client:
  assumes "winsock_listener os (m_socket s)" and "GetSocketType s = SocketTypeTcp" and "IsSocketValid s"
    and "echo_pass_win os raw (s, x) = Returns (s1, x1)"
  shows "(\<exists>s' x' cs. passes (echo_pass_win os raw) n (s1, x1) = Returns (s', x') \<and> length cs = n
      \<and> trace (process x') = trace (process x1)
          @ concat (map (\<lambda>c. [Sys_accept (m_socket s), Sys_getpeername (m_socket s), Sys_getsockname (m_socket s), Sys_close c]) cs))
    \<and> do_while (echo_pass_win os raw) (\<lambda>(s, x). IsSocketValid s) (s, x) = Diverges"
proof -
  have ty: "m_nSocketType s = SocketTypeTcp" using assms(2) by (simp add: GetSocketType_def)
  have 1: "error_in lasting x1" "m_socket s1 = m_socket s" "m_nSocketType s1 = SocketTypeTcp"
    using echo_pass_winsock [OF assms(1) ty, of raw x] assms(4) by simp_all
  let ?P = "\<lambda>(s', x'). error_in lasting x' \<and> m_socket s' = m_socket s \<and> m_nSocketType s' = SocketTypeTcp"
  have "do_while (echo_pass_win os raw) (\<lambda>(s, x). IsSocketValid s) (s1, x1) = Diverges"
  proof (rule do_while_diverges [where P = ?P])
    show "?P (s1, x1)" using 1 by simp
    fix u :: "cpassive \<times> 'a winsock"
    assume "?P u"
    with echo_pass_stale [of os "fst u" "snd u" raw] assms(1,3)
    show "\<exists>y. echo_pass_win os raw u = Returns y \<and> (case y of (s, x) \<Rightarrow> IsSocketValid s) \<and> ?P y"
      by (cases u) (auto simp: IsSocketValid_iff)
  qed
  then have "do_while (echo_pass_win os raw) (\<lambda>(s, x). IsSocketValid s) (s, x) = Diverges"
    using assms(3,4) 1(2) do_while_again [of "echo_pass_win os raw" "(s, x)" "(s1, x1)" "\<lambda>(s, x). IsSocketValid s"]
    by (simp add: IsSocketValid_iff)
  moreover note passes_stale [of os s1 x1 raw n] 1 assms(1)
  ultimately show ?thesis by simp
qed

text \<open>Serving a client is what it is on Linux, with the errors renamed.\<close>

lemma serve_client_posix:
  "serve_client (posix_os os) (linux_names p) (posix_env x) = map_outcome posix_env (serve_client_win os p x)"
proof -
  have send: "obind (Send (posix_os os) q n (linux_names p1) (posix_env x1)) (\<lambda>(k, p2, e2). Returns (snd (Close (posix_os os) p2 e2)))
      = map_outcome (\<lambda>(p, x). (linux_names p, posix_env x)) (obind (Send_win os q n p1 x1) (\<lambda>(k, p2, x2). Returns (snd (Close_win os p2 x2))))"
    for q n and p1 :: cactive and x1
    by (auto simp: Send_posix Close_posix obind_map_outcome map_obind split_beta Let_def intro!: obind_cong_Returns)
  have any: "pred_outcome (\<lambda>_. True) m" for m :: "(int32 \<times> byte list option \<times> cactive \<times> 'a winsock) outcome" by (cases m) auto
  have any2: "pred_outcome (\<lambda>_. True) m" for m :: "(cactive \<times> 'a winsock) outcome" by (cases m) auto
  show ?thesis
    unfolding serve_client_def serve_client_win_def
    by (rule map_obind_pred [OF Receive_posix any])
       (auto simp: CActiveSocket_destroy_def CActiveSocket_destroy_win_def Close_posix Let_def split_beta
         intro!: map_obind_pred [where g = "\<lambda>(p, x). (linux_names p, posix_env x)", OF _ any2] send)
qed

text \<open>A Windows with a client that asks and takes the answer.\<close>

definition windows_server :: "unit os" where
  "windows_server =
     \<lparr>kernel = (\<lambda>c w. (case c of
         Sys_accept fd \<Rightarrow> (ok 9)\<lparr>addr := Some sockaddr_zero\<rparr>
       | Sys_getpeername fd \<Rightarrow> fail WSAENOTCONN
       | Sys_recv fd n f \<Rightarrow> (ok 2)\<lparr>data := [104, 105]\<rparr>
       | Sys_send fd b f \<Rightarrow> ok (int (length b))
       | _ \<Rightarrow> ok 0, w)),
      clock = (\<lambda>w. (timeval_zero, w)), inet_addr = (\<lambda>p. 0), inet_ntoa = (\<lambda>a. []), uninit = (\<lambda>i. 0)\<rparr>"

lemma windows_server_listener: "winsock_listener windows_server fd"
  by (auto simp: winsock_listener_def errors_in_def windows_server_def split: syscall.splits)

lemma first_pass:
  "\<exists>s1 x1 fl. echo_pass_win windows_server raw_active (demo_passive SocketTypeTcp 3,
       \<lparr>process = \<lparr>errno = 0, h_errno = 0, world = (), trace = []\<rparr>, wsa_error = 0\<rparr>) = Returns (s1, x1)
     \<and> m_socket s1 = 3 \<and> trace (process x1) = [Sys_accept 3, Sys_getpeername 3, Sys_getsockname 3,
         Sys_recv 9 4096 fl, Sys_send 9 [104, 105] 0, Sys_close 9]"
proof -
  let ?s = "demo_passive SocketTypeTcp 3"
  let ?x = "\<lparr>process = \<lparr>errno = 0, h_errno = 0, world = (), trace = []\<rparr>, wsa_error = 0\<rparr> :: unit winsock"
  let ?p = "CSimpleSocket_win SocketTypeTcp raw_active"
  obtain s1 x1 where t: "timer_start_win windows_server ?s ?x = (s1, x1)" by fastforce
  then have 1: "m_socket s1 = 3" "wsa_error x1 = 0" "trace (process x1) = []"
    by (auto simp: timer_start_win_def timer_start_eq)
  have c0: "translate_wsa 0 = SocketSuccess" by (simp add: translate_wsa_def)
  obtain p2 s2 x2 where P: "accept_attempt_win windows_server (?p, s1, x1, SocketSuccess) = Returns (p2, s2, x2, SocketSuccess)"
    "m_socket s2 = 3" "wsa_error x2 = WSAENOTCONN" "trace (process x2) = [Sys_accept 3, Sys_getpeername 3, Sys_getsockname 3]"
    "m_socket p2 = 9" "m_nSocketType p2 = SocketTypeTcp" "buffer_ok p2"
    using 1 c0
    by (simp add: accept_attempt_win_def winsock_call_def errno_win_def windows_server_def Let_def TranslateSocketError_win_def
        WSAGetLastError_def SetSocketError_def GetSocketError_def SetSocketHandle_def CSimpleSocket_win_def CSimpleSocket_def
        SetConnectTimeout_def buffer_ok_def set_errno_def)
  have W: "do_while (accept_attempt_win windows_server) accept_interrupted_win (?p, s1, x1, SocketSuccess) = Returns (p2, s2, x2, SocketSuccess)"
    by (rule accept_win.settles [OF P(1)]) simp
  obtain s3 x3 where te: "timer_end_win windows_server s2 x2 = (s3, x3)" by fastforce
  then have 3: "m_socket s3 = 3" "wsa_error x3 = WSAENOTCONN" "trace (process x3) = [Sys_accept 3, Sys_getpeername 3, Sys_getsockname 3]"
    using P by (auto simp: timer_end_win_def timer_end_eq)
  have A: "Accept_win windows_server raw_active ?s ?x = Returns (Some p2, s3, x3)"
    by (simp add: Accept_win_def t W te)
  have k: "kernel (posix_os windows_server) (Sys_recv fd n f) v = ((ok 2)\<lparr>data := [104, 105]\<rparr>, v)" for fd n f v
    by (simp add: posix_os_def windows_server_def posix_reply_def ok_def)
  have "takes_all (posix_os windows_server) 9" "close_succeeds (posix_os windows_server)"
    by (simp_all add: takes_all_def close_succeeds_def posix_os_def windows_server_def posix_reply_def ok_def)
  then obtain e' where "serve_client (posix_os windows_server) (linux_names p2) (posix_env x3) = Returns e'"
    "trace e' = trace (posix_env x3) @ [Sys_recv 9 4096 (m_nFlags p2), Sys_send 9 [104, 105] 0, Sys_close 9]"
    using serve_client_echoes [of "linux_names p2" "posix_env x3", OF _ _ _ _ k] P(5-7) 3(2)
    by (auto simp: IsSocketValid_iff ok_def posix_env_def posix_error_def translate_wsa_def)
  then obtain x4 where "serve_client_win windows_server p2 x3 = Returns x4" "trace (process x4) = trace (process x3) @ [Sys_recv 9 4096 (m_nFlags p2), Sys_send 9 [104, 105] 0, Sys_close 9]"
    using serve_client_posix [of windows_server p2 x3] 3(2)
    by (cases "serve_client_win windows_server p2 x3") (auto simp: posix_env_def 3(3) map_eq_Cons_conv)
  then show ?thesis using A 3 by (simp add: echo_pass_win_def)
qed

theorem echo_server_win_serves_one_client_witness:
  "\<exists>s1 x1 fl s2 x2 c. echo_pass_win windows_server raw_active (demo_passive SocketTypeTcp 3,
       \<lparr>process = \<lparr>errno = 0, h_errno = 0, world = (), trace = []\<rparr>, wsa_error = 0\<rparr>) = Returns (s1, x1)
     \<and> passes (echo_pass_win windows_server raw_active) 1 (s1, x1) = Returns (s2, x2)
     \<and> trace (process x2) = [Sys_accept 3, Sys_getpeername 3, Sys_getsockname 3, Sys_recv 9 4096 fl, Sys_send 9 [104, 105] 0, Sys_close 9,
         Sys_accept 3, Sys_getpeername 3, Sys_getsockname 3, Sys_close c]"
proof -
  obtain s1 x1 fl where 1: "echo_pass_win windows_server raw_active (demo_passive SocketTypeTcp 3,
       \<lparr>process = \<lparr>errno = 0, h_errno = 0, world = (), trace = []\<rparr>, wsa_error = 0\<rparr>) = Returns (s1, x1)"
    "trace (process x1) = [Sys_accept 3, Sys_getpeername 3, Sys_getsockname 3, Sys_recv 9 4096 fl, Sys_send 9 [104, 105] 0, Sys_close 9]"
    using first_pass by blast
  obtain s2 x2 cs where "passes (echo_pass_win windows_server raw_active) 1 (s1, x1) = Returns (s2, x2)" "length cs = 1"
    "trace (process x2) = trace (process x1) @ concat (map (\<lambda>c. [Sys_accept 3, Sys_getpeername 3, Sys_getsockname 3, Sys_close c]) cs)"
    using echo_server_win_serves_one_client [OF windows_server_listener _ _ 1(1), of 1]
    by (auto simp: GetSocketType_def IsSocketValid_iff)
  with 1 show ?thesis by (cases cs) auto
qed

end
