(* ===== verification/Windows_Timer.thy ===== *)
theory Windows_Timer imports Stat_Timer begin

text \<open>
  The timer in a Windows build. \<open>GET_CLOCK_COUNT\<close> is \<open>QueryPerformanceCounter\<close>, which stores a
  64-bit number of ticks where the code keeps a \<open>timeval\<close>: two \<open>long\<close>, of 32 bits there, so
  that the low half of the number becomes the seconds and the high half the microseconds. The
  arithmetic on them is signed and overflows at 32 bits. The counter is the parameter \<open>qpc\<close>.
\<close>

section \<open>State and operations\<close>

type_synonym 'w tick_counter = "'w \<Rightarrow> uint64 \<times> 'w"

record timeval_win =
  tv_sec_win :: int32
  tv_usec_win :: int32

record CStatTimer_win =
  m_startTime_win :: timeval_win
  m_endTime_win :: timeval_win

definition GET_CLOCK_COUNT_win :: "'w tick_counter \<Rightarrow> 'w \<Rightarrow> timeval_win \<times> 'w" where
  "GET_CLOCK_COUNT_win qpc w =
     (let (ticks, w1) = qpc w in (\<lparr>tv_sec_win = ucast ticks, tv_usec_win = ucast (drop_bit 32 ticks)\<rparr>, w1))"

definition Timer_Initialize_win :: "CStatTimer_win \<Rightarrow> CStatTimer_win" where
  "Timer_Initialize_win t =
     t\<lparr>m_startTime_win := \<lparr>tv_sec_win = 0, tv_usec_win = 0\<rparr>, m_endTime_win := \<lparr>tv_sec_win = 0, tv_usec_win = 0\<rparr>\<rparr>"

definition SetStartTime_win :: "'w tick_counter \<Rightarrow> CStatTimer_win \<Rightarrow> 'w \<Rightarrow> CStatTimer_win \<times> 'w" where
  "SetStartTime_win qpc t w = (let (now, w1) = GET_CLOCK_COUNT_win qpc w in (t\<lparr>m_startTime_win := now\<rparr>, w1))"

definition SetEndTime_win :: "'w tick_counter \<Rightarrow> CStatTimer_win \<Rightarrow> 'w \<Rightarrow> CStatTimer_win \<times> 'w" where
  "SetEndTime_win qpc t w = (let (now, w1) = GET_CLOCK_COUNT_win qpc w in (t\<lparr>m_endTime_win := now\<rparr>, w1))"

text \<open>A value of type \<open>long\<close>, which must not overflow.\<close>

definition long_value :: "int \<Rightarrow> int32 outcome" where
  "long_value n = (if - (2 ^ 31) \<le> n \<and> n < 2 ^ 31 then Returns (i32 n) else Faults SignedOverflow)"

definition CalcTotalUSec_win :: "CStatTimer_win \<Rightarrow> uint32 outcome" where
  "CalcTotalUSec_win t =
     obind (long_value (sint (tv_sec_win (m_endTime_win t)) - sint (tv_sec_win (m_startTime_win t)))) (\<lambda>sec.
     obind (long_value (sint sec * 1000000)) (\<lambda>usec.
     obind (long_value (sint (tv_usec_win (m_endTime_win t)) - sint (tv_usec_win (m_startTime_win t)))) (\<lambda>rest.
     long_value (sint usec + sint rest))))"

definition GetMilliSeconds_win :: "CStatTimer_win \<Rightarrow> uint32 outcome" where
  "GetMilliSeconds_win t = obind (CalcTotalUSec_win t) (\<lambda>n. Returns (n div MILLISECONDS_CONVERSION))"

definition GetMicroSeconds_win :: "CStatTimer_win \<Rightarrow> uint32 outcome" where
  "GetMicroSeconds_win t = CalcTotalUSec_win t"

definition GetSeconds_win :: "CStatTimer_win \<Rightarrow> uint32 outcome" where
  "GetSeconds_win t = obind (CalcTotalUSec_win t) (\<lambda>n. Returns (n div 1000000))"

definition GetCurrentTime_win :: "'w tick_counter \<Rightarrow> 'w \<Rightarrow> (uint32 \<times> 'w) outcome" where
  "GetCurrentTime_win qpc w =
     (let (tmpTime, w1) = GET_CLOCK_COUNT_win qpc w
      in obind (long_value (sint (tv_sec_win tmpTime) * 1000000)) (\<lambda>usec.
         obind (long_value (sint usec + sint (tv_usec_win tmpTime))) (\<lambda>n. Returns (n, w1))))"

section \<open>Ticks for microseconds\<close>

lemma long_value_in: "- (2 ^ 31) \<le> n \<Longrightarrow> n < 2 ^ 31 \<Longrightarrow> long_value n = Returns (i32 n)"
  by (simp add: long_value_def)

lemma sint_low: "uint a mod 2 ^ 32 < 2 ^ 31 \<Longrightarrow> sint (ucast (a :: uint64) :: int32) = uint a mod 2 ^ 32"
proof -
  assume "uint a mod 2 ^ 32 < 2 ^ 31"
  then have "sint (i32 (uint a mod 2 ^ 32)) = uint a mod 2 ^ 32" by (intro sint_i32) simp_all
  moreover have "i32 (uint a mod 2 ^ 32) = ucast a"
    unfolding take_bit_eq_mod [symmetric] by (rule bit_word_eqI) (simp add: bit_simps)
  ultimately show ?thesis by simp
qed

text \<open>Two readings whose low halves do not wrap have their difference as seconds.\<close>

lemma tick_halves:
  fixes a b :: uint64
  assumes "uint b = uint a + d" and "0 \<le> d" and "uint a mod 2 ^ 32 + d < 2 ^ 31"
  shows "sint (ucast b :: int32) - sint (ucast a :: int32) = d"
    and "(ucast (drop_bit 32 b) :: int32) = ucast (drop_bit 32 a)"
proof -
  have split: "uint a + d = 2 ^ 32 * (uint a div 2 ^ 32) + (uint a mod 2 ^ 32 + d)" by simp
  have r: "0 \<le> uint a mod 2 ^ 32 + d" "uint a mod 2 ^ 32 + d < 2 ^ 32" using assms(2,3) by simp_all
  note h = int_mod_pos_eq [OF split r] int_div_pos_eq [OF split r]
  show "sint (ucast b :: int32) - sint (ucast a :: int32) = d"
    using assms h(1) by (simp add: sint_low)
  have "uint (drop_bit 32 c) = uint c div 2 ^ 32" for c :: uint64
    unfolding drop_bit_eq_div [symmetric] by (rule bit_eqI) (simp add: bit_simps)
  then have "uint (drop_bit 32 b) = uint (drop_bit 32 a)" using h(2) assms(1) by simp
  then show "(ucast (drop_bit 32 b) :: int32) = ucast (drop_bit 32 a)" by (simp flip: word_uint_eq_iff)
qed

text \<open>
  On Windows the timer takes a tick of the performance counter for a second: after \<open>d\<close> ticks it reports
  \<open>d\<close> seconds, a million times as many microseconds, and after more than 2147 ticks, less
  than a millisecond of a counter of 10 MHz, the computation overflows.
\<close>

theorem timer_win_counts_ticks:
  assumes "qpc w = (a, w1)" and "qpc w2 = (b, w3)" and "uint b = uint a + d" and "0 \<le> d" and "uint a mod 2 ^ 32 + d < 2 ^ 31"
    and "SetStartTime_win qpc (Timer_Initialize_win t) w = (t1, w1')" and "SetEndTime_win qpc t1 w2 = (t2, w3')"
  shows "GetMicroSeconds_win t2 = (if d \<le> 2147 then Returns (word_of_int (d * 1000000)) else Faults SignedOverflow)
    \<and> GetSeconds_win t2 = (if d \<le> 2147 then Returns (word_of_int d) else Faults SignedOverflow)"
proof -
  have t2: "m_startTime_win t2 = \<lparr>tv_sec_win = ucast a, tv_usec_win = ucast (drop_bit 32 a)\<rparr>"
    "m_endTime_win t2 = \<lparr>tv_sec_win = ucast b, tv_usec_win = ucast (drop_bit 32 b)\<rparr>"
    using assms(1,2,6,7) by (auto simp: SetStartTime_win_def SetEndTime_win_def GET_CLOCK_COUNT_win_def Timer_Initialize_win_def)
  note halves = tick_halves [OF assms(3-5)]
  have "0 \<le> uint a mod 2 ^ 32" by simp
  then have d: "d < 2 ^ 31" using assms(5) by linarith
  then have sd: "sint (i32 d) = d" using assms(4) by (intro sint_i32) simp_all
  have us: "CalcTotalUSec_win t2 = (if d \<le> 2147 then Returns (word_of_int (d * 1000000)) else Faults SignedOverflow)"
  proof (cases "d \<le> 2147")
    case True
    then have "sint (i32 (d * 1000000)) = d * 1000000" using assms(4) by (intro sint_i32) simp_all
    moreover have "long_value (d * 1000000) = Returns (i32 (d * 1000000))" using True assms(4) by (intro long_value_in) simp_all
    ultimately show ?thesis using True assms(4) halves d sd
      by (simp add: CalcTotalUSec_win_def t2 long_value_in del: of_int_mult)
  next
    case False
    then show ?thesis using assms(4) halves d sd by (simp add: CalcTotalUSec_win_def t2 long_value_in) (simp add: long_value_def)
  qed
  have "(word_of_int (d * 1000000) :: uint32) div 1000000 = word_of_int d" if "d \<le> 2147"
  proof -
    have "uint (word_of_int (d * 1000000) :: uint32) = d * 1000000" "uint (word_of_int d :: uint32) = d"
      using that assms(4) by (simp_all only: uint_word_of_int) (simp_all add: mod_pos_pos_trivial)
    then show ?thesis by (simp add: word_uint_eq_iff uint_div_distrib del: of_int_mult)
  qed
  then show ?thesis using us by (simp add: GetMicroSeconds_win_def GetSeconds_win_def del: of_int_mult)
qed

text \<open>A counter of 10 MHz read every 100 microseconds: the timer says 1000 seconds.\<close>

theorem timer_win_counts_ticks_witness:
  "let qpc = (\<lambda>w. (w, w + 1000)); t = \<lparr>m_startTime_win = \<lparr>tv_sec_win = 7, tv_usec_win = 7\<rparr>, m_endTime_win = \<lparr>tv_sec_win = 7, tv_usec_win = 7\<rparr>\<rparr>;
       (t1, w1) = SetStartTime_win qpc (Timer_Initialize_win t) 5;
       (t2, w2) = SetEndTime_win qpc t1 w1
   in GetMicroSeconds_win t2 = Returns 1000000000 \<and> GetSeconds_win t2 = Returns 1000"
proof -
  define t where "t = \<lparr>m_startTime_win = \<lparr>tv_sec_win = 7, tv_usec_win = 7\<rparr>, m_endTime_win = \<lparr>tv_sec_win = 7, tv_usec_win = 7\<rparr>\<rparr>"
  define qpc :: "uint64 tick_counter" where "qpc = (\<lambda>w. (w, w + 1000))"
  obtain t1 w1 where a: "SetStartTime_win qpc (Timer_Initialize_win t) 5 = (t1, w1)" by fastforce
  obtain t2 w2 where b: "SetEndTime_win qpc t1 w1 = (t2, w2)" by fastforce
  have w: "w1 = 1005" using a by (auto simp: SetStartTime_win_def GET_CLOCK_COUNT_win_def qpc_def)
  have "qpc 5 = (5, 1005)" "qpc 1005 = (1005, 2005)" by (simp_all add: qpc_def)
  from timer_win_counts_ticks [OF this _ _ _ a b [unfolded w], of 1000]
  have "GetMicroSeconds_win t2 = Returns 1000000000 \<and> GetSeconds_win t2 = Returns 1000" by simp
  then show ?thesis by (simp add: Let_def a b flip: qpc_def t_def)
qed

end
