(* ===== verification/Darwin_Branches.thy ===== *)
theory Darwin_Branches imports Active_Socket begin

text \<open>
  What a Darwin build compiles differently. Two places depend on it: the constructor has no case for
  the raw type, and the \<open>switch\<close> of \<open>TranslateSocketError\<close>, one text for both systems, has the
  error numbers of Darwin. Everything else is the code of Linux over the constants of another system.
\<close>

section \<open>Error numbers\<close>

abbreviation (input) EWOULDBLOCK_darwin :: int where "EWOULDBLOCK_darwin \<equiv> 35"
abbreviation (input) EINPROGRESS_darwin :: int where "EINPROGRESS_darwin \<equiv> 36"
abbreviation (input) ENOTSOCK_darwin :: int where "ENOTSOCK_darwin \<equiv> 38"
abbreviation (input) ENOPROTOOPT_darwin :: int where "ENOPROTOOPT_darwin \<equiv> 42"
abbreviation (input) EPROTONOSUPPORT_darwin :: int where "EPROTONOSUPPORT_darwin \<equiv> 43"
abbreviation (input) EAFNOSUPPORT_darwin :: int where "EAFNOSUPPORT_darwin \<equiv> 47"
abbreviation (input) EADDRINUSE_darwin :: int where "EADDRINUSE_darwin \<equiv> 48"
abbreviation (input) ECONNABORTED_darwin :: int where "ECONNABORTED_darwin \<equiv> 53"
abbreviation (input) ECONNRESET_darwin :: int where "ECONNRESET_darwin \<equiv> 54"
abbreviation (input) ENOBUFS_darwin :: int where "ENOBUFS_darwin \<equiv> 55"
abbreviation (input) ENOTCONN_darwin :: int where "ENOTCONN_darwin \<equiv> 57"
abbreviation (input) ETIMEDOUT_darwin :: int where "ETIMEDOUT_darwin \<equiv> 60"
abbreviation (input) ECONNREFUSED_darwin :: int where "ECONNREFUSED_darwin \<equiv> 61"
abbreviation (input) EPROTO_darwin :: int where "EPROTO_darwin \<equiv> 100"
abbreviation (input) EOPNOTSUPP_darwin :: int where "EOPNOTSUPP_darwin \<equiv> 102"

definition translate_errno_darwin :: "int \<Rightarrow> CSocketError" where
  "translate_errno_darwin n =
     (if n = EXIT_SUCCESS then SocketSuccess
      else if n = ENOTCONN_darwin then SocketNotconnected
      else if n \<in> {ENOTSOCK_darwin, EBADF, EACCES, EAFNOSUPPORT_darwin, EMFILE, ENFILE, ENOBUFS_darwin, ENOMEM,
          EPROTONOSUPPORT_darwin, EPIPE, EOPNOTSUPP_darwin}
        then SocketInvalidSocket
      else if n = ECONNREFUSED_darwin then SocketConnectionRefused
      else if n = ETIMEDOUT_darwin then SocketTimedout
      else if n = EINPROGRESS_darwin then SocketEinprogress
      else if n = EWOULDBLOCK_darwin then SocketEwouldblock
      else if n = EINTR then SocketInterrupted
      else if n = ECONNABORTED_darwin then SocketConnectionAborted
      else if n \<in> {EINVAL, EPROTO_darwin}
        then SocketProtocolError
      else if n = EPERM then SocketFirewallError
      else if n = EFAULT then SocketInvalidSocketBuffer
      else if n \<in> {ECONNRESET_darwin, ENOPROTOOPT_darwin}
        then SocketConnectionReset
      else if n = EADDRINUSE_darwin then SocketAddressInUse
      else SocketEunknown)"

interpretation darwin: error_table translate_errno_darwin EINTR
  by unfold_locales (auto simp: translate_errno_darwin_def)

definition TranslateSocketError_darwin :: "'a csocket_scheme \<Rightarrow> 'w env \<Rightarrow> 'a csocket_scheme" where
  "TranslateSocketError_darwin s e = SetSocketError (translate_errno_darwin (errno e)) s"

text \<open>The errors that the \<open>switch\<close> names, by their numbers on Linux and on Darwin.\<close>

definition darwin_pairs :: "(int \<times> int) list" where
  "darwin_pairs =
     [(EXIT_SUCCESS, EXIT_SUCCESS), (ENOTCONN, ENOTCONN_darwin), (ENOTSOCK, ENOTSOCK_darwin), (EBADF, EBADF),
      (EACCES, EACCES), (EAFNOSUPPORT, EAFNOSUPPORT_darwin), (EMFILE, EMFILE), (ENFILE, ENFILE),
      (ENOBUFS, ENOBUFS_darwin), (ENOMEM, ENOMEM), (EPROTONOSUPPORT, EPROTONOSUPPORT_darwin), (EPIPE, EPIPE),
      (EOPNOTSUPP, EOPNOTSUPP_darwin), (ECONNREFUSED, ECONNREFUSED_darwin), (ETIMEDOUT, ETIMEDOUT_darwin),
      (EINPROGRESS, EINPROGRESS_darwin), (EWOULDBLOCK, EWOULDBLOCK_darwin), (EINTR, EINTR),
      (ECONNABORTED, ECONNABORTED_darwin), (EINVAL, EINVAL), (EPROTO, EPROTO_darwin), (EPERM, EPERM),
      (EFAULT, EFAULT), (ECONNRESET, ECONNRESET_darwin), (ENOPROTOOPT, ENOPROTOOPT_darwin),
      (EADDRINUSE, EADDRINUSE_darwin)]"

text \<open>
  The two builds give an error of one name one code, and an error without a name the unknown code: no two
  labels of the \<open>switch\<close> have one number on either system, so the order of its cases does not matter.
\<close>

theorem darwin_translates_alike:
  "distinct (map fst darwin_pairs) \<and> distinct (map snd darwin_pairs)
   \<and> list_all (\<lambda>(l, d). translate_errno_darwin d = translate_errno l) darwin_pairs
   \<and> (translate_errno_darwin n = SocketEunknown \<longleftrightarrow> n \<notin> set (map snd darwin_pairs))"
proof (intro conjI)
  show "translate_errno_darwin n = SocketEunknown \<longleftrightarrow> n \<notin> set (map snd darwin_pairs)"
    by (auto simp: translate_errno_darwin_def darwin_pairs_def)
qed (simp_all add: darwin_pairs_def translate_errno_darwin_def translate_errno_def)

section \<open>The constructor\<close>

abbreviation (input) AF_INET6_darwin :: int32 where "AF_INET6_darwin \<equiv> 30"

definition CSimpleSocket_darwin :: "CSocketType \<Rightarrow> 'a csocket_scheme \<Rightarrow> 'a csocket_scheme" where
  "CSimpleSocket_darwin nType raw =
     (let s0 = raw\<lparr>m_socket := INVALID_SOCKET, m_socketErrno := SocketInvalidSocket,
                  m_pBuffer := None, m_nBufferSize := 0, m_nSocketDomain := AF_INET,
                  m_nSocketType := SocketTypeInvalid, m_nBytesReceived := -1,
                  m_nBytesSent := -1, m_nFlags := 0,
                  m_bIsBlocking := True, m_bIsMulticast := False\<rparr>;
          s1 = (SetConnectTimeout 1 0 s0)
                 \<lparr>m_stRecvTimeout := timeval_zero, m_stSendTimeout := timeval_zero,
                  m_stLinger := \<lparr>l_onoff = 0, l_linger = 0\<rparr>\<rparr>
      in (case nType of
            SocketTypeTcp \<Rightarrow> s1\<lparr>m_nSocketDomain := AF_INET, m_nSocketType := SocketTypeTcp\<rparr>
          | SocketTypeTcp6 \<Rightarrow> s1\<lparr>m_nSocketDomain := AF_INET6_darwin, m_nSocketType := SocketTypeTcp6\<rparr>
          | SocketTypeUdp \<Rightarrow> s1\<lparr>m_nSocketDomain := AF_INET, m_nSocketType := SocketTypeUdp\<rparr>
          | SocketTypeUdp6 \<Rightarrow> s1\<lparr>m_nSocketDomain := AF_INET6_darwin, m_nSocketType := SocketTypeUdp6\<rparr>
          | SocketTypeRaw \<Rightarrow> s1
          | _ \<Rightarrow> s1\<lparr>m_nSocketType := SocketTypeInvalid\<rparr>))"

text \<open>
  For the stream and the datagram type the constructors of the two builds are one. On Darwin a raw
  socket is an invalid one: \<open>Initialize\<close> asks for the type number 0, and \<open>Open\<close> makes no
  system call and returns false, leaving the error of the last call or of its own checks.
\<close>

theorem darwin_raw_is_invalid:
  assumes "m_nSocketType s = m_nSocketType (CSimpleSocket_darwin SocketTypeRaw raw)"
  shows "CSimpleSocket_darwin SocketTypeRaw raw = CSimpleSocket SocketTypeInvalid raw
    \<and> CSimpleSocket_darwin SocketTypeTcp raw = CSimpleSocket SocketTypeTcp raw
    \<and> CSimpleSocket_darwin SocketTypeUdp raw = CSimpleSocket SocketTypeUdp raw
    \<and> GetSocketType s = SocketTypeInvalid
    \<and> (\<exists>s'. Open os pAddr nPort s e = Returns (False, s', e)
        \<and> GetSocketError s' \<in> {GetSocketError s, SocketInvalidSocket, SocketInvalidAddress, SocketInvalidPort})"
proof -
  have same: "CSimpleSocket_darwin SocketTypeRaw raw = CSimpleSocket SocketTypeInvalid raw"
    "CSimpleSocket_darwin SocketTypeTcp raw = CSimpleSocket SocketTypeTcp raw"
    "CSimpleSocket_darwin SocketTypeUdp raw = CSimpleSocket SocketTypeUdp raw"
    by (simp_all add: CSimpleSocket_darwin_def CSimpleSocket_def Let_def SetConnectTimeout_def)
  have ty: "m_nSocketType s = SocketTypeInvalid"
    using assms by (simp add: CSimpleSocket_darwin_def Let_def SetConnectTimeout_def)
  have "\<exists>s'. Open os pAddr nPort s e = Returns (False, s', e)
      \<and> GetSocketError s' \<in> {GetSocketError s, SocketInvalidSocket, SocketInvalidAddress, SocketInvalidPort}"
    by (cases pAddr) (auto simp: Open_def ty SetSocketError_def GetSocketError_def)
  with same ty show ?thesis by (simp add: GetSocketType_def)
qed

end
